(* ===== verification/Prelude.thy ===== *)
theory Prelude
  imports Main "HOL-Library.Word"
begin

text \<open>
  Shared vocabulary of the development: the C integer types at their width, the byte-addressed
  host memory that the driver reaches through pointers and the card through DMA, the register
  interface of a memory-mapped device, and the faults a C program can run into. The lemmas
  here are generic facts on words and memory that every component uses.
\<close>

unbundle bit_operations_syntax

section \<open>C integer types\<close>

type_synonym u8 = "8 word"
type_synonym u16 = "16 word"
type_synonym u32 = "32 word"
type_synonym u64 = "64 word"

text \<open>
  Collections: \<open>regs\<close> holds the register numbers and bit masks (all of them closed word
  terms), \<open>ring_defs\<close> the definitions that the ring buffer proofs unfold.
\<close>

named_theorems regs "register offsets and bit masks"
named_theorems ring_defs "definitions of the ring buffer views"

section \<open>Faults\<close>

text \<open>
  C code that dereferences a null pointer or leaves the bounds of an object has no defined
  behaviour; \<open>BUG_ON\<close> and \<open>hw_error\<close> stop the kernel and the emulator. The models return a
  fault there instead of a value.
\<close>

datatype fault = NullDeref | OutOfBounds | Bug | HwError

text \<open>Error numbers, which the driver returns negated.\<close>

definition EIO :: int where "EIO = 5"
definition ENXIO :: int where "ENXIO = 6"
definition EAGAIN :: int where "EAGAIN = 11"
definition ENOMEM :: int where "ENOMEM = 12"
definition EINVAL :: int where "EINVAL = 22"
definition ERANGE :: int where "ERANGE = 34"
definition EADDRNOTAVAIL :: int where "EADDRNOTAVAIL = 99"
definition ETIMEDOUT :: int where "ETIMEDOUT = 110"

lemmas errno_defs = EIO_def ENXIO_def EAGAIN_def ENOMEM_def EINVAL_def ERANGE_def
  EADDRNOTAVAIL_def ETIMEDOUT_def

section \<open>Byte-addressed memory\<close>

type_synonym mem = "u64 \<Rightarrow> u8"

definition mem_get :: "mem \<Rightarrow> u64 \<Rightarrow> nat \<Rightarrow> u8 list" where
  "mem_get m a n = map (\<lambda>i. m (a + of_nat i)) [0..<n]"

definition mem_put :: "mem \<Rightarrow> u64 \<Rightarrow> u8 list \<Rightarrow> mem" where
  "mem_put m a bs = (\<lambda>x. let i = unat (x - a) in if i < length bs then bs ! i else m x)"

text \<open>A 32-bit object in memory, in the byte order of the (little-endian) host.\<close>

definition le32 :: "u32 \<Rightarrow> u8 list" where
  "le32 w = [ucast w, ucast (drop_bit 8 w), ucast (drop_bit 16 w), ucast (drop_bit 24 w)]"

definition get32 :: "mem \<Rightarrow> u64 \<Rightarrow> u32" where
  "get32 m a = ucast (m a) OR push_bit 8 (ucast (m (a + 1)))
     OR push_bit 16 (ucast (m (a + 2))) OR push_bit 24 (ucast (m (a + 3)))"

lemma length_mem_get [simp]: "length (mem_get m a n) = n"
  by (simp add: mem_get_def)

lemma length_le32 [simp]: "length (le32 w) = 4"
  by (simp add: le32_def)

lemma nth_mem_get [simp]: "i < n \<Longrightarrow> mem_get m a n ! i = m (a + of_nat i)"
  by (simp add: mem_get_def)

lemma mem_get_0 [simp]: "mem_get m a 0 = []"
  by (simp add: mem_get_def)

lemma take_mem_get [simp]: "take k (mem_get m a n) = mem_get m a (min k n)"
  by (rule nth_equalityI) simp_all

lemma drop_mem_get: "drop k (mem_get m a n) = mem_get m (a + of_nat k) (n - k)"
  by (rule nth_equalityI) (simp_all add: add.assoc)

lemma mem_put_Nil [simp]: "mem_put m a [] = m"
  by (simp add: mem_put_def)

lemma mem_put_in: "i < length bs \<Longrightarrow> length bs \<le> 2 ^ 64 \<Longrightarrow> mem_put m a bs (a + of_nat i) = bs ! i"
  by (simp add: mem_put_def unat_of_nat Let_def take_bit_eq_mod unat_word_ariths)

lemma mem_put_out: "length bs \<le> unat (x - a) \<Longrightarrow> mem_put m a bs x = m x"
  by (simp add: mem_put_def)

lemma mem_get_put_same: "length bs \<le> 2 ^ 64 \<Longrightarrow> mem_get (mem_put m a bs) a (length bs) = bs"
  by (rule nth_equalityI) (simp_all add: mem_put_in)

lemma mem_get_put_prefix:
  "length bs \<le> 2 ^ 64 \<Longrightarrow> n \<le> length bs \<Longrightarrow> mem_get (mem_put m a bs) a n = take n bs"
  by (rule nth_equalityI) (simp_all add: mem_put_in)

lemma mem_get_cong:
  "(\<And>i. i < n \<Longrightarrow> m (a + of_nat i) = m' (a + of_nat i)) \<Longrightarrow> mem_get m a n = mem_get m' a n"
  by (rule nth_equalityI) simp_all

text \<open>A write leaves a block alone that starts at distance \<open>k\<close> after it or ends before it.\<close>

lemma mem_get_put_after:
  assumes "length bs \<le> unat (b - a)" and "unat (b - a) + n \<le> 2 ^ 64"
  shows "mem_get (mem_put m a bs) b n = mem_get m b n"
proof (rule mem_get_cong)
  fix i assume i: "i < n"
  have "b + of_nat i - a = (b - a) + of_nat i" by simp
  moreover have "unat ((b - a) + of_nat i) = unat (b - a) + i"
    using i assms(2) by (simp add: unat_word_ariths unat_of_nat)
  ultimately have "unat (b + of_nat i - a) = unat (b - a) + i" by metis
  then show "mem_put m a bs (b + of_nat i) = m (b + of_nat i)"
    using assms(1) by (simp add: mem_put_out)
qed

lemma mem_put_get_eq: "x - a = of_nat i \<Longrightarrow> i < length bs \<Longrightarrow> length bs \<le> 2 ^ 64 \<Longrightarrow> mem_put m a bs x = bs ! i"
  by (simp add: mem_put_def Let_def unat_of_nat take_bit_nat_eq_self)

text \<open>Blocks at addresses that do not wrap around, one behind the other.\<close>

lemma mem_get_put_disjoint:
  assumes "unat a + length bs \<le> unat b \<or> unat b + n \<le> unat a"
    and "unat a + length bs \<le> 2 ^ 64" and "unat b + n \<le> 2 ^ 64"
  shows "mem_get (mem_put m a bs) b n = mem_get m b n"
proof (rule mem_get_cong)
  fix i assume i: "i < n"
  have ui: "unat (b + of_nat i) = unat b + i"
    using i assms(3) by (simp add: unat_word_ariths unat_of_nat)
  have "length bs \<le> unat (b + of_nat i - a)"
  proof (cases "unat a \<le> unat (b + of_nat i)")
    case True
    then have "unat (b + of_nat i - a) = unat b + i - unat a"
      using ui by (subst unat_sub) (simp_all add: word_le_nat_alt)
    then show ?thesis using assms(1) i True ui by auto
  next
    case False
    then have "unat (b + of_nat i - a) = 2 ^ 64 - (unat a - unat (b + of_nat i))"
      by (simp add: unat_sub_if_size word_size)
    then show ?thesis using assms(2) False ui by linarith
  qed
  then show "mem_put m a bs (b + of_nat i) = m (b + of_nat i)" by (rule mem_put_out)
qed

lemma get32_cong:
  "m a = m' a \<Longrightarrow> m (a + 1) = m' (a + 1) \<Longrightarrow> m (a + 2) = m' (a + 2) \<Longrightarrow> m (a + 3) = m' (a + 3)
   \<Longrightarrow> get32 m a = get32 m' a"
  by (simp add: get32_def)

lemma get32_mem_get: "mem_get m a 4 = mem_get m' a 4 \<Longrightarrow> get32 m a = get32 m' a"
  by (rule get32_cong) (simp_all add: mem_get_def upt_rec)

lemma bit_le32_byte: "bit (ucast (ucast (w :: u32) :: u8) :: u32) n \<longleftrightarrow> n < 8 \<and> bit w n"
  by (auto simp: bit_unsigned_iff)

lemma le32_bytes:
  "ucast (ucast w :: u8) OR push_bit 8 (ucast (ucast (drop_bit 8 w) :: u8))
     OR push_bit 16 (ucast (ucast (drop_bit 16 w) :: u8))
     OR push_bit 24 (ucast (ucast (drop_bit 24 w) :: u8)) = (w :: u32)"
proof (rule bit_word_eqI)
  fix n assume n: "n < LENGTH(32)"
  then have "n < 8 \<or> (8 \<le> n \<and> n < 16) \<or> (16 \<le> n \<and> n < 24) \<or> (24 \<le> n \<and> n < 32)" by auto
  then show "bit (ucast (ucast w :: u8) OR push_bit 8 (ucast (ucast (drop_bit 8 w) :: u8))
     OR push_bit 16 (ucast (ucast (drop_bit 16 w) :: u8))
     OR push_bit 24 (ucast (ucast (drop_bit 24 w) :: u8)) :: u32) n = bit w n"
    using n
    by (elim disjE) (simp_all only: bit_or_iff bit_push_bit_iff bit_le32_byte bit_drop_bit_eq comp_def,
       auto)
qed

lemma get32_put_le32: "get32 (mem_put m a (le32 w)) a = w"
proof -
  have "mem_put m a (le32 w) (a + of_nat i) = le32 w ! i" if "i < 4" for i
    using that by (simp add: mem_put_in)
  from this [of 0] this [of 1] this [of 2] this [of 3]
  show ?thesis by (simp add: get32_def le32_def le32_bytes)
qed

section \<open>Memory-mapped registers\<close>

text \<open>
  What \<open>ioread32\<close>/\<open>readl\<close> and \<open>iowrite32\<close>/\<open>writel\<close> do to the device behind
  the BAR: a read returns a value and may change the device, a write changes the device. The
  device state \<open>'d\<close> is a parameter; the driver's operations take this record as an argument.
\<close>

record 'd mmio =
  ioread :: "'d \<Rightarrow> u32 \<Rightarrow> u32 \<times> 'd"
  iowrite :: "'d \<Rightarrow> u32 \<Rightarrow> u32 \<Rightarrow> 'd"

text \<open>
  A passive register file: reads return the last value written. It is the simplest device that
  a driver operation can be run against.
\<close>

definition regfile :: "(u32 \<Rightarrow> u32) mmio" where
  "regfile = \<lparr>ioread = (\<lambda>d a. (d a, d)), iowrite = (\<lambda>d a v. d(a := v))\<rparr>"

lemma regfile_simps [simp]:
  "ioread regfile d a = (d a, d)"
  "iowrite regfile d a v = d(a := v)"
  by (simp_all add: regfile_def)

section \<open>Words and natural numbers\<close>

lemma unat_add_no_wrap: "unat a + unat b < 2 ^ LENGTH('a) \<Longrightarrow> unat (a + b :: 'a::len word) = unat a + unat b"
  by (rule unat_add_lem [THEN iffD1])

lemma unat_sub_no_wrap: "unat b \<le> unat a \<Longrightarrow> unat (a - b :: 'a::len word) = unat a - unat b"
  by (rule unat_sub) (simp add: word_le_nat_alt)

lemma unat_and_mask: "unat (w AND mask n :: 'a::len word) = unat w mod 2 ^ n"
  by (metis take_bit_eq_mask take_bit_eq_mod unsigned_take_bit_eq)

lemma unat_ucast_up:
  "LENGTH('a) \<le> LENGTH('b) \<Longrightarrow> unat (ucast (w :: 'a::len word) :: 'b::len word) = unat w"
  by (simp add: unsigned_ucast_eq take_bit_nat_eq_self_iff) (metis le_trans unsigned_less power_increasing one_le_numeral less_le_trans)

lemma unat_ucast_widen [simp]:
  "unat (ucast (w8 :: u8) :: u32) = unat w8" "unat (ucast (w8 :: u8) :: u64) = unat w8"
  "unat (ucast (w16 :: u16) :: u32) = unat w16" "unat (ucast (w16 :: u16) :: u64) = unat w16"
  "unat (ucast (w32 :: u32) :: u64) = unat w32"
  by (simp_all add: unat_ucast_up)

lemma unat_ucast_small:
  "unat (w :: 'a::len word) < 2 ^ LENGTH('b) \<Longrightarrow> unat (ucast w :: 'b::len word) = unat w"
  by (simp add: unsigned_ucast_eq take_bit_nat_eq_self)

text \<open>A command word: a byte in bits 0 to 7 and flags above. Its byte, and its bit 9.\<close>

lemma bit_flags [simp]: "bit (0x100 :: int) n \<longleftrightarrow> n = 8" "bit (0x200 :: int) n \<longleftrightarrow> n = 9"
proof -
  have eq: "(0x100 :: int) = 2 ^ 8" "(0x200 :: int) = 2 ^ 9" by simp_all
  show "bit (0x100 :: int) n \<longleftrightarrow> n = 8" unfolding eq bit_exp_iff by auto
  show "bit (0x200 :: int) n \<longleftrightarrow> n = 9" unfolding eq bit_exp_iff by auto
qed

lemma cmd_byte [simp]:
  "ucast (ucast (ucast (b :: u8) OR 0x100 :: u32) AND (0xFF :: u64)) = b"
  "ucast (ucast (b :: u8) AND (0xFF :: u64)) = b"
proof -
  have eq: "(0xFF :: u64) = mask 8" by (simp add: mask_eq_exp_minus_1)
  have b: "n < 8" if "bit b n" for n using that bit_imp_le_length [of b n] by simp
  show "ucast (ucast (ucast (b :: u8) OR 0x100 :: u32) AND (0xFF :: u64)) = b"
    unfolding eq by (rule bit_word_eqI) (auto simp: bit_simps dest: b)
  show "ucast (ucast (b :: u8) AND (0xFF :: u64)) = b"
    unfolding eq by (rule bit_word_eqI) (auto simp: bit_simps dest: b)
qed

lemma cmd_no_start [simp]:
  "ucast (ucast (b :: u8) OR 0x100 :: u32) AND (0x200 :: u64) = 0"
  "ucast (b :: u8) AND (0x200 :: u64) = 0"
proof -
  have b: "n < 8" if "bit b n" for n using that bit_imp_le_length [of b n] by simp
  show "ucast (ucast (b :: u8) OR 0x100 :: u32) AND (0x200 :: u64) = 0"
    by (rule bit_word_eqI) (auto simp: bit_simps dest: b)
  show "ucast (b :: u8) AND (0x200 :: u64) = 0"
    by (rule bit_word_eqI) (auto simp: bit_simps dest: b)
qed

lemma unat_of_nat_small: "k < 2 ^ LENGTH('a) \<Longrightarrow> unat (of_nat k :: 'a::len word) = k"
  by (simp add: unat_of_nat take_bit_nat_eq_self)

lemma of_nat_eq_0_small: "k < 2 ^ LENGTH('a) \<Longrightarrow> (of_nat k :: 'a::len word) = 0 \<longleftrightarrow> k = 0"
  by (simp add: unat_0_iff [symmetric] unat_of_nat_small)

lemma ucast_ucast_mid [simp]:
  "ucast (ucast (b :: u8) :: u64) = (ucast b :: u32)"
  "ucast (ucast (b :: u8) :: u32) = (ucast b :: u64)"
  "ucast (ucast (w :: u32) :: u64) = w"
  "ucast (ucast (b :: u8) :: u32) = b"
proof -
  have b: "n < 8" if "bit b n" for n using that bit_imp_le_length [of b n] by simp
  show "ucast (ucast (b :: u8) :: u64) = (ucast b :: u32)"
    by (rule bit_word_eqI) (auto simp: bit_simps dest: b)
  show "ucast (ucast (b :: u8) :: u32) = (ucast b :: u64)"
    by (rule bit_word_eqI) (auto simp: bit_simps dest: b)
  show "ucast (ucast (w :: u32) :: u64) = w"
    by (rule bit_word_eqI) (auto simp: bit_simps)
  show "ucast (ucast (b :: u8) :: u32) = b"
    by (rule bit_word_eqI) (auto simp: bit_simps)
qed

lemma word_pos_iff: "(0 < (w :: 'a::len word)) \<longleftrightarrow> w \<noteq> 0"
  by (simp add: word_neq_0_conv)

text \<open>The value of a C \<open>int\<close>.\<close>

lemma sint_u32: "sint (w :: u32) = (if unat w < 2 ^ 31 then int (unat w) else int (unat w) - 2 ^ 32)"
proof -
  have b: "0 \<le> uint w" "uint w < 4294967296" using unsigned_less [of w, where ?'a = int] by simp_all
  have s: "sint w = (uint w + 2147483648) mod 4294967296 - 2147483648"
    by (simp add: sint_uint signed_take_bit_eq_take_bit_shift take_bit_eq_mod)
  have "sint w = (if uint w < 2147483648 then uint w else uint w - 4294967296)"
  proof (cases "uint w < 2147483648")
    case True
    then show ?thesis using b unfolding s by (simp add: mod_pos_pos_trivial)
  next
    case False
    then show ?thesis using b unfolding s by (subst mod_pos_geq) (simp_all add: mod_pos_pos_trivial)
  qed
  moreover have "int (unat w) = uint w" by simp
  moreover have "unat w < 2 ^ 31 \<longleftrightarrow> uint w < 2147483648"
    using of_nat_less_iff [of "unat w" 2147483648, where 'a = int, symmetric] by simp
  ultimately show ?thesis by simp
qed

text \<open>A negative 64-bit difference kept in an \<open>int\<close> comes back when it is added to a pointer.\<close>

lemma scast_neg:
  assumes "unat (d :: u64) < 2 ^ 31"
  shows "scast (ucast (- d) :: u32) = - d"
proof -
  define k where "k = int (unat d)"
  have d: "d = word_of_int k" by (simp add: k_def)
  have "k < 2 ^ 31" "0 \<le> k" using assms unfolding k_def of_nat_less_numeral_power_cancel_iff by simp_all
  then have k: "- (2 ^ 31) \<le> - k" "- k < 2 ^ 31" by simp_all
  have "- d = word_of_int (- k)" unfolding d by simp
  then have "(ucast (- d) :: u32) = ucast (word_of_int (- k) :: u64)" by (simp only:)
  also have "\<dots> = word_of_int (- k)"
  proof -
    have "take_bit LENGTH(32) (take_bit LENGTH(64) (- k)) = take_bit LENGTH(32) (- k)" by (simp add: take_bit_take_bit)
    then have "(word_of_int (take_bit LENGTH(64) (- k)) :: u32) = word_of_int (- k)" by (rule word_of_int_eq_iff [THEN iffD2])
    then show ?thesis by (simp only: ucast_eq uint_word_of_int_eq)
  qed
  finally have "(ucast (- d) :: u32) = word_of_int (- k)" .
  moreover have "sint (word_of_int (- k) :: u32) = - k"
    unfolding signed_of_int using k by (simp add: signed_take_bit_int_eq_self)
  ultimately have "scast (ucast (- d) :: u32) = (word_of_int (- k) :: u64)" by (simp only: scast_eq)
  then show ?thesis unfolding d by simp
qed
end
