(* ===== verification/Registers.thy ===== *)
theory Registers
  imports Prelude
begin

text \<open>
  The register map of the card as the driver sees it: the macros of \<open>src/driver/src/fejkon.h\<close>
  (port windows in BAR 0, interrupt vectors, SFP status bits, the clock). An \<open>int\<close> port number is a
  32-bit word.
\<close>

section \<open>Ports\<close>

definition MAX_PORTS :: nat where
  "MAX_PORTS = 4"

definition PORT_SFP_I2C_IRQ :: "u32 \<Rightarrow> u32" where
  "PORT_SFP_I2C_IRQ x = 3 + x"

definition BAR0_SFP_I2C_OFFSET :: "u32 \<Rightarrow> u32" where
  "BAR0_SFP_I2C_OFFSET x = 0x100 * (x + 1) + 0x40"

definition BAR0_SFP_STATUS_OFFSET :: "u32 \<Rightarrow> u32" where
  "BAR0_SFP_STATUS_OFFSET x = 0x100 * (x + 1) + 0x0"

definition BAR0_FC_STATE_OFFSET :: "u32 \<Rightarrow> u32" where
  "BAR0_FC_STATE_OFFSET x = 0x2000 * x + 0x9000"

section \<open>SFP status bits\<close>

definition SFP_PRESENT :: u32 where [regs]: "SFP_PRESENT = push_bit 0 1"
definition SFP_LOS :: u32 where [regs]: "SFP_LOS = push_bit 1 1"
definition SFP_TX_FAIL :: u32 where [regs]: "SFP_TX_FAIL = push_bit 2 1"
definition SFP_TX_DISABLE :: u32 where [regs]: "SFP_TX_DISABLE = push_bit 3 1"

section \<open>The clock of the I2C cores\<close>

text \<open>\<open>#define CLK 50 * 1000 * 1000\<close>: a textual macro, so that \<open>CLK / d\<close> is
  \<open>((50 * 1000) * 1000) / d\<close>; the product comes first.\<close>

definition CLK_div :: "u32 \<Rightarrow> u32" where
  "CLK_div d = 50 * 1000 * 1000 div d"

lemmas port_offset_defs = BAR0_SFP_I2C_OFFSET_def BAR0_SFP_STATUS_OFFSET_def BAR0_FC_STATE_OFFSET_def

lemma port_offsets_0 [simp]:
  "BAR0_SFP_I2C_OFFSET 0 = 0x140" "BAR0_SFP_STATUS_OFFSET 0 = 0x100" "BAR0_FC_STATE_OFFSET 0 = 0x9000"
  by (simp_all add: port_offset_defs)

lemma port_offsets_1 [simp]:
  "BAR0_SFP_I2C_OFFSET 1 = 0x240" "BAR0_SFP_STATUS_OFFSET 1 = 0x200" "BAR0_FC_STATE_OFFSET 1 = 0xB000"
  by (simp_all add: port_offset_defs)

end
