(* ===== verification/Ring.thy ===== *)
theory Ring
  imports Prelude
begin

text \<open>
  The contract of a ring of slots addressed through cursors, which both sides of the packet
  path rely on: the driver's \<open>+= 4096\<close> with the wrap to the start, and the card's
  \<open>dma_incr\<close>. A provider gives the operation that moves a cursor one slot on; the client
  lemmas (occupancy, full and empty, the slots between two cursors) are proved once here.
\<close>

section \<open>Abstract views\<close>

text \<open>Number of slots from index \<open>i\<close> up to index \<open>j\<close> in a ring of \<open>n\<close> slots.\<close>

definition ring_used :: "nat \<Rightarrow> nat \<Rightarrow> nat \<Rightarrow> nat" where
  "ring_used n i j = (j + n - i) mod n"

text \<open>The cursors met by \<open>k\<close> moves from \<open>p\<close>.\<close>

fun walk :: "('p \<Rightarrow> 'p) \<Rightarrow> 'p \<Rightarrow> nat \<Rightarrow> 'p list" where
  "walk f p 0 = []"
| "walk f p (Suc k) = p # walk f (f p) k"

text \<open>The bounded FIFO that a ring implements: an element that does not fit is dropped.\<close>

definition fifo_enq :: "nat \<Rightarrow> 'a \<Rightarrow> 'a list \<Rightarrow> 'a list" where
  "fifo_enq cap x q = (if length q < cap then q @ [x] else q)"

lemma length_walk [simp]: "length (walk f p k) = k"
  by (induction k arbitrary: p) simp_all

lemma walk_snoc: "walk f p (Suc k) = walk f p k @ [(f ^^ k) p]"
  by (induction k arbitrary: p) (simp_all add: funpow_swap1)

lemma nth_walk: "i < k \<Longrightarrow> walk f p k ! i = (f ^^ i) p"
  by (induction k arbitrary: p i) (auto simp: nth_Cons funpow_swap1 split: nat.splits)

lemma set_walk: "set (walk f p k) = {(f ^^ i) p | i. i < k}"
  by (auto simp: set_conv_nth nth_walk) (metis nth_walk)

lemma take_walk: "take j (walk f p k) = walk f p (min j k)"
  by (induction k arbitrary: p j) (auto simp: take_Cons split: nat.splits)

lemma ring_used_lt: "0 < n \<Longrightarrow> ring_used n i j < n"
  by (simp add: ring_used_def)

lemma ring_used_cases:
  "i < n \<Longrightarrow> j < n \<Longrightarrow> ring_used n i j = (if i \<le> j then j - i else n + j - i)"
  by (auto simp: ring_used_def mod_if)

lemma fifo_enq_bounded: "length q \<le> cap \<Longrightarrow> length (fifo_enq cap x q) \<le> cap"
  by (simp add: fifo_enq_def)

section \<open>The contract\<close>

locale ring =
  fixes adv :: "'r \<Rightarrow> 'p \<Rightarrow> 'p"
    and idx :: "'r \<Rightarrow> 'p \<Rightarrow> nat"
    and slots :: "'r \<Rightarrow> nat"
    and ok :: "'r \<Rightarrow> 'p \<Rightarrow> bool"
  assumes ok_adv: "ok r p \<Longrightarrow> ok r (adv r p)"
    and idx_lt: "ok r p \<Longrightarrow> idx r p < slots r"
    and idx_adv: "ok r p \<Longrightarrow> idx r (adv r p) = (if Suc (idx r p) = slots r then 0 else Suc (idx r p))"
    and idx_inj: "ok r p \<Longrightarrow> ok r q \<Longrightarrow> idx r p = idx r q \<Longrightarrow> p = q"
begin

lemma ok_pow: "ok r p \<Longrightarrow> ok r ((adv r ^^ k) p)"
  by (induction k) (simp_all add: ok_adv)

lemma idx_pow: "ok r p \<Longrightarrow> idx r ((adv r ^^ k) p) = (idx r p + k) mod slots r"
proof (induction k)
  case 0
  then show ?case using idx_lt [of r p] by simp
next
  case (Suc k)
  have "idx r ((adv r ^^ k) p) < slots r" by (rule idx_lt [OF ok_pow [OF Suc.prems]])
  with Suc show ?case
    by (simp add: idx_adv ok_pow mod_Suc)
qed

lemma eq_iff_idx: "ok r p \<Longrightarrow> ok r q \<Longrightarrow> p = q \<longleftrightarrow> idx r p = idx r q"
  using idx_inj by blast

lemma adv_eq_iff_idx: "ok r p \<Longrightarrow> ok r q \<Longrightarrow> adv r q = p \<longleftrightarrow> idx r (adv r q) = idx r p"
  by (blast intro: idx_inj ok_adv)

lemma empty_iff: "ok r p \<Longrightarrow> ok r q \<Longrightarrow> ring_used (slots r) (idx r p) (idx r q) = 0 \<longleftrightarrow> p = q"
  using idx_lt [of r p] idx_lt [of r q] by (auto simp: ring_used_cases eq_iff_idx)

lemma reaches:
  assumes p: "ok r p" and q: "ok r q"
  shows "(adv r ^^ ring_used (slots r) (idx r p) (idx r q)) p = q"
proof (rule idx_inj [OF ok_pow [OF p] q])
  show "idx r ((adv r ^^ ring_used (slots r) (idx r p) (idx r q)) p) = idx r q"
    using idx_lt [OF p] idx_lt [OF q] by (simp add: idx_pow [OF p] ring_used_cases)
qed

lemma full_iff:
  assumes p: "ok r p" and q: "ok r q"
  shows "adv r q = p \<longleftrightarrow> ring_used (slots r) (idx r p) (idx r q) = slots r - 1"
  unfolding adv_eq_iff_idx [OF p q] idx_adv [OF q]
  using idx_lt [OF p] idx_lt [OF q] by (auto simp: ring_used_cases)

lemma used_enq:
  assumes p: "ok r p" and q: "ok r q" and "adv r q \<noteq> p"
  shows "ring_used (slots r) (idx r p) (idx r (adv r q)) = Suc (ring_used (slots r) (idx r p) (idx r q))"
proof -
  have "(if Suc (idx r q) = slots r then 0 else Suc (idx r q)) \<noteq> idx r p"
    using assms(3) unfolding adv_eq_iff_idx [OF p q] idx_adv [OF q] .
  then show ?thesis
    unfolding idx_adv [OF q] using idx_lt [OF p] idx_lt [OF q] by (auto simp: ring_used_cases)
qed

lemma used_deq:
  assumes p: "ok r p" and q: "ok r q" and "p \<noteq> q"
  shows "Suc (ring_used (slots r) (idx r (adv r p)) (idx r q)) = ring_used (slots r) (idx r p) (idx r q)"
proof -
  have "idx r p \<noteq> idx r q" using assms idx_inj by blast
  then show ?thesis
    unfolding idx_adv [OF p] using idx_lt [OF p] idx_lt [OF q] by (auto simp: ring_used_cases)
qed

text \<open>The pending slots after an enqueue are the old ones and the slot just filled.\<close>

lemma walk_enq:
  assumes "ok r p" and "ok r q" and "adv r q \<noteq> p"
  shows "walk (adv r) p (ring_used (slots r) (idx r p) (idx r (adv r q)))
       = walk (adv r) p (ring_used (slots r) (idx r p) (idx r q)) @ [q]"
  using assms by (simp add: used_enq walk_snoc reaches del: walk.simps)

lemma walk_deq:
  assumes "ok r p" and "ok r q" and "p \<noteq> q"
  shows "walk (adv r) p (ring_used (slots r) (idx r p) (idx r q))
       = p # walk (adv r) (adv r p) (ring_used (slots r) (idx r (adv r p)) (idx r q))"
  using used_deq [OF assms] by (metis walk.simps(2))

lemma walk_ok: "ok r p \<Longrightarrow> x \<in> set (walk (adv r) p k) \<Longrightarrow> ok r x"
  by (auto simp: set_walk ok_pow)

text \<open>The slot that a producer fills is never one of the pending slots.\<close>

lemma write_slot_free:
  assumes "ok r p" and "ok r q"
  shows "q \<notin> set (walk (adv r) p (ring_used (slots r) (idx r p) (idx r q)))"
proof
  assume "q \<in> set (walk (adv r) p (ring_used (slots r) (idx r p) (idx r q)))"
  then obtain i where "q = (adv r ^^ i) p" and "i < ring_used (slots r) (idx r p) (idx r q)"
    by (auto simp: set_walk)
  then have eq: "idx r q = (idx r p + i) mod slots r"
    and i: "i < ring_used (slots r) (idx r p) (idx r q)"
    using assms idx_pow by auto
  have "(idx r p + i) mod slots r = (if idx r p + i < slots r then idx r p + i else idx r p + i - slots r)"
    using i idx_lt [OF assms(1)] ring_used_lt [of "slots r" "idx r p" "idx r q"]
    by (simp add: mod_if)
  with eq i show False
    using idx_lt [OF assms(1)] idx_lt [OF assms(2)]
    by (auto simp: ring_used_cases split: if_splits)
qed

lemma occupancy_bound: "ok r p \<Longrightarrow> ring_used (slots r) (idx r p) (idx r q) \<le> slots r - 1"
  using idx_lt [of r p] ring_used_lt [of "slots r" "idx r p" "idx r q"] by linarith

end

end
