(* ===== verification/Slots.thy ===== *)
theory Slots
  imports Ring
begin

text \<open>
  Buffers of 4096-byte slots in byte-addressed memory, the layout that the driver and the card
  share: cursors as addresses, the reference cursor move, the distance between slots, and what
  writing a frame into one slot does to it and to the others. The cursor move provides the ring
  contract.
\<close>

section \<open>Cursors\<close>

text \<open>\<open>p += 4096; if (p == end) p = start;\<close>\<close>

definition slot_next :: "u64 \<Rightarrow> u64 \<Rightarrow> u64 \<Rightarrow> u64" where
  "slot_next st en p = (let p = p + 4096 in if p = en then st else p)"

definition slot_count :: "u64 \<Rightarrow> u64 \<Rightarrow> nat" where [ring_defs]:
  "slot_count st en = unat (en - st) div 4096"

definition slot_idx :: "u64 \<Rightarrow> u64 \<Rightarrow> nat" where [ring_defs]:
  "slot_idx st p = unat (p - st) div 4096"

text \<open>A cursor of the buffer: inside, and a whole number of slots away from both ends.\<close>

definition slot_ok :: "u64 \<Rightarrow> u64 \<Rightarrow> u64 \<Rightarrow> bool" where
  "slot_ok st en p \<longleftrightarrow> unat st \<le> unat p \<and> unat p < unat en
     \<and> (unat p - unat st) mod 4096 = 0 \<and> (unat en - unat p) mod 4096 = 0"

text \<open>Cursors as slot numbers: start plus index times the slot size.\<close>

lemma slot_pos:
  assumes "slot_ok st en p"
  shows "unat p = unat st + 4096 * slot_idx st p"
    and "unat en = unat st + 4096 * slot_count st en"
    and "slot_idx st p < slot_count st en"
proof -
  have ord: "unat st \<le> unat p" "unat p < unat en"
    and m: "(unat p - unat st) mod 4096 = 0" "(unat en - unat p) mod 4096 = 0"
    using assms by (simp_all add: slot_ok_def)
  have i: "4096 * slot_idx st p = unat p - unat st"
    using m(1) ord(1) unfolding slot_idx_def by (metis unat_sub_no_wrap mult_div_mod_eq add.right_neutral)
  have "(unat en - unat st) mod 4096 = ((unat en - unat p) + (unat p - unat st)) mod 4096"
    using ord by simp
  also have "\<dots> = 0" using m by (metis mod_0_imp_dvd dvd_add dvd_imp_mod_0)
  finally have s: "4096 * slot_count st en = unat en - unat st"
    unfolding slot_count_def unat_sub_no_wrap [OF order.trans [OF ord(1) less_imp_le [OF ord(2)]]]
    by (metis mult_div_mod_eq add.right_neutral)
  show "unat p = unat st + 4096 * slot_idx st p"
    and "unat en = unat st + 4096 * slot_count st en"
    and "slot_idx st p < slot_count st en"
    using i s ord by linarith+
qed

lemma slot_ok_iff:
  "slot_ok st en p \<longleftrightarrow> (\<exists>i n. i < n \<and> unat p = unat st + 4096 * i \<and> unat en = unat st + 4096 * n)"
  (is "?l \<longleftrightarrow> ?r")
proof
  assume ?l
  from slot_pos [OF this] show ?r by blast
next
  assume ?r
  then obtain i n where "i < n" and p: "unat p = unat st + 4096 * i" and e: "unat en = unat st + 4096 * n"
    by blast
  moreover have "unat en - unat p = 4096 * (n - i)"
    unfolding p e by (simp add: diff_mult_distrib2)
  ultimately show ?l by (simp add: slot_ok_def)
qed

lemma slot_room: "slot_ok st en p \<Longrightarrow> unat p + 4096 \<le> unat en"
  using slot_pos [of st en p] by linarith

lemma slot_end: "unat p + 4096 \<le> unat (en :: u64) \<Longrightarrow> unat p + 4096 < 2 ^ 64"
  using unsigned_less [of en, where ?'a = nat] by simp

lemma unat_slot_plus: "slot_ok st en p \<Longrightarrow> k < 4096 \<Longrightarrow> unat (p + of_nat k) = unat p + k"
  using slot_end [OF slot_room [of st en p]] by (subst unat_add_no_wrap) (simp_all add: unat_of_nat_small)

lemma slot_next_pos:
  assumes "slot_ok st en p"
  shows "unat (slot_next st en p) =
    unat st + (if Suc (slot_idx st p) = slot_count st en then 0 else 4096 * Suc (slot_idx st p))"
proof -
  note pos = slot_pos [OF assms]
  have u: "unat (p + 4096) = unat p + 4096"
    using slot_end [OF slot_room [OF assms]] by (subst unat_add_no_wrap) simp_all
  have "p + 4096 = en \<longleftrightarrow> unat (p + 4096) = unat en" by (simp only: word_unat_eq_iff)
  also have "\<dots> \<longleftrightarrow> Suc (slot_idx st p) = slot_count st en" using pos u by linarith
  finally show ?thesis using pos(1) u by (simp add: slot_next_def Let_def)
qed

lemma slot_ok_next:
  assumes "slot_ok st en p"
  shows "slot_ok st en (slot_next st en p)"
proof -
  note pos = slot_pos [OF assms]
  have "\<exists>i < slot_count st en. unat (slot_next st en p) = unat st + 4096 * i"
    using pos(3) unfolding slot_next_pos [OF assms]
    by (cases "Suc (slot_idx st p) = slot_count st en") (auto intro: exI [of _ 0] exI [of _ "Suc (slot_idx st p)"])
  then show ?thesis using pos(2) unfolding slot_ok_iff by blast
qed

lemma slot_idx_next:
  assumes "slot_ok st en p"
  shows "slot_idx st (slot_next st en p) = (if Suc (slot_idx st p) = slot_count st en then 0 else Suc (slot_idx st p))"
proof -
  have "unat st + 4096 * slot_idx st (slot_next st en p)
      = unat st + (if Suc (slot_idx st p) = slot_count st en then 0 else 4096 * Suc (slot_idx st p))"
    using slot_next_pos [OF assms] slot_pos(1) [OF slot_ok_next [OF assms]] by simp
  then show ?thesis by (cases "Suc (slot_idx st p) = slot_count st en") simp_all
qed

lemma slot_idx_inj: "slot_ok st en p \<Longrightarrow> slot_ok st en q \<Longrightarrow> slot_idx st p = slot_idx st q \<Longrightarrow> p = q"
  using slot_pos(1) [of st en p] slot_pos(1) [of st en q] by (simp add: word_unat_eq_iff)

lemma slot_ok_start: "slot_ok st en p \<Longrightarrow> slot_ok st en st"
  using slot_pos [of st en p] unfolding slot_ok_iff by (metis add.right_neutral gr_implies_not0 mult_0_right not_gr_zero)

interpretation buf: ring "\<lambda>r. slot_next (fst r) (snd r)" "\<lambda>r. slot_idx (fst r)"
  "\<lambda>r. slot_count (fst r) (snd r)" "\<lambda>r. slot_ok (fst r) (snd r)"
proof unfold_locales
  fix r :: "u64 \<times> u64" and p q
  assume p: "slot_ok (fst r) (snd r) p"
  show "slot_ok (fst r) (snd r) (slot_next (fst r) (snd r) p)" using p by (rule slot_ok_next)
  show "slot_idx (fst r) p < slot_count (fst r) (snd r)" using p by (rule slot_pos)
  show "slot_idx (fst r) (slot_next (fst r) (snd r) p)
      = (if Suc (slot_idx (fst r) p) = slot_count (fst r) (snd r) then 0 else Suc (slot_idx (fst r) p))"
    using p by (rule slot_idx_next)
  show "p = q" if "slot_ok (fst r) (snd r) q" "slot_idx (fst r) p = slot_idx (fst r) q"
    using p that by (rule slot_idx_inj)
qed

section \<open>Slots in memory\<close>

text \<open>Different cursors are at least one slot apart.\<close>

lemma slot_apart:
  assumes "slot_ok st en p" and "slot_ok st en q" and "p \<noteq> q"
  shows "unat p + 4096 \<le> unat q \<or> unat q + 4096 \<le> unat p"
proof -
  have "slot_idx st p \<noteq> slot_idx st q" using assms slot_idx_inj by blast
  then consider "slot_idx st p + 1 \<le> slot_idx st q" | "slot_idx st q + 1 \<le> slot_idx st p" by linarith
  then show ?thesis
    using slot_pos(1) [OF assms(1)] slot_pos(1) [OF assms(2)] by cases linarith+
qed

text \<open>A frame: the metadata word at the start of the slot, the data at offset \<open>k\<close>.\<close>

definition put_frame :: "mem \<Rightarrow> u64 \<Rightarrow> u32 \<Rightarrow> nat \<Rightarrow> u8 list \<Rightarrow> mem" where
  "put_frame m q md k bs = mem_put (mem_put m q (le32 md)) (q + of_nat k) bs"

lemma slot_untouched:
  assumes "slot_ok st en p" and "slot_ok st en q" and "p \<noteq> q"
    and "k < 4096" and "k + length bs \<le> 4096" and "j < 4096" and "j + n \<le> 4096"
  shows "mem_get (mem_put m (q + of_nat k) bs) (p + of_nat j) n = mem_get m (p + of_nat j) n"
proof (rule mem_get_put_disjoint)
  have u: "unat (q + of_nat k) = unat q + k" "unat (p + of_nat j) = unat p + j"
    using assms by (simp_all add: unat_slot_plus)
  show "unat (q + of_nat k) + length bs \<le> 2 ^ 64" "unat (p + of_nat j) + n \<le> 2 ^ 64"
    unfolding u using assms(5,7) slot_end [OF slot_room [OF assms(1)]] slot_end [OF slot_room [OF assms(2)]]
    by linarith+
  show "unat (q + of_nat k) + length bs \<le> unat (p + of_nat j)
      \<or> unat (p + of_nat j) + n \<le> unat (q + of_nat k)"
    using slot_apart [OF assms(1-3)] assms(5,7) unfolding u by linarith
qed

lemma put_frame_other:
  assumes "slot_ok st en p" and "slot_ok st en q" and "p \<noteq> q"
    and "k < 4096" and "k + length bs \<le> 4096" and "j < 4096" and "j + n \<le> 4096"
  shows "mem_get (put_frame m q md k bs) (p + of_nat j) n = mem_get m (p + of_nat j) n"
  using slot_untouched [OF assms] slot_untouched [OF assms(1-3), of 0 "le32 md" j n] assms(6,7)
  by (simp add: put_frame_def)

lemma put_frame_same:
  assumes "slot_ok st en q" and "4 \<le> k" and "k < 4096" and "k + length bs \<le> 4096"
  shows "get32 (put_frame m q md k bs) q = md"
    and "mem_get (put_frame m q md k bs) (q + of_nat k) (length bs) = bs"
proof -
  have "mem_get (put_frame m q md k bs) q 4 = mem_get (mem_put m q (le32 md)) q 4"
    unfolding put_frame_def
    by (rule mem_get_put_disjoint)
      (use assms slot_end [OF slot_room [OF assms(1)]] in \<open>simp_all add: unat_slot_plus\<close>)
  then have "get32 (put_frame m q md k bs) q = get32 (mem_put m q (le32 md)) q" by (rule get32_mem_get)
  then show "get32 (put_frame m q md k bs) q = md" by (simp add: get32_put_le32)
  show "mem_get (put_frame m q md k bs) (q + of_nat k) (length bs) = bs"
    unfolding put_frame_def using assms(4) by (intro mem_get_put_same) simp
qed

lemma put_frame_get32_other:
  assumes "slot_ok st en p" and "slot_ok st en q" and "p \<noteq> q" and "k < 4096" and "k + length bs \<le> 4096"
  shows "get32 (put_frame m q md k bs) p = get32 m p"
  using put_frame_other [OF assms, of 0 4] by (intro get32_mem_get) simp

end
