(* ===== verification/PacketMeta.thy ===== *)
theory PacketMeta
  imports Prelude
begin

text \<open>
  The metadata word in front of every frame in a DMA slot, as the contract between its two
  writers (\<open>net_tx\<close> in \<open>board.c\<close>, \<open>fejkon_rx_pkt\<close> in \<open>fejkon.c\<close>) and its two readers (\<open>poll\<close>,
  \<open>fejkon_tx_thread\<close>): bits 0 to 3 give the offset of the data, bits 4 to 13 the length in
  units of four bytes, bits 14 and 15 the port.
\<close>

definition md_word :: "u32 \<Rightarrow> u32 \<Rightarrow> u32 \<Rightarrow> u32" where
  "md_word port quads off = push_bit 14 (port AND 0x3) OR push_bit 4 (quads AND 0x3ff) OR (off AND 0xf)"

definition md_port :: "u32 \<Rightarrow> u32" where "md_port md = drop_bit 14 md AND 0x3"
definition md_quads :: "u32 \<Rightarrow> u32" where "md_quads md = drop_bit 4 md AND 0x3ff"
definition md_off :: "u32 \<Rightarrow> u32" where "md_off md = md AND 0xf"

lemma md_masks: "(0x3 :: 'a::len word) = mask 2" "(0x3ff :: 'a word) = mask 10" "(0xf :: 'a word) = mask 4"
  by (simp_all add: mask_eq_exp_minus_1)

lemma md_fields [simp]:
  "md_port (md_word port quads off) = port AND 0x3"
  "md_quads (md_word port quads off) = quads AND 0x3ff"
  "md_off (md_word port quads off) = off AND 0xf"
  unfolding md_port_def md_quads_def md_off_def md_word_def md_masks
  by (rule bit_word_eqI, auto simp: bit_simps)+

lemma md_quads_le: "unat (md_quads md) \<le> 1023"
  using unat_and_mask [of "drop_bit 4 md" 10] unfolding md_quads_def md_masks
  by (simp add: less_Suc_eq_le [symmetric] del: unat_and_mask)

lemma md_port_le: "unat (md_port md) < 4"
  using unat_and_mask [of "drop_bit 14 md" 2] unfolding md_port_def md_masks by simp

lemma md_off_le: "unat (md_off md) < 16"
  using unat_and_mask [of md 4] unfolding md_off_def md_masks by simp

lemma and_small:
  assumes "unat (w :: 'a::len word) < 2 ^ n"
  shows "w AND mask n = w"
  by (rule word_unat_eq_iff [THEN iffD2]) (use assms in \<open>simp add: unat_and_mask\<close>)

lemma md_fields_small:
  assumes "unat port < 4" and "unat quads < 1024" and "unat off < 16"
  shows "md_port (md_word port quads off) = port" "md_quads (md_word port quads off) = quads"
    "md_off (md_word port quads off) = off"
  using assms by (simp_all add: md_masks and_small)

text \<open>The length in bytes, a multiple of four below 4096.\<close>

lemma unat_quads_4: "unat (md_quads md * 4) = unat (md_quads md) * 4"
  using md_quads_le [of md] by (subst unat_word_ariths) simp

lemma unat_div_4 [simp]: "unat ((w :: u32) div 4) = unat w div 4"
  by (simp add: unat_div_distrib)

end
