(* ===== verification/DrvNet.thy ===== *)
theory DrvNet
  imports Registers Slots PacketMeta
begin

text \<open>
  The packet path of the driver, \<open>src/driver/src/board.c\<close>: \<open>struct fejkon_card\<close> and
  \<open>struct fejkon_port\<close> of \<open>fejkon.h\<close>, transmission (\<open>net_tx\<close>), reception (\<open>poll\<close>) and the
  packet interrupts. Registers are reached through an arbitrary device (\<open>'d mmio\<close>), addressed
  by their offset in BAR 0; the buffers that \<open>dma_alloc_coherent\<close> returned lie in host memory
  at the addresses in the card structure.
\<close>

section \<open>State\<close>

text \<open>The part of the kernel's \<open>struct net_device\<close> that the driver changes or consults:
  carrier and dormant state, \<open>netif_oper_up\<close>, and the counters (\<open>unsigned long\<close>).\<close>

record net_device =
  carrier :: bool
  dormant :: bool
  oper_up :: bool
  rx_packets :: u64
  rx_bytes :: u64
  rx_dropped :: u64
  tx_packets :: u64
  tx_bytes :: u64
  tx_dropped :: u64

text \<open>The link-layer parameters of the interface, which \<open>init_netdev\<close> sets. The operation tables are
  named by the variables they point to; \<open>ARPHRD_FCFABRIC\<close> and \<open>IFF_NOARP\<close> are the kernel's 787 and
  1 << 7.\<close>

datatype ops_table = net_header_ops | net_netdev_ops | net_ethtool_ops

record netdev_params =
  header_ops :: "ops_table option"
  netdev_ops :: "ops_table option"
  ethtool_ops :: "ops_table option"
  addr_len :: u8
  net_type :: u16
  mtu :: u32
  min_mtu :: u32
  max_mtu :: u32
  net_flags :: u32
  broadcast :: "u8 list"

definition init_netdev :: "netdev_params \<Rightarrow> netdev_params" where
  "init_netdev n = n\<lparr>header_ops := Some net_header_ops, netdev_ops := Some net_netdev_ops,
     ethtool_ops := Some net_ethtool_ops, addr_len := 3, net_type := 787, mtu := 2148, min_mtu := 2148,
     net_flags := push_bit 7 1, broadcast := replicate 3 0xff @ drop 3 (broadcast n)\<rparr>"

text \<open>A port; its refresh timer expires at the given time when it is pending.\<close>

record fejkon_port =
  port_id :: u32
  net :: net_device
  refresh_timer :: "u64 option"

record fejkon_card =
  port :: "fejkon_port option list"
  rx_buf_start :: u64
  rx_buf_start_dma :: u64
  rx_buf_read :: u64
  rx_buf_end :: u64
  tx_buf_start :: u64
  tx_buf_start_dma :: u64
  tx_buf_write :: u64
  tx_buf_read_cached :: u64
  tx_buf_end :: u64

text \<open>The driver with its device, the host's memory, whether the NAPI instance is scheduled, and
  the packets handed to the network stack.\<close>

record 'd drv =
  the_card :: fejkon_card
  dev :: 'd
  ram :: mem
  napi_scheduled :: bool
  delivered :: "(u32 \<times> u8 list) list"

text \<open>\<open>ioread32\<close> and \<open>iowrite32\<close> on BAR 0.\<close>

definition ioread32 :: "'d mmio \<Rightarrow> u32 \<Rightarrow> 'd drv \<Rightarrow> u32 \<times> 'd drv" where
  "ioread32 b a s = (let (v, d) = ioread b (dev s) a in (v, s\<lparr>dev := d\<rparr>))"

definition iowrite32 :: "'d mmio \<Rightarrow> u32 \<Rightarrow> u32 \<Rightarrow> 'd drv \<Rightarrow> 'd drv" where
  "iowrite32 b v a s = s\<lparr>dev := iowrite b (dev s) a v\<rparr>"

lemma io_fields [simp]:
  "the_card (snd (ioread32 b a s)) = the_card s" "ram (snd (ioread32 b a s)) = ram s"
  "napi_scheduled (snd (ioread32 b a s)) = napi_scheduled s"
  "delivered (snd (ioread32 b a s)) = delivered s"
  "the_card (iowrite32 b v a s) = the_card s" "ram (iowrite32 b v a s) = ram s"
  "napi_scheduled (iowrite32 b v a s) = napi_scheduled s"
  "delivered (iowrite32 b v a s) = delivered s"
  by (simp_all add: ioread32_def iowrite32_def split_beta Let_def)

text \<open>The difference of a register and a bus address, as the \<open>int\<close> that the code keeps, added to
  a pointer.\<close>

definition ptr_from_reg :: "u64 \<Rightarrow> u64 \<Rightarrow> u32 \<Rightarrow> u64" where
  "ptr_from_reg st st_dma v = st + scast (ucast (ucast v - st_dma) :: u32)"

text \<open>The bus address of a pointer into a buffer, as the 32-bit register value.\<close>

definition reg_from_ptr :: "u64 \<Rightarrow> u64 \<Rightarrow> u64 \<Rightarrow> u32" where
  "reg_from_ptr st st_dma p = ucast (st_dma + (p - st))"

text \<open>Access to a buffer between two addresses; outside it, a fault.\<close>

definition buf_bounds :: "u64 \<Rightarrow> u64 \<Rightarrow> u64 \<Rightarrow> nat \<Rightarrow> bool" where
  "buf_bounds st en a n \<longleftrightarrow> unat st \<le> unat a \<and> unat a + n \<le> unat en"

section \<open>Transmission\<close>

text \<open>A packet from the stack: its linear data, whether it needs segmentation, and the number of
  its page fragments.\<close>

record sk_buff =
  skb_data :: "u8 list"
  skb_len :: u32
  skb_gso :: bool
  nr_frags :: u8

text \<open>The test for a full ring: whether to drop, and the refreshed read pointer.\<close>

definition tx_full :: "'d mmio \<Rightarrow> 'd drv \<Rightarrow> bool \<times> 'd drv" where
  "tx_full b s =
    (if tx_buf_write (the_card s) + 4096 = tx_buf_read_cached (the_card s) then
      (let (v, s) = ioread32 b 0x8C8 s;
           c = the_card s;
           tx_buf_read = ptr_from_reg (tx_buf_start c) (tx_buf_start_dma c) v
       in if tx_buf_read = tx_buf_read_cached c then (True, s)
          else (False, s\<lparr>the_card := c\<lparr>tx_buf_read_cached := tx_buf_read\<rparr>\<rparr>))
     else (False, s))"

definition tx_ctrl1 :: "u32 \<Rightarrow> u32 \<Rightarrow> u32 \<Rightarrow> u32" where
  "tx_ctrl1 pid len off = push_bit 14 (pid AND 3) OR push_bit 4 ((len div 4) AND 0x3ff) OR off"

text \<open>\<open>xmit_more\<close> is the value of \<open>netdev_xmit_more()\<close>.\<close>

definition net_tx :: "'d mmio \<Rightarrow> bool \<Rightarrow> sk_buff \<Rightarrow> fejkon_port \<Rightarrow> 'd drv \<Rightarrow> fault + fejkon_port \<times> 'd drv" where
  "net_tx b xmit_more skb p s =
    (if skb_gso skb then Inl Bug
     else if nr_frags skb \<noteq> 0 then Inl Bug
     else
      (let (full, s) = tx_full b s in
       if full then Inr (p\<lparr>net := (net p)\<lparr>tx_dropped := tx_dropped (net p) + 1\<rparr>\<rparr>, s)
       else
        (let offset = 4;
             c = the_card s;
             dat = tx_buf_write c + ucast (offset * 4);
             m = mem_put (ram s) (tx_buf_write c) (le32 (tx_ctrl1 (port_id p) (skb_len skb) offset));
             n = unat (skb_len skb)
         in if \<not> buf_bounds (tx_buf_start c) (tx_buf_end c) (tx_buf_write c) 4 then Inl OutOfBounds
            else if length (skb_data skb) < n \<or> \<not> buf_bounds (tx_buf_start c) (tx_buf_end c) dat n
            then Inl OutOfBounds
            else
             (let m = mem_put m dat (take n (skb_data skb));
                  p = p\<lparr>net := (net p)\<lparr>tx_packets := tx_packets (net p) + 1,
                                        tx_bytes := tx_bytes (net p) + ucast (skb_len skb)\<rparr>\<rparr>;
                  c = c\<lparr>tx_buf_write := slot_next (tx_buf_start c) (tx_buf_end c) (tx_buf_write c)\<rparr>;
                  s = s\<lparr>ram := m, the_card := c\<rparr>
              in Inr (p, if xmit_more then s
                    else iowrite32 b (reg_from_ptr (tx_buf_start c) (tx_buf_start_dma c) (tx_buf_write c)) 0x8CC s)))))"

section \<open>Reception\<close>

text \<open>What \<open>poll\<close> finds in a slot: the port, the length and the position of the data.\<close>

definition rx_port_id :: "u32 \<Rightarrow> nat" where "rx_port_id ctrl1 = unat (drop_bit 14 ctrl1 AND 3)"
definition rx_len :: "u32 \<Rightarrow> u16" where "rx_len ctrl1 = ucast ((drop_bit 4 ctrl1 AND 0x3ff) * 4)"
definition rx_offset :: "u32 \<Rightarrow> u64" where "rx_offset ctrl1 = ucast ((ctrl1 AND 0xf) * 4)"

definition count_drop :: "net_device \<Rightarrow> net_device" where
  "count_drop n = n\<lparr>rx_dropped := rx_dropped n + 1\<rparr>"

definition count_rx :: "u16 \<Rightarrow> net_device \<Rightarrow> net_device" where
  "count_rx len n = n\<lparr>rx_bytes := rx_bytes n + ucast len, rx_packets := rx_packets n + 1\<rparr>"

text \<open>
  One frame, up to the increment of \<open>work_done\<close>: \<open>AllocFailed\<close> when the packet buffer could not be
  allocated, which leaves the function. \<open>alloc\<close> says whether \<open>netdev_alloc_skb\<close> succeeds.
\<close>

datatype rx_result = Handled | AllocFailed

definition set_net :: "nat \<Rightarrow> fejkon_port \<Rightarrow> net_device \<Rightarrow> 'd drv \<Rightarrow> 'd drv" where
  "set_net i p n s = s\<lparr>the_card := (the_card s)\<lparr>port := (port (the_card s))[i := Some (p\<lparr>net := n\<rparr>)]\<rparr>\<rparr>"

definition rx_frame :: "bool \<Rightarrow> 'd drv \<Rightarrow> fault + rx_result \<times> 'd drv" where
  "rx_frame alloc s =
    (let c = the_card s;
         ctrl1 = get32 (ram s) (rx_buf_read c);
         i = rx_port_id ctrl1;
         len = rx_len ctrl1
     in if \<not> buf_bounds (rx_buf_start c) (rx_buf_end c) (rx_buf_read c) 4 then Inl OutOfBounds
        else case port c ! i of
          None \<Rightarrow> Inl NullDeref
        | Some p \<Rightarrow>
           (if \<not> oper_up (net p) then Inr (Handled, set_net i p (count_drop (net p)) s)
            else if len < 36 then Inr (Handled, set_net i p (count_drop (net p)) s)
            else if \<not> alloc then Inr (AllocFailed, set_net i p (count_drop (net p)) s)
            else
             (let dat = rx_buf_read c + rx_offset ctrl1 in
              if \<not> buf_bounds (rx_buf_start c) (rx_buf_end c) dat (unat len) then Inl OutOfBounds
              else
               (let s = set_net i p (count_rx len (net p)) s
                in Inr (Handled, s\<lparr>delivered := delivered s @ [(port_id p, mem_get (ram s) dat (unat len))]\<rparr>)))))"

definition rx_advance :: "'d drv \<Rightarrow> 'd drv" where
  "rx_advance s = (let c = the_card s in
     s\<lparr>the_card := c\<lparr>rx_buf_read := slot_next (rx_buf_start c) (rx_buf_end c) (rx_buf_read c)\<rparr>\<rparr>)"

text \<open>
  The loop of \<open>poll\<close>: \<open>wr\<close> is the write pointer, the natural number what is left of the budget.
  The result is what was done and whether the loop was left by the failed allocation. \<open>alloc k\<close> is
  the outcome of the allocation in iteration \<open>k\<close>.
\<close>

fun poll_loop :: "(int \<Rightarrow> bool) \<Rightarrow> u64 \<Rightarrow> nat \<Rightarrow> int \<Rightarrow> 'd drv \<Rightarrow> fault + rx_result \<times> int \<times> 'd drv" where
  "poll_loop alloc wr 0 work_done s = Inr (Handled, work_done, s)"
| "poll_loop alloc wr (Suc left) work_done s =
    (if wr = rx_buf_read (the_card s) then Inr (Handled, work_done, s)
     else case rx_frame (alloc work_done) s of
            Inl e \<Rightarrow> Inl e
          | Inr (AllocFailed, s) \<Rightarrow> Inr (AllocFailed, work_done, s)
          | Inr (Handled, s) \<Rightarrow> poll_loop alloc wr left (work_done + 1) (rx_advance s))"

definition poll :: "'d mmio \<Rightarrow> (int \<Rightarrow> bool) \<Rightarrow> int \<Rightarrow> 'd drv \<Rightarrow> fault + int \<times> 'd drv" where
  "poll b alloc budget s =
    (let (v, s) = ioread32 b 0x8AC s;
         wr = ptr_from_reg (rx_buf_start (the_card s)) (rx_buf_start_dma (the_card s)) v
     in case poll_loop alloc wr (nat budget) 0 s of
          Inl e \<Rightarrow> Inl e
        | Inr (AllocFailed, work_done, s) \<Rightarrow> Inr (work_done, s)
        | Inr (Handled, work_done, s) \<Rightarrow>
           (let c = the_card s;
                s = iowrite32 b (reg_from_ptr (rx_buf_start c) (rx_buf_start_dma c) (rx_buf_read c)) 0x8A8 s
            in Inr (work_done, if work_done < budget then s\<lparr>napi_scheduled := False\<rparr> else s)))"

text \<open>The interrupt handlers of the card: \<open>card_irq\<close> and \<open>rx_dropped_irq\<close> only log.\<close>

definition card_irq :: "'d drv \<Rightarrow> 'd drv" where "card_irq s = s"
definition rx_irq :: "'d drv \<Rightarrow> 'd drv" where "rx_irq s = s\<lparr>napi_scheduled := True\<rparr>"
definition rx_dropped_irq :: "'d drv \<Rightarrow> 'd drv" where "rx_dropped_irq s = s"

end
