(* ===== verification/DrvExamples.thy ===== *)
theory DrvExamples
  imports DrvNet
begin

text \<open>
  Small instances of the driver's structures, on which the properties of the packet path and of the
  ports are evaluated.
\<close>

text \<open>A driver on a register file, with rings of four slots and a packet of \<open>n\<close> bytes.\<close>

definition demo_drv :: "u64 \<Rightarrow> u64 \<Rightarrow> (u32 \<Rightarrow> u32) drv" where
  "demo_drv wr cached = \<lparr>the_card = \<lparr>port = [None, None, None, None],
       rx_buf_start = 0xffff888000100000, rx_buf_start_dma = 0x100000, rx_buf_read = 0xffff888000100000,
       rx_buf_end = 0xffff888000104000,
       tx_buf_start = 0xffff888000200000, tx_buf_start_dma = 0x200000, tx_buf_write = 0xffff888000200000 + wr,
       tx_buf_read_cached = 0xffff888000200000 + cached, tx_buf_end = 0xffff888000204000\<rparr>,
     dev = (\<lambda>_. 0)(0x8C8 := 0x200000 + ucast cached), ram = (\<lambda>_. 0), napi_scheduled = False, delivered = []\<rparr>"

definition demo_skb :: "nat \<Rightarrow> sk_buff" where
  "demo_skb n = \<lparr>skb_data = replicate n 0x42, skb_len = of_nat n, skb_gso = False, nr_frags = 0\<rparr>"

definition demo_net :: net_device where
  "demo_net = \<lparr>carrier = True, dormant = False, oper_up = True, rx_packets = 0, rx_bytes = 0, rx_dropped = 0,
     tx_packets = 0, tx_bytes = 0, tx_dropped = 0\<rparr>"

definition demo_port :: "u32 \<Rightarrow> fejkon_port" where
  "demo_port i = \<lparr>port_id = i, net = demo_net, refresh_timer = None\<rparr>"

lemma demo_drv_fields [simp]:
  "tx_buf_start (the_card (demo_drv w c)) = 0xffff888000200000"
  "tx_buf_start_dma (the_card (demo_drv w c)) = 0x200000"
  "tx_buf_end (the_card (demo_drv w c)) = 0xffff888000204000"
  "tx_buf_write (the_card (demo_drv w c)) = 0xffff888000200000 + w"
  "tx_buf_read_cached (the_card (demo_drv w c)) = 0xffff888000200000 + c"
  "dev (demo_drv w c) 0x8C8 = 0x200000 + ucast c"
  by (simp_all add: demo_drv_def)

text \<open>Registers that read as given.\<close>

definition demo_regs :: "(u32 \<Rightarrow> u32) \<Rightarrow> (u32 \<Rightarrow> u32) drv" where
  "demo_regs f = (demo_drv 0 0)\<lparr>dev := f\<rparr>"

lemma demo_regs_read [simp]: "ioread32 regfile a (demo_regs f) = (f a, demo_regs f)"
  by (simp add: ioread32_def demo_regs_def)

end
