(* ===== verification/DrvPort.thy ===== *)
theory DrvPort
  imports DrvExamples
begin

text \<open>
  The port and card management of \<open>src/driver/src/board.c\<close> outside the packet path: the link state
  poller, opening and stopping an interface, the ethtool and hwmon interfaces and the sysfs file,
  with their properties.
\<close>

section \<open>Link state\<close>

definition mod_timer :: "u64 \<Rightarrow> fejkon_port \<Rightarrow> bool \<times> fejkon_port" where
  "mod_timer t p = (refresh_timer p \<noteq> None, p\<lparr>refresh_timer := Some t\<rparr>)"

definition netif_carrier_off :: "fejkon_port \<Rightarrow> fejkon_port" where
  "netif_carrier_off p = p\<lparr>net := (net p)\<lparr>carrier := False\<rparr>\<rparr>"
definition netif_carrier_on :: "fejkon_port \<Rightarrow> fejkon_port" where
  "netif_carrier_on p = p\<lparr>net := (net p)\<lparr>carrier := True\<rparr>\<rparr>"
definition netif_dormant_off :: "fejkon_port \<Rightarrow> fejkon_port" where
  "netif_dormant_off p = p\<lparr>net := (net p)\<lparr>dormant := False\<rparr>\<rparr>"
definition netif_dormant_on :: "fejkon_port \<Rightarrow> fejkon_port" where
  "netif_dormant_on p = p\<lparr>net := (net p)\<lparr>dormant := True\<rparr>\<rparr>"

text \<open>\<open>jiffies\<close> is the current time, \<open>interval\<close> the value of \<open>msecs_to_jiffies(100)\<close>. The timer has
  fired, so that it is not pending when the callback runs. The first component says that
  rescheduling found it pending, which is logged as an error.\<close>

definition port_refresh_status ::
    "'d mmio \<Rightarrow> u64 \<Rightarrow> u64 \<Rightarrow> fejkon_port \<Rightarrow> 'd drv \<Rightarrow> bool \<times> fejkon_port \<times> 'd drv" where
  "port_refresh_status b jiffies interval p s =
    (let (status, s) = ioread32 b (BAR0_SFP_STATUS_OFFSET (port_id p)) s;
         (state, s) = ioread32 b (BAR0_FC_STATE_OFFSET (port_id p)) s;
         p = (if status AND SFP_PRESENT = 0 \<or> status AND SFP_LOS \<noteq> 0 \<or> status AND SFP_TX_FAIL \<noteq> 0
              then netif_dormant_off (netif_carrier_off p)
              else if state = 0 then netif_dormant_off (netif_carrier_on p)
              else netif_dormant_on (netif_carrier_on p));
         (err, p) = mod_timer (jiffies + interval) p
     in (err, p, s))"

definition net_open :: "'d mmio \<Rightarrow> u64 \<Rightarrow> fejkon_port \<Rightarrow> 'd drv \<Rightarrow> int \<times> fejkon_port \<times> 'd drv" where
  "net_open b jiffies p s =
    (let s = iowrite32 b 0 (BAR0_SFP_STATUS_OFFSET (port_id p)) s;
         (pend, p) = mod_timer (jiffies + 1) p
     in (0, p, s))"

definition net_stop :: "'d mmio \<Rightarrow> fejkon_port \<Rightarrow> 'd drv \<Rightarrow> int \<times> 'd drv" where
  "net_stop b p s = (0, iowrite32 b (push_bit 3 1) (BAR0_SFP_STATUS_OFFSET (port_id p)) s)"

lemma sfp_bits:
  "status AND SFP_PRESENT = 0 \<longleftrightarrow> \<not> bit status 0"
  "status AND SFP_LOS = 0 \<longleftrightarrow> \<not> bit status 1"
  "status AND SFP_TX_FAIL = 0 \<longleftrightarrow> \<not> bit status 2"
  unfolding SFP_PRESENT_def SFP_LOS_def SFP_TX_FAIL_def bit_iff_and_push_bit_not_eq_0 by simp_all

text \<open>
  On any device, the poller reports a carrier exactly when the module is present (bit 0) with
  neither loss of signal (bit 1) nor transmit fault (bit 2), and a dormant link exactly when there
  is a carrier but the framer's state is not 0 (active). It reschedules itself, and counters and
  the packet path are untouched.
\<close>

lemma link_state:
  assumes "port_refresh_status b jiffies interval p s = (err, p', s')"
  defines "status \<equiv> fst (ioread32 b (BAR0_SFP_STATUS_OFFSET (port_id p)) s)"
    and "state \<equiv> fst (ioread32 b (BAR0_FC_STATE_OFFSET (port_id p))
      (snd (ioread32 b (BAR0_SFP_STATUS_OFFSET (port_id p)) s)))"
  shows "carrier (net p') = (bit status 0 \<and> \<not> bit status 1 \<and> \<not> bit status 2)
    \<and> dormant (net p') = (carrier (net p') \<and> state \<noteq> 0)
    \<and> refresh_timer p' = Some (jiffies + interval) \<and> err = (refresh_timer p \<noteq> None)
    \<and> net p' = (net p)\<lparr>carrier := carrier (net p'), dormant := dormant (net p')\<rparr>
    \<and> the_card s' = the_card s \<and> ram s' = ram s"
  using assms(1)
  by (auto simp: port_refresh_status_def mod_timer_def netif_carrier_off_def netif_carrier_on_def
      netif_dormant_off_def netif_dormant_on_def sfp_bits split_beta Let_def status_def state_def split: if_splits)

section \<open>ethtool\<close>

text \<open>\<open>snprintf("git:%08x")\<close>: the eight hexadecimal digits, most significant first.\<close>

definition hex_digit :: "nat \<Rightarrow> char" where
  "hex_digit n = ''0123456789abcdef'' ! n"

definition hex08 :: "u32 \<Rightarrow> string" where
  "hex08 w = map (\<lambda>i. hex_digit (unat (drop_bit (4 * i) w AND 0xf))) [7, 6, 5, 4, 3, 2, 1, 0]"

record ethtool_drvinfo =
  driver_name :: string
  fw_version :: string
  bus_info :: string

text \<open>\<open>strlcpy\<close> into a field of \<open>n\<close> bytes, and \<open>snprintf\<close>, which truncates in the same way.\<close>

definition strlcpy :: "nat \<Rightarrow> string \<Rightarrow> string" where
  "strlcpy n str = take (n - 1) str"

text \<open>The sizes of the three fields, the module's name and the name of the port's device are given
  by the kernel.\<close>

definition ethtool_get_drvinfo ::
    "'d mmio \<Rightarrow> nat \<times> nat \<times> nat \<Rightarrow> string \<Rightarrow> string \<Rightarrow> 'd drv \<Rightarrow> ethtool_drvinfo \<times> 'd drv" where
  "ethtool_get_drvinfo b sizes modname devname s =
    (let (n_driver, n_fw, n_bus) = sizes;
         (githash, s) = ioread32 b 0x4 s
     in (\<lparr>driver_name = strlcpy n_driver modname,
          fw_version = strlcpy n_fw (''git:'' @ hex08 githash),
          bus_info = strlcpy n_bus devname\<rparr>, s))"

definition ethtool_get_link :: "fejkon_port \<Rightarrow> u32" where
  "ethtool_get_link p = of_bool (carrier (net p))"

section \<open>Sensors\<close>

text \<open>The sensor types that the driver distinguishes, and the kernel's numbers of the two
  attributes.\<close>

datatype hwmon_sensor_types = hwmon_chip | hwmon_temp | hwmon_other

record hwmon_attrs =
  hwmon_chip_update_interval :: u32
  hwmon_temp_input :: u32

text \<open>The return value and \<open>*val\<close> (a \<open>long\<close>), which stays unset on errors. The temperature is
  computed in \<open>unsigned int\<close>.\<close>

definition fejkon_hwmon_read ::
    "hwmon_attrs \<Rightarrow> 'd mmio \<Rightarrow> hwmon_sensor_types \<Rightarrow> u32 \<Rightarrow> 'd drv \<Rightarrow> int \<times> u64 option \<times> 'd drv" where
  "fejkon_hwmon_read h b sensor attr s =
    (case sensor of
       hwmon_chip \<Rightarrow>
         (if attr = hwmon_chip_update_interval h then (0, Some 1, s) else (- EINVAL, None, s))
     | hwmon_temp \<Rightarrow>
         (if attr = hwmon_temp_input h then
            (let (reg, s) = ioread32 b 0x10 s in
             if reg AND push_bit 8 1 = 0 then (- ERANGE, None, s)
             else (let (v, s) = ioread32 b 0x10 s in (0, Some (ucast (((v AND 0xff) - 128) * 1000)), s)))
          else (- EINVAL, None, s))
     | hwmon_other \<Rightarrow> (- EINVAL, None, s))"

definition fejkon_hwmon_is_visible :: "hwmon_attrs \<Rightarrow> hwmon_sensor_types \<Rightarrow> u32 \<Rightarrow> u16" where
  "fejkon_hwmon_is_visible h sensor attr =
    (case sensor of
       hwmon_chip \<Rightarrow> (if attr = hwmon_chip_update_interval h then 0x124 else 0)
     | hwmon_temp \<Rightarrow> (if attr = hwmon_temp_input h then 0x124 else 0)
     | hwmon_other \<Rightarrow> 0)"

text \<open>
  The hwmon interface is consistent: an attribute is visible (mode 0444) exactly when reading it
  is supported, that is, never answers \<open>-EINVAL\<close>, on any device.
\<close>

lemma hwmon_visible_iff_readable:
  "(fejkon_hwmon_is_visible h sensor attr = 0x124 \<longleftrightarrow> fst (fejkon_hwmon_read h b sensor attr s) \<noteq> - EINVAL)
   \<and> fejkon_hwmon_is_visible h sensor attr \<in> {0, 0x124}"
  by (cases sensor) (simp_all add: fejkon_hwmon_is_visible_def fejkon_hwmon_read_def errno_defs split_beta Let_def)

text \<open>
  C37. The temperature in millidegrees: with the valid bit set, a raw value of at least 128 gives
  (raw - 128) * 1000; a raw value below 128, a temperature below 0 degrees, wraps around in
  \<open>unsigned int\<close> and is reported as more than 4294839 degrees.
\<close>

theorem hwmon_temperature:
  assumes "fst (ioread32 b 0x10 s) AND 0x100 \<noteq> 0"
  defines "raw \<equiv> unat (fst (ioread32 b 0x10 (snd (ioread32 b 0x10 s))) AND 0xff)"
  shows "\<exists>v. fst (snd (fejkon_hwmon_read h b hwmon_temp (hwmon_temp_input h) s)) = Some v
    \<and> (if 128 \<le> raw then unat v = (raw - 128) * 1000
       else unat v = 2 ^ 32 - (128 - raw) * 1000 \<and> 4294839000 < unat v)"
proof -
  define w where "w = fst (ioread32 b 0x10 (snd (ioread32 b 0x10 s))) AND 0xff"
  have raw: "raw = unat w" by (simp add: raw_def w_def)
  have "unat w < 256"
    using unat_and_mask [of "fst (ioread32 b 0x10 (snd (ioread32 b 0x10 s)))" 8]
    by (simp add: w_def mask_eq_exp_minus_1)
  then have v: "unat ((w - 128) * 1000) = (if 128 \<le> unat w then (unat w - 128) * 1000 else 2 ^ 32 - (128 - unat w) * 1000)"
    by (auto simp: unat_word_ariths unat_sub_if_size word_size) 
  have "fst (snd (fejkon_hwmon_read h b hwmon_temp (hwmon_temp_input h) s)) = Some (ucast ((w - 128) * 1000))"
    using assms(1) by (simp add: fejkon_hwmon_read_def split_beta Let_def w_def)
  then show ?thesis unfolding raw using v \<open>unat w < 256\<close> by auto
qed

section \<open>The PHY frequency\<close>

text \<open>\<open>sprintf("%u")\<close>.\<close>

fun dec :: "nat \<Rightarrow> string" where
  "dec n = (if n < 10 then [char_of (n + 48)] else dec (n div 10) @ [char_of (n mod 10 + 48)])"

declare dec.simps [simp del]

definition phy_freq_show :: "'d mmio \<Rightarrow> 'd drv \<Rightarrow> string \<times> 'd drv" where
  "phy_freq_show b s = (let (v, s) = ioread32 b 0x20 s in (dec (unat v) @ [CHR 0x0A], s))"

section \<open>Concrete instances\<close>

theorem hwmon_temperature_witness:
  "\<exists>v. fst (snd (fejkon_hwmon_read \<lparr>hwmon_chip_update_interval = 4, hwmon_temp_input = 1\<rparr> regfile hwmon_temp 1
      (demo_regs (\<lambda>_. 0x17f)))) = Some v \<and> 4294839000 < unat v"
  using hwmon_temperature [of regfile "demo_regs (\<lambda>_. 0x17f)" "\<lparr>hwmon_chip_update_interval = 4, hwmon_temp_input = 1\<rparr>"] by auto

end
