(* ===== verification/DrvI2c.thy ===== *)
theory DrvI2c
  imports Registers
begin

text \<open>
  The I2C master driver of one SFP port, \<open>src/driver/src/i2c.c\<close>: register access, the FIFO
  service routines, both halves of the interrupt handler and the transfer of a message list.
  The device behind the registers is a parameter (\<open>'d mmio\<close>), so that the lemmas hold for any
  hardware. What the kernel does for the driver is in the record \<open>i2c_env\<close>.
\<close>

section \<open>State\<close>

text \<open>
  \<open>struct i2c_msg\<close> of the kernel: the direction bit of its flags is \<open>m_rd\<close>. The buffer
  pointer \<open>idev->buf\<close> always points into the buffer of the current message: it is the index
  \<open>bufp\<close>. An access outside that buffer is a fault.
\<close>

record i2c_msg =
  m_addr :: u16
  m_rd :: bool
  m_len :: u16
  m_buf :: "u8 list"

record i2c_dev =
  base :: u32
  irq :: nat
  msg :: "i2c_msg option"
  msg_len :: u64
  msg_err :: int
  msg_complete :: bool
  bus_clk_rate :: u32
  bufp :: nat
  fifo_size :: u32
  isr_mask :: u32
  isr_status :: u32

record 'd i2c_sys =
  idev :: i2c_dev
  hw :: 'd

datatype irqreturn = IRQ_HANDLED | IRQ_WAKE_THREAD

text \<open>
  The kernel's side: the register accessors, \<open>readl_poll_timeout_atomic\<close> on the status
  register (\<open>True\<close>: timed out), \<open>i2c_8bit_addr_from_msg\<close>, and
  \<open>wait_for_completion_timeout\<close>, during which the interrupt handlers run and which returns
  the time left (0: timed out).
\<close>

record 'd i2c_env =
  bus :: "'d mmio"
  poll_idle :: "'d i2c_sys \<Rightarrow> bool \<times> 'd i2c_sys"
  addr8 :: "i2c_msg \<Rightarrow> u8"
  wait_completion :: "'d i2c_sys \<Rightarrow> fault + u64 \<times> 'd i2c_sys"

section \<open>Register numbers and bits\<close>

definition ALTR_I2C_TFR_CMD :: u32 where [regs]: "ALTR_I2C_TFR_CMD = 0x00"
definition ALTR_I2C_TFR_CMD_STA :: u32 where [regs]: "ALTR_I2C_TFR_CMD_STA = push_bit 9 1"
definition ALTR_I2C_TFR_CMD_STO :: u32 where [regs]: "ALTR_I2C_TFR_CMD_STO = push_bit 8 1"
definition ALTR_I2C_RX_DATA :: u32 where [regs]: "ALTR_I2C_RX_DATA = 0x04"
definition ALTR_I2C_CTRL :: u32 where [regs]: "ALTR_I2C_CTRL = 0x08"
definition ALTR_I2C_CTRL_BSPEED :: u32 where [regs]: "ALTR_I2C_CTRL_BSPEED = push_bit 1 1"
definition ALTR_I2C_CTRL_EN :: u32 where [regs]: "ALTR_I2C_CTRL_EN = push_bit 0 1"
definition ALTR_I2C_ISER :: u32 where [regs]: "ALTR_I2C_ISER = 0x0C"
definition ALTR_I2C_ISR :: u32 where [regs]: "ALTR_I2C_ISR = 0x10"
definition ALTR_I2C_ISR_RXOF :: u32 where [regs]: "ALTR_I2C_ISR_RXOF = push_bit 4 1"
definition ALTR_I2C_ISR_ARB :: u32 where [regs]: "ALTR_I2C_ISR_ARB = push_bit 3 1"
definition ALTR_I2C_ISR_NACK :: u32 where [regs]: "ALTR_I2C_ISR_NACK = push_bit 2 1"
definition ALTR_I2C_ISR_RXRDY :: u32 where [regs]: "ALTR_I2C_ISR_RXRDY = push_bit 1 1"
definition ALTR_I2C_ISR_TXRDY :: u32 where [regs]: "ALTR_I2C_ISR_TXRDY = push_bit 0 1"
definition ALTR_I2C_STATUS :: u32 where [regs]: "ALTR_I2C_STATUS = 0x14"
definition ALTR_I2C_STAT_CORE :: u32 where [regs]: "ALTR_I2C_STAT_CORE = push_bit 0 1"
definition ALTR_I2C_TC_FIFO_LVL :: u32 where [regs]: "ALTR_I2C_TC_FIFO_LVL = 0x18"
definition ALTR_I2C_RX_FIFO_LVL :: u32 where [regs]: "ALTR_I2C_RX_FIFO_LVL = 0x1C"
definition ALTR_I2C_SCL_LOW :: u32 where [regs]: "ALTR_I2C_SCL_LOW = 0x20"
definition ALTR_I2C_SCL_HIGH :: u32 where [regs]: "ALTR_I2C_SCL_HIGH = 0x24"
definition ALTR_I2C_SDA_HOLD :: u32 where [regs]: "ALTR_I2C_SDA_HOLD = 0x28"

definition ALTR_I2C_ALL_IRQ :: u32 where
  [regs]: "ALTR_I2C_ALL_IRQ = ALTR_I2C_ISR_RXOF OR ALTR_I2C_ISR_ARB OR ALTR_I2C_ISR_NACK
     OR ALTR_I2C_ISR_RXRDY OR ALTR_I2C_ISR_TXRDY"

section \<open>Register access\<close>

definition readl :: "'d mmio \<Rightarrow> u32 \<Rightarrow> 'd i2c_sys \<Rightarrow> u32 \<times> 'd i2c_sys" where
  "readl b reg s = (let (v, d) = ioread b (hw s) (base (idev s) + reg) in (v, s\<lparr>hw := d\<rparr>))"

definition writel :: "'d mmio \<Rightarrow> u32 \<Rightarrow> u32 \<Rightarrow> 'd i2c_sys \<Rightarrow> 'd i2c_sys" where
  "writel b val reg s = s\<lparr>hw := iowrite b (hw s) (base (idev s) + reg) val\<rparr>"

definition altr_i2c_int_enable :: "'d mmio \<Rightarrow> u32 \<Rightarrow> bool \<Rightarrow> 'd i2c_sys \<Rightarrow> 'd i2c_sys" where
  "altr_i2c_int_enable b msk en s =
    (let (int_en, s) = readl b ALTR_I2C_ISER s;
         m = (if en then int_en OR msk else int_en AND NOT msk);
         s = s\<lparr>idev := (idev s)\<lparr>isr_mask := m\<rparr>\<rparr>
     in writel b (isr_mask (idev s)) ALTR_I2C_ISER s)"

definition altr_i2c_int_clear :: "'d mmio \<Rightarrow> u32 \<Rightarrow> 'd i2c_sys \<Rightarrow> 'd i2c_sys" where
  "altr_i2c_int_clear b msk s =
    (let (int_en, s) = readl b ALTR_I2C_ISR s in writel b (int_en OR msk) ALTR_I2C_ISR s)"

definition altr_i2c_core_disable :: "'d mmio \<Rightarrow> 'd i2c_sys \<Rightarrow> 'd i2c_sys" where
  "altr_i2c_core_disable b s =
    (let (tmp, s) = readl b ALTR_I2C_CTRL s in writel b (tmp AND NOT ALTR_I2C_CTRL_EN) ALTR_I2C_CTRL s)"

definition altr_i2c_core_enable :: "'d mmio \<Rightarrow> 'd i2c_sys \<Rightarrow> 'd i2c_sys" where
  "altr_i2c_core_enable b s =
    (let (tmp, s) = readl b ALTR_I2C_CTRL s in writel b (tmp OR ALTR_I2C_CTRL_EN) ALTR_I2C_CTRL s)"

definition altr_i2c_reset :: "'d mmio \<Rightarrow> 'd i2c_sys \<Rightarrow> 'd i2c_sys" where
  "altr_i2c_reset b s = altr_i2c_core_enable b (altr_i2c_core_disable b s)"

definition altr_i2c_stop :: "'d mmio \<Rightarrow> 'd i2c_sys \<Rightarrow> 'd i2c_sys" where
  "altr_i2c_stop b s = writel b ALTR_I2C_TFR_CMD_STO ALTR_I2C_TFR_CMD s"

definition altr_i2c_init :: "'d mmio \<Rightarrow> 'd i2c_sys \<Rightarrow> 'd i2c_sys" where
  "altr_i2c_init b s =
    (let divisor = CLK_div (bus_clk_rate (idev s));
         clk_mhz = CLK_div 1000000;
         tmp = (push_bit 4 0 OR push_bit 2 0) :: u32;
         (tmp, t_high, t_low) =
           (if bus_clk_rate (idev s) \<le> 100000
            then (tmp AND NOT ALTR_I2C_CTRL_BSPEED, divisor * 1 div 2, divisor * 1 div 2)
            else (tmp OR ALTR_I2C_CTRL_BSPEED, divisor * 1 div 3, divisor * 2 div 3));
         s = writel b tmp ALTR_I2C_CTRL s;
         s = altr_i2c_reset b s;
         s = writel b t_high ALTR_I2C_SCL_HIGH s;
         s = writel b t_low ALTR_I2C_SCL_LOW s;
         s = writel b (300 * clk_mhz div 1000) ALTR_I2C_SDA_HOLD s
     in altr_i2c_int_enable b ALTR_I2C_ALL_IRQ False s)"

section \<open>FIFO service\<close>

definition altr_i2c_transfer :: "'d mmio \<Rightarrow> u32 \<Rightarrow> 'd i2c_sys \<Rightarrow> 'd i2c_sys" where
  "altr_i2c_transfer b dat s =
    (let dat = (if msg_len (idev s) = 1 then dat OR ALTR_I2C_TFR_CMD_STO else dat)
     in if 0 < msg_len (idev s) then writel b dat ALTR_I2C_TFR_CMD s else s)"

text \<open>\<open>*idev->buf++ = v\<close> and \<open>*idev->buf++\<close> as a value.\<close>

definition buf_store :: "u8 \<Rightarrow> 'd i2c_sys \<Rightarrow> fault + 'd i2c_sys" where
  "buf_store v s =
    (case msg (idev s) of None \<Rightarrow> Inl NullDeref
     | Some m \<Rightarrow>
        (if bufp (idev s) < length (m_buf m)
         then Inr (s\<lparr>idev := (idev s)\<lparr>msg := Some (m\<lparr>m_buf := (m_buf m)[bufp (idev s) := v]\<rparr>),
                                      bufp := bufp (idev s) + 1\<rparr>\<rparr>)
         else Inl OutOfBounds))"

definition buf_load :: "'d i2c_sys \<Rightarrow> fault + u8 \<times> 'd i2c_sys" where
  "buf_load s =
    (case msg (idev s) of None \<Rightarrow> Inl NullDeref
     | Some m \<Rightarrow>
        (if bufp (idev s) < length (m_buf m)
         then Inr (m_buf m ! bufp (idev s), s\<lparr>idev := (idev s)\<lparr>bufp := bufp (idev s) + 1\<rparr>\<rparr>)
         else Inl OutOfBounds))"

definition dec_len :: "'d i2c_sys \<Rightarrow> 'd i2c_sys" where
  "dec_len s = s\<lparr>idev := (idev s)\<lparr>msg_len := msg_len (idev s) - 1\<rparr>\<rparr>"

text \<open>The conversion of a \<open>size_t\<close> to the \<open>int\<close> loop counter; a loop
  \<open>while (n-- > 0)\<close> runs \<open>max n 0\<close> times.\<close>

definition int_count :: "u64 \<Rightarrow> nat" where
  "int_count w = nat (sint (ucast w :: u32))"

fun rx_loop :: "'d mmio \<Rightarrow> nat \<Rightarrow> 'd i2c_sys \<Rightarrow> fault + 'd i2c_sys" where
  "rx_loop b 0 s = Inr s"
| "rx_loop b (Suc n) s =
    (let (v, s) = readl b ALTR_I2C_RX_DATA s in
     case buf_store (ucast v) s of Inl e \<Rightarrow> Inl e
     | Inr s \<Rightarrow> rx_loop b n (altr_i2c_transfer b 0 (dec_len s)))"

definition altr_i2c_empty_rx_fifo :: "'d mmio \<Rightarrow> 'd i2c_sys \<Rightarrow> fault + 'd i2c_sys" where
  "altr_i2c_empty_rx_fifo b s =
    (let (lvl, s) = readl b ALTR_I2C_RX_FIFO_LVL s;
         rx_fifo_avail = ucast lvl :: u64
     in rx_loop b (int_count (min rx_fifo_avail (msg_len (idev s)))) s)"

text \<open>The first half of the body of the transmit loop, up to the register write, and the loop.\<close>

definition tx_half :: "'d mmio \<Rightarrow> 'd i2c_sys \<Rightarrow> fault + 'd i2c_sys" where
  "tx_half b s =
    (case buf_load s of Inl e \<Rightarrow> Inl e | Inr (v, s) \<Rightarrow> Inr (altr_i2c_transfer b (ucast v) s))"

fun tx_loop :: "'d mmio \<Rightarrow> nat \<Rightarrow> 'd i2c_sys \<Rightarrow> fault + 'd i2c_sys" where
  "tx_loop b 0 s = Inr s"
| "tx_loop b (Suc n) s =
    (case tx_half b s of Inl e \<Rightarrow> Inl e | Inr s \<Rightarrow> tx_loop b n (dec_len s))"

definition altr_i2c_fill_tx_fifo :: "'d mmio \<Rightarrow> 'd i2c_sys \<Rightarrow> fault + u32 \<times> 'd i2c_sys" where
  "altr_i2c_fill_tx_fifo b s =
    (let (lvl, s) = readl b ALTR_I2C_TC_FIFO_LVL s;
         tx_fifo_avail = ucast (fifo_size (idev s) - lvl) :: u64;
         bytes_to_transfer = ucast (min tx_fifo_avail (msg_len (idev s))) :: u32;
         ret = ucast (msg_len (idev s) - scast bytes_to_transfer) :: u32
     in case tx_loop b (int_count (min tx_fifo_avail (msg_len (idev s)))) s of
          Inl e \<Rightarrow> Inl e | Inr s \<Rightarrow> Inr (ret, s))"

section \<open>Interrupt handling\<close>

definition altr_i2c_isr_quick :: "'d mmio \<Rightarrow> 'd i2c_sys \<Rightarrow> irqreturn \<times> 'd i2c_sys" where
  "altr_i2c_isr_quick b s =
    (let (v, s) = readl b ALTR_I2C_ISR s;
         s = s\<lparr>idev := (idev s)\<lparr>isr_status := v AND isr_mask (idev s)\<rparr>\<rparr>
     in (if isr_status (idev s) \<noteq> 0 then IRQ_WAKE_THREAD else IRQ_HANDLED, s))"

definition set_err :: "int \<Rightarrow> 'd i2c_sys \<Rightarrow> 'd i2c_sys" where
  "set_err e s = s\<lparr>idev := (idev s)\<lparr>msg_err := e\<rparr>\<rparr>"

text \<open>The block under \<open>if (finish)\<close>.\<close>

definition isr_finish :: "'d i2c_env \<Rightarrow> 'd i2c_sys \<Rightarrow> 'd i2c_sys" where
  "isr_finish E s =
    (let (timed_out, s) = poll_idle E s;
         s = altr_i2c_int_enable (bus E) ALTR_I2C_ALL_IRQ False s;
         s = altr_i2c_int_clear (bus E) ALTR_I2C_ALL_IRQ s
     in s\<lparr>idev := (idev s)\<lparr>msg_complete := True\<rparr>\<rparr>)"

text \<open>The branches that service the hardware: the value of \<open>finish\<close> and the new state.\<close>

definition isr_service :: "'d mmio \<Rightarrow> bool \<Rightarrow> u32 \<Rightarrow> 'd i2c_sys \<Rightarrow> fault + bool \<times> 'd i2c_sys" where
  "isr_service b rd status s =
    (if status AND ALTR_I2C_ISR_ARB \<noteq> 0 then
       Inr (True, set_err (- EAGAIN) (altr_i2c_int_clear b ALTR_I2C_ISR_ARB s))
     else if status AND ALTR_I2C_ISR_NACK \<noteq> 0 then
       Inr (True, altr_i2c_stop b (altr_i2c_int_clear b ALTR_I2C_ISR_NACK (set_err (- ENXIO) s)))
     else if rd \<and> status AND ALTR_I2C_ISR_RXOF \<noteq> 0 then
       (case altr_i2c_empty_rx_fifo b s of Inl e \<Rightarrow> Inl e
        | Inr s \<Rightarrow> Inr (True, altr_i2c_stop b (altr_i2c_int_clear b ALTR_I2C_ISR_RXRDY s)))
     else if rd \<and> status AND ALTR_I2C_ISR_RXRDY \<noteq> 0 then
       (case altr_i2c_empty_rx_fifo b s of Inl e \<Rightarrow> Inl e
        | Inr s \<Rightarrow> (let s = altr_i2c_int_clear b ALTR_I2C_ISR_RXRDY s
                   in Inr (msg_len (idev s) = 0, s)))
     else if \<not> rd \<and> status AND ALTR_I2C_ISR_TXRDY \<noteq> 0 then
       (let s = altr_i2c_int_clear b ALTR_I2C_ISR_TXRDY s in
        if 0 < msg_len (idev s) then
          (case altr_i2c_fill_tx_fifo b s of Inl e \<Rightarrow> Inl e | Inr (ret, s) \<Rightarrow> Inr (False, s))
        else Inr (True, s))
     else Inr (False, altr_i2c_int_clear b ALTR_I2C_ALL_IRQ s))"

definition altr_i2c_isr :: "'d i2c_env \<Rightarrow> 'd i2c_sys \<Rightarrow> fault + irqreturn \<times> 'd i2c_sys" where
  "altr_i2c_isr E s =
    (let status = isr_status (idev s) in
     case msg (idev s) of
       None \<Rightarrow> Inr (IRQ_HANDLED, altr_i2c_int_clear (bus E) ALTR_I2C_ALL_IRQ s)
     | Some m \<Rightarrow>
        (case isr_service (bus E) (m_rd m) status s of
           Inl e \<Rightarrow> Inl e
         | Inr (finish, s) \<Rightarrow> Inr (IRQ_HANDLED, if finish then isr_finish E s else s)))"

section \<open>Transfers\<close>

text \<open>The \<open>do ... while\<close> loop that empties the receive FIFO: it never returns (\<open>None\<close>) on
  hardware whose level never reaches 0.\<close>

partial_function (option) rx_drain :: "'d mmio \<Rightarrow> 'd i2c_sys \<Rightarrow> 'd i2c_sys option" where
  "rx_drain b s =
    (let (v, s) = readl b ALTR_I2C_RX_DATA s;
         (lvl, s) = readl b ALTR_I2C_RX_FIFO_LVL s
     in if lvl \<noteq> 0 then rx_drain b s else Some s)"

text \<open>Up to \<open>wait_for_completion_timeout\<close>, and from there on.\<close>

definition xfer_setup :: "i2c_msg \<Rightarrow> 'd i2c_sys \<Rightarrow> 'd i2c_sys" where
  "xfer_setup m s = s\<lparr>idev := (idev s)\<lparr>msg := Some m, msg_len := ucast (m_len m), bufp := 0,
     msg_err := 0, msg_complete := False\<rparr>\<rparr>"

definition xfer_kick :: "'d i2c_env \<Rightarrow> i2c_msg \<Rightarrow> u32 \<Rightarrow> 'd i2c_sys \<Rightarrow> fault + u32 \<times> 'd i2c_sys" where
  "xfer_kick E m imask s =
    (let b = bus E;
         s = writel b (ALTR_I2C_TFR_CMD_STA OR ucast (addr8 E m)) ALTR_I2C_TFR_CMD s in
     if m_rd m then
       (let imask = imask OR (ALTR_I2C_ISR_RXOF OR ALTR_I2C_ISR_RXRDY);
            s = altr_i2c_int_enable b imask True s
        in Inr (imask, altr_i2c_transfer b 0 s))
     else
       (let imask = imask OR ALTR_I2C_ISR_TXRDY;
            s = altr_i2c_int_enable b imask True s
        in case altr_i2c_fill_tx_fifo b s of Inl e \<Rightarrow> Inl e | Inr (ret, s) \<Rightarrow> Inr (imask, s)))"

definition xfer_end :: "'d mmio \<Rightarrow> u32 \<Rightarrow> u64 \<Rightarrow> 'd i2c_sys \<Rightarrow> int \<times> 'd i2c_sys" where
  "xfer_end b imask time_left s =
    (let s = altr_i2c_int_enable b imask False s;
         (v, s) = readl b ALTR_I2C_STATUS s;
         s = (if time_left = 0 then set_err (- ETIMEDOUT) s else s);
         s = altr_i2c_core_disable b s
     in (msg_err (idev s), s))"

definition altr_i2c_xfer_msg ::
    "'d i2c_env \<Rightarrow> i2c_msg \<Rightarrow> 'd i2c_sys \<Rightarrow> (fault + int \<times> 'd i2c_sys) option" where
  "altr_i2c_xfer_msg E m s =
    (let imask = ALTR_I2C_ISR_RXOF OR ALTR_I2C_ISR_ARB OR ALTR_I2C_ISR_NACK;
         s = altr_i2c_core_enable (bus E) (xfer_setup m s) in
     case rx_drain (bus E) s of
       None \<Rightarrow> None
     | Some s \<Rightarrow> Some
        (case xfer_kick E m imask s of
           Inl e \<Rightarrow> Inl e
         | Inr (imask, s) \<Rightarrow>
            (case wait_completion E s of
               Inl e \<Rightarrow> Inl e
             | Inr (time_left, s) \<Rightarrow> Inr (xfer_end (bus E) imask time_left s))))"

text \<open>
  The message list of \<open>master_xfer\<close>. The buffers of the messages are updated in place: the
  result carries the messages that were processed, as they are afterwards.
\<close>

fun xfer_loop :: "'d i2c_env \<Rightarrow> i2c_msg list \<Rightarrow> 'd i2c_sys
    \<Rightarrow> (fault + int \<times> i2c_msg list \<times> 'd i2c_sys) option" where
  "xfer_loop E [] s = Some (Inr (0, [], s))"
| "xfer_loop E (m # ms) s =
    (case altr_i2c_xfer_msg E m s of
       None \<Rightarrow> None
     | Some (Inl e) \<Rightarrow> Some (Inl e)
     | Some (Inr (ret, s)) \<Rightarrow>
        (let m' = (case msg (idev s) of None \<Rightarrow> m | Some m' \<Rightarrow> m') in
         if ret \<noteq> 0 then Some (Inr (ret, m' # ms, s))
         else
          (case xfer_loop E ms s of
             None \<Rightarrow> None
           | Some (Inl e) \<Rightarrow> Some (Inl e)
           | Some (Inr (ret, ms', s)) \<Rightarrow> Some (Inr (ret, m' # ms', s)))))"

definition altr_i2c_xfer :: "'d i2c_env \<Rightarrow> i2c_msg list \<Rightarrow> 'd i2c_sys
    \<Rightarrow> (fault + int \<times> i2c_msg list \<times> 'd i2c_sys) option" where
  "altr_i2c_xfer E msgs s =
    (case xfer_loop E msgs s of
       None \<Rightarrow> None
     | Some (Inl e) \<Rightarrow> Some (Inl e)
     | Some (Inr (ret, ms, s)) \<Rightarrow> Some (Inr (if ret \<noteq> 0 then ret else int (length msgs), ms, s)))"

section \<open>What an operation leaves alone\<close>

text \<open>
  Register accesses never touch the driver's context; enabling and disabling interrupts only
  rewrites the cached mask.
\<close>

lemma idev_writel [simp]: "idev (writel b v r s) = idev s"
  by (simp add: writel_def)

lemma idev_readl [simp]: "idev (snd (readl b r s)) = idev s"
  by (simp add: readl_def split: prod.splits)

lemma readl_pair: "readl b r s = (fst (readl b r s), snd (readl b r s))"
  by simp

lemma idev_int_clear [simp]: "idev (altr_i2c_int_clear b m s) = idev s"
  by (simp add: altr_i2c_int_clear_def split_beta Let_def)

lemma idev_core_enable [simp]: "idev (altr_i2c_core_enable b s) = idev s"
  by (simp add: altr_i2c_core_enable_def split_beta Let_def)

lemma idev_core_disable [simp]: "idev (altr_i2c_core_disable b s) = idev s"
  by (simp add: altr_i2c_core_disable_def split_beta Let_def)

lemma idev_stop [simp]: "idev (altr_i2c_stop b s) = idev s"
  by (simp add: altr_i2c_stop_def)

lemma idev_transfer [simp]: "idev (altr_i2c_transfer b v s) = idev s"
  by (simp add: altr_i2c_transfer_def Let_def)

lemma idev_int_enable:
  "idev (altr_i2c_int_enable b m en s) =
     (idev s)\<lparr>isr_mask := (let v = fst (readl b ALTR_I2C_ISER s) in if en then v OR m else v AND NOT m)\<rparr>"
  by (simp add: altr_i2c_int_enable_def split_beta Let_def)

lemma idev_int_enable_fields [simp]:
  "base (idev (altr_i2c_int_enable b m en s)) = base (idev s)"
  "irq (idev (altr_i2c_int_enable b m en s)) = irq (idev s)"
  "msg (idev (altr_i2c_int_enable b m en s)) = msg (idev s)"
  "msg_len (idev (altr_i2c_int_enable b m en s)) = msg_len (idev s)"
  "msg_err (idev (altr_i2c_int_enable b m en s)) = msg_err (idev s)"
  "msg_complete (idev (altr_i2c_int_enable b m en s)) = msg_complete (idev s)"
  "bufp (idev (altr_i2c_int_enable b m en s)) = bufp (idev s)"
  "fifo_size (idev (altr_i2c_int_enable b m en s)) = fifo_size (idev s)"
  "isr_status (idev (altr_i2c_int_enable b m en s)) = isr_status (idev s)"
  by (simp_all add: idev_int_enable)

section \<open>Buffer safety\<close>

text \<open>
  The invariant that keeps the buffer pointer inside the message: what is behind the pointer and
  what is still to be transferred make up the whole buffer.
\<close>

definition buf_inv :: "i2c_dev \<Rightarrow> bool" where
  "buf_inv d \<longleftrightarrow> (case msg d of None \<Rightarrow> False
     | Some m \<Rightarrow> bufp d + unat (msg_len d) = length (m_buf m) \<and> length (m_buf m) < 2 ^ 16)"

definition cur_buf :: "i2c_dev \<Rightarrow> u8 list" where
  "cur_buf d = (case msg d of None \<Rightarrow> [] | Some m \<Rightarrow> m_buf m)"

text \<open>
  \<open>buf_step n d d'\<close>: \<open>n\<close> bytes of the message have been processed; the bytes behind the old
  pointer and the rest of the context are as before.
\<close>

definition buf_step :: "nat \<Rightarrow> i2c_dev \<Rightarrow> i2c_dev \<Rightarrow> bool" where
  "buf_step n d d' \<longleftrightarrow> buf_inv d' \<and> bufp d' = bufp d + n \<and> n \<le> unat (msg_len d)
     \<and> unat (msg_len d') = unat (msg_len d) - n
     \<and> take (bufp d) (cur_buf d') = take (bufp d) (cur_buf d)
     \<and> length (cur_buf d') = length (cur_buf d)
     \<and> map_option m_rd (msg d') = map_option m_rd (msg d)
     \<and> msg_err d' = msg_err d \<and> msg_complete d' = msg_complete d \<and> fifo_size d' = fifo_size d"

lemma buf_step_refl [simp]: "buf_step 0 d d \<longleftrightarrow> buf_inv d"
  by (auto simp: buf_step_def)

lemma buf_step_trans:
  "buf_step m d d' \<Longrightarrow> buf_step n d' d'' \<Longrightarrow> buf_step (m + n) d d''"
  by (auto simp: buf_step_def min_def dest: arg_cong [where f = "take (bufp d)"])

lemma buf_step_inv: "buf_step n d d' \<Longrightarrow> buf_inv d'"
  by (simp add: buf_step_def)

lemma int_count_small:
  assumes w: "unat w < 2 ^ 31"
  shows "int_count w = unat w"
proof -
  have "unat (ucast w :: u32) = unat w"
    by (rule unat_ucast_small) (use w in simp)
  then have u: "uint (ucast w :: u32) = int (unat w)"
    by (metis of_nat_unat)
  define n where "n = unat w"
  have "sint (ucast w :: u32) = uint (ucast w :: u32)"
    unfolding sint_uint u using w unfolding n_def [symmetric]
    by (intro signed_take_bit_int_eq_self) simp_all
  with u show ?thesis by (simp add: int_count_def)
qed

lemma int_count_min:
  "unat l < 2 ^ 16 \<Longrightarrow> int_count (min w l) = min (unat w) (unat l)"
  by (subst int_count_small) (auto simp: min_def word_le_nat_alt)

lemma unat_dec: "0 < unat (w :: u64) \<Longrightarrow> unat (w - 1) = unat w - 1"
  by (rule unat_minus_one) auto

lemma store_step:
  assumes "buf_inv (idev s)" and "0 < unat (msg_len (idev s))"
  obtains s' where "buf_store v s = Inr s'" and "buf_step 1 (idev s) (idev (dec_len s'))"
    and "hw s' = hw s"
    and "cur_buf (idev s') = (cur_buf (idev s))[bufp (idev s) := v]"
proof -
  obtain m where m: "msg (idev s) = Some m"
    and len: "bufp (idev s) + unat (msg_len (idev s)) = length (m_buf m)" "length (m_buf m) < 2 ^ 16"
    using assms(1) by (auto simp: buf_inv_def split: option.splits)
  then have "bufp (idev s) < length (m_buf m)" using assms(2) by linarith
  with m len assms(2) show thesis
    by (intro that [of "s\<lparr>idev := (idev s)\<lparr>msg := Some (m\<lparr>m_buf := (m_buf m)[bufp (idev s) := v]\<rparr>),
                                      bufp := bufp (idev s) + 1\<rparr>\<rparr>"])
      (auto simp: buf_store_def buf_step_def buf_inv_def cur_buf_def dec_len_def unat_dec)
qed

lemma load_step:
  assumes "buf_inv (idev s)" and "0 < unat (msg_len (idev s))"
  obtains s' where "buf_load s = Inr (cur_buf (idev s) ! bufp (idev s), s')"
    and "buf_step 1 (idev s) (idev (dec_len s'))" and "hw s' = hw s"
    and "cur_buf (idev s') = cur_buf (idev s)"
proof -
  obtain m where m: "msg (idev s) = Some m"
    and len: "bufp (idev s) + unat (msg_len (idev s)) = length (m_buf m)" "length (m_buf m) < 2 ^ 16"
    using assms(1) by (auto simp: buf_inv_def split: option.splits)
  then have "bufp (idev s) < length (m_buf m)" using assms(2) by linarith
  with m len assms(2) show thesis
    by (intro that [of "s\<lparr>idev := (idev s)\<lparr>bufp := bufp (idev s) + 1\<rparr>\<rparr>"])
      (auto simp: buf_load_def buf_step_def buf_inv_def cur_buf_def dec_len_def unat_dec)
qed

lemma idev_dec_len_cong: "idev s = idev t \<Longrightarrow> idev (dec_len s) = idev (dec_len t)"
  by (simp add: dec_len_def)

lemma rx_loop_step:
  "buf_inv (idev s) \<Longrightarrow> n \<le> unat (msg_len (idev s)) \<Longrightarrow>
    \<exists>s'. rx_loop b n s = Inr s' \<and> buf_step n (idev s) (idev s')"
proof (induction n arbitrary: s)
  case 0
  then show ?case by simp
next
  case (Suc n)
  let ?r = "snd (readl b ALTR_I2C_RX_DATA s)"
  obtain t where t: "buf_store (ucast (fst (readl b ALTR_I2C_RX_DATA s))) ?r = Inr t"
      "buf_step 1 (idev s) (idev (dec_len t))"
    using Suc.prems by (metis idev_readl store_step Suc_le_lessD gr_zeroI not_less0)
  let ?u = "altr_i2c_transfer b 0 (dec_len t)"
  have "buf_inv (idev ?u)" "n \<le> unat (msg_len (idev ?u))"
    using t(2) Suc.prems by (auto simp: buf_step_def)
  then obtain s' where "rx_loop b n ?u = Inr s'" "buf_step n (idev ?u) (idev s')"
    using Suc.IH by blast
  then show ?case
    using t buf_step_trans [of 1 "idev s" "idev ?u" n "idev s'"]
    by (auto simp: split_beta Let_def)
qed

lemma empty_rx_fifo_step:
  assumes "buf_inv (idev s)"
  shows "\<exists>n s'. altr_i2c_empty_rx_fifo b s = Inr s' \<and> buf_step n (idev s) (idev s')
    \<and> n = min (unat (fst (readl b ALTR_I2C_RX_FIFO_LVL s))) (unat (msg_len (idev s)))"
proof -
  let ?r = "readl b ALTR_I2C_RX_FIFO_LVL s"
  have "unat (msg_len (idev s)) < 2 ^ 16"
    using assms by (auto simp: buf_inv_def split: option.splits)
  then have c: "int_count (min (ucast (fst ?r)) (msg_len (idev s)))
      = min (unat (fst ?r)) (unat (msg_len (idev s)))"
    by (simp add: int_count_min)
  have "\<exists>s'. rx_loop b (min (unat (fst ?r)) (unat (msg_len (idev s)))) (snd ?r) = Inr s'
     \<and> buf_step (min (unat (fst ?r)) (unat (msg_len (idev s)))) (idev (snd ?r)) (idev s')"
    by (rule rx_loop_step) (use assms in simp_all)
  with c show ?thesis by (auto simp: altr_i2c_empty_rx_fifo_def split_beta Let_def)
qed

lemma tx_loop_step:
  "buf_inv (idev s) \<Longrightarrow> n \<le> unat (msg_len (idev s)) \<Longrightarrow>
    \<exists>s'. tx_loop b n s = Inr s' \<and> buf_step n (idev s) (idev s')"
proof (induction n arbitrary: s)
  case 0
  then show ?case by simp
next
  case (Suc n)
  obtain t where t: "buf_load s = Inr (cur_buf (idev s) ! bufp (idev s), t)"
      "buf_step 1 (idev s) (idev (dec_len t))"
    using Suc.prems by (metis load_step Suc_le_lessD gr_zeroI not_less0)
  let ?v = "ucast (cur_buf (idev s) ! bufp (idev s))"
  let ?u = "dec_len (altr_i2c_transfer b ?v t)"
  have u: "idev ?u = idev (dec_len t)" by (rule idev_dec_len_cong) simp
  then have "buf_inv (idev ?u)" "n \<le> unat (msg_len (idev ?u))"
    using t(2) Suc.prems by (auto simp: buf_step_def)
  then obtain s' where "tx_loop b n ?u = Inr s'" "buf_step n (idev ?u) (idev s')"
    using Suc.IH by blast
  then show ?case
    using t u buf_step_trans [of 1 "idev s" "idev ?u" n "idev s'"]
    by (auto simp: tx_half_def)
qed

lemma fill_tx_fifo_step:
  assumes "buf_inv (idev s)"
  shows "\<exists>n r s'. altr_i2c_fill_tx_fifo b s = Inr (r, s') \<and> buf_step n (idev s) (idev s')
    \<and> n = min (unat (fifo_size (idev s) - fst (readl b ALTR_I2C_TC_FIFO_LVL s))) (unat (msg_len (idev s)))"
proof -
  let ?r = "readl b ALTR_I2C_TC_FIFO_LVL s"
  let ?a = "fifo_size (idev s) - fst ?r"
  have "unat (msg_len (idev s)) < 2 ^ 16"
    using assms by (auto simp: buf_inv_def split: option.splits)
  then have c: "int_count (min (ucast ?a) (msg_len (idev s))) = min (unat ?a) (unat (msg_len (idev s)))"
    by (simp add: int_count_min unat_ucast_up)
  have "\<exists>s'. tx_loop b (min (unat ?a) (unat (msg_len (idev s)))) (snd ?r) = Inr s'
     \<and> buf_step (min (unat ?a) (unat (msg_len (idev s)))) (idev (snd ?r)) (idev s')"
    by (rule tx_loop_step) (use assms in simp_all)
  with c show ?thesis by (auto simp: altr_i2c_fill_tx_fifo_def split_beta Let_def)
qed

section \<open>The interrupt handler on any hardware\<close>

text \<open>
  \<open>buf_keep d d'\<close>: the buffer invariant holds again and the message's buffer, as far as it was
  already processed, is as before.
\<close>

definition buf_keep :: "i2c_dev \<Rightarrow> i2c_dev \<Rightarrow> bool" where
  "buf_keep d d' \<longleftrightarrow> buf_inv d' \<and> bufp d \<le> bufp d'
     \<and> take (bufp d) (cur_buf d') = take (bufp d) (cur_buf d)
     \<and> length (cur_buf d') = length (cur_buf d)"

lemma buf_keep_trans: "buf_keep d d' \<Longrightarrow> buf_keep d' d'' \<Longrightarrow> buf_keep d d''"
  by (auto simp: buf_keep_def min_def dest: arg_cong [where f = "take (bufp d)"])

lemma buf_step_keep: "buf_step n d d' \<Longrightarrow> buf_keep d d'"
  by (simp add: buf_step_def buf_keep_def)

lemma buf_keep_refl: "buf_inv d \<Longrightarrow> buf_keep d d"
  by (simp add: buf_keep_def)

lemma buf_keep_cong:
  "buf_keep d d' \<Longrightarrow> msg d'' = msg d' \<Longrightarrow> msg_len d'' = msg_len d' \<Longrightarrow> bufp d'' = bufp d'
   \<Longrightarrow> buf_keep d d''"
  by (simp add: buf_keep_def buf_inv_def cur_buf_def split: option.splits)

lemma buf_keep_inv: "buf_keep d d' \<Longrightarrow> buf_inv d'"
  by (simp add: buf_keep_def)

lemma set_err_fields [simp]:
  "msg (idev (set_err e s)) = msg (idev s)" "msg_len (idev (set_err e s)) = msg_len (idev s)"
  "bufp (idev (set_err e s)) = bufp (idev s)" "msg_err (idev (set_err e s)) = e"
  "msg_complete (idev (set_err e s)) = msg_complete (idev s)"
  by (simp_all add: set_err_def)

lemma isr_service_keep:
  assumes "buf_inv (idev s)"
  shows "\<exists>f s'. isr_service b rd st s = Inr (f, s') \<and> buf_keep (idev s) (idev s')"
proof -
  obtain n s1 where rx: "altr_i2c_empty_rx_fifo b s = Inr s1" "buf_step n (idev s) (idev s1)"
    using empty_rx_fifo_step [OF assms] by blast
  let ?c = "altr_i2c_int_clear b ALTR_I2C_ISR_TXRDY s"
  have "buf_inv (idev ?c)" using assms by simp
  then obtain k r s2 where tx: "altr_i2c_fill_tx_fifo b ?c = Inr (r, s2)" "buf_step k (idev s) (idev s2)"
    using fill_tx_fifo_step [of ?c b] by auto
  show ?thesis
    using assms rx tx buf_step_keep [OF rx(2)] buf_step_keep [OF tx(2)]
    by (auto simp: isr_service_def Let_def intro: buf_keep_cong [OF buf_keep_refl])
qed

text \<open>
  What the handler relies on of \<open>readl_poll_timeout_atomic\<close>: it reads the status register and
  leaves the driver's context alone.
\<close>

definition poll_frame :: "'d i2c_env \<Rightarrow> bool" where
  "poll_frame E \<longleftrightarrow> (\<forall>s. idev (snd (poll_idle E s)) = idev s)"

lemma isr_finish_fields:
  assumes "poll_frame E"
  shows "msg (idev (isr_finish E s)) = msg (idev s)" "msg_len (idev (isr_finish E s)) = msg_len (idev s)"
    "bufp (idev (isr_finish E s)) = bufp (idev s)" "msg_err (idev (isr_finish E s)) = msg_err (idev s)"
    "msg_complete (idev (isr_finish E s))"
  using assms by (simp_all add: isr_finish_def poll_frame_def split_beta Let_def)

lemma isr_keep:
  assumes "poll_frame E" and "buf_inv (idev s)"
  shows "\<exists>s'. altr_i2c_isr E s = Inr (IRQ_HANDLED, s') \<and> buf_keep (idev s) (idev s')"
proof -
  obtain m where m: "msg (idev s) = Some m"
    using assms(2) by (auto simp: buf_inv_def split: option.splits)
  obtain f s1 where s1: "isr_service (bus E) (m_rd m) (isr_status (idev s)) s = Inr (f, s1)"
      "buf_keep (idev s) (idev s1)"
    using isr_service_keep [OF assms(2)] by blast
  have "buf_keep (idev s) (idev (isr_finish E s1))"
    by (rule buf_keep_cong [OF s1(2)]) (simp_all add: isr_finish_fields [OF assms(1)])
  with m s1 show ?thesis by (auto simp: altr_i2c_isr_def Let_def)
qed

lemma isr_quick_fields [simp]:
  "msg (idev (snd (altr_i2c_isr_quick b s))) = msg (idev s)"
  "msg_len (idev (snd (altr_i2c_isr_quick b s))) = msg_len (idev s)"
  "bufp (idev (snd (altr_i2c_isr_quick b s))) = bufp (idev s)"
  "msg_err (idev (snd (altr_i2c_isr_quick b s))) = msg_err (idev s)"
  "msg_complete (idev (snd (altr_i2c_isr_quick b s))) = msg_complete (idev s)"
  by (simp_all add: altr_i2c_isr_quick_def split_beta Let_def)

text \<open>One interrupt: the hard handler, and the threaded one if it asks for it.\<close>

definition irq_round :: "'d i2c_env \<Rightarrow> 'd i2c_sys \<Rightarrow> fault + 'd i2c_sys" where
  "irq_round E s =
    (let (r, s) = altr_i2c_isr_quick (bus E) s in
     if r = IRQ_WAKE_THREAD then
       (case altr_i2c_isr E s of Inl e \<Rightarrow> Inl e | Inr (_, s) \<Rightarrow> Inr s)
     else Inr s)"

lemma irq_round_keep:
  assumes "poll_frame E" and "buf_inv (idev s)"
  shows "\<exists>s'. irq_round E s = Inr s' \<and> buf_keep (idev s) (idev s')"
proof -
  let ?q = "snd (altr_i2c_isr_quick (bus E) s)"
  have k: "buf_keep (idev s) (idev ?q)"
    by (rule buf_keep_cong [OF buf_keep_refl [OF assms(2)]]) simp_all
  then obtain s' where "altr_i2c_isr E ?q = Inr (IRQ_HANDLED, s')" "buf_keep (idev ?q) (idev s')"
    using isr_keep [OF assms(1) buf_keep_inv] by blast
  with k buf_keep_trans [OF k] show ?thesis
    by (auto simp: irq_round_def split_beta Let_def)
qed

text \<open>Interrupts between which the hardware changes in any way.\<close>

fun irq_rounds :: "'d i2c_env \<Rightarrow> ('d \<Rightarrow> 'd) list \<Rightarrow> 'd i2c_sys \<Rightarrow> fault + 'd i2c_sys" where
  "irq_rounds E [] s = Inr s"
| "irq_rounds E (f # fs) s =
    (case irq_round E (s\<lparr>hw := f (hw s)\<rparr>) of Inl e \<Rightarrow> Inl e | Inr s \<Rightarrow> irq_rounds E fs s)"

text \<open>
  C7. Memory safety of the interrupt path on arbitrary hardware: however often the interrupt
  fires, whatever the registers return and however the hardware changes in between, the handlers
  never leave the message's buffer, the pointer and the remaining length keep covering it
  exactly, and bytes that were already received are never overwritten.
\<close>

theorem isr_memory_safe:
  assumes "poll_frame E" and "buf_inv (idev s)"
  shows "\<exists>s'. irq_rounds E fs s = Inr s' \<and> buf_inv (idev s')
    \<and> length (cur_buf (idev s')) = length (cur_buf (idev s))
    \<and> take (bufp (idev s)) (cur_buf (idev s')) = take (bufp (idev s)) (cur_buf (idev s))"
proof -
  have "\<exists>s'. irq_rounds E fs s = Inr s' \<and> buf_keep (idev s) (idev s')"
    using assms(2)
  proof (induction fs arbitrary: s)
    case Nil
    then show ?case by (simp add: buf_keep_refl)
  next
    case (Cons f fs)
    let ?s = "s\<lparr>hw := f (hw s)\<rparr>"
    obtain t where t: "irq_round E ?s = Inr t" "buf_keep (idev s) (idev t)"
      using irq_round_keep [OF assms(1), of ?s] Cons.prems by auto
    then obtain s' where "irq_rounds E fs t = Inr s'" "buf_keep (idev t) (idev s')"
      using Cons.IH buf_keep_inv by blast
    with t show ?case by (auto intro: buf_keep_trans)
  qed
  then show ?thesis by (auto simp: buf_keep_def)
qed

section \<open>A small instance\<close>

text \<open>The driver on a register file, in the middle of a transfer of a message with the given
  direction and buffer, with \<open>n\<close> bytes left and the given interrupt status.\<close>

definition demo_env :: "(u32 \<Rightarrow> u32) i2c_env" where
  "demo_env = \<lparr>bus = regfile, poll_idle = (\<lambda>s. (False, s)), addr8 = (\<lambda>_. 0xA0), wait_completion = (\<lambda>s. Inr (1, s))\<rparr>"

definition demo_i2c :: "bool \<Rightarrow> u8 list \<Rightarrow> nat \<Rightarrow> u32 \<Rightarrow> (u32 \<Rightarrow> u32) i2c_sys" where
  "demo_i2c rd bs n st = \<lparr>idev = \<lparr>base = 0, irq = 3, msg = Some \<lparr>m_addr = 0x50, m_rd = rd, m_len = of_nat (length bs), m_buf = bs\<rparr>,
       msg_len = of_nat n, msg_err = 0, msg_complete = False, bus_clk_rate = 100000, bufp = length bs - n,
       fifo_size = 64, isr_mask = 0x1E, isr_status = st\<rparr>, hw = (\<lambda>_. 0)(0x1C := 1)\<rparr>"

lemma demo_env_ok: "poll_frame demo_env" "bus demo_env = regfile"
  by (simp_all add: demo_env_def poll_frame_def)

lemma demo_i2c_inv: "n \<le> length bs \<Longrightarrow> length bs < 2 ^ 16 \<Longrightarrow> buf_inv (idev (demo_i2c rd bs n st))"
  by (simp add: demo_i2c_def buf_inv_def unat_of_nat_small)

theorem isr_memory_safe_witness:
  "\<exists>s'. irq_rounds demo_env [\<lambda>d. d(0x10 := 2), \<lambda>d. d(0x10 := 2, 0x1C := 7)] (demo_i2c True [1, 2, 3] 2 0) = Inr s'
    \<and> length (cur_buf (idev s')) = 3 \<and> take 1 (cur_buf (idev s')) = [1]"
proof -
  have "buf_inv (idev (demo_i2c True [1, 2, 3] 2 0))" by (rule demo_i2c_inv) simp_all
  from isr_memory_safe [OF demo_env_ok(1) this, of "[\<lambda>d. d(0x10 := 2), \<lambda>d. d(0x10 := 2, 0x1C := 7)]"]
  show ?thesis by (auto simp: demo_i2c_def cur_buf_def)
qed

end
