(* ===== verification/DrvProbe.thy ===== *)
theory DrvProbe
  imports DrvPort DrvI2c "HOL-Library.Multiset"
begin

text \<open>
  The life cycle of the driver: \<open>fejkon_i2c_probe\<close> and \<open>fejkon_i2c_remove\<close> of \<open>i2c.c\<close>, and
  \<open>probe_port\<close>, \<open>remove_port\<close>, \<open>setup_buffers\<close>, \<open>tune_pcie_parameters\<close>, \<open>probe\<close>, \<open>remove\<close>,
  \<open>error_detected\<close>, \<open>minit\<close> and \<open>mexit\<close> of \<open>board.c\<close>. What the driver has acquired from the
  kernel is a ledger, a multiset; giving back what is not held is a fault. The outcomes of the
  kernel's calls are a record of results.
\<close>

section \<open>The ledger\<close>

datatype res =
    CardMem | PciEnabled | Aer | Region | IrqVectors | Irq nat | Hwmon | SysfsFile
  | NapiEnabled | DmaRx | DmaTx
  | Netdev nat | PortDev nat | I2cDev nat | I2cAdapter nat | NapiAdded | NetdevReg nat

text \<open>The driver, the i2c devices of its ports, the ledger, the number of interrupt vectors that are
  allocated, whether the device may be bus master, and whether the driver data of the device is set.
  The interrupt of a vector (\<open>pci_irq_vector\<close>) is named by the vector: \<open>Irq v\<close> is held while a handler
  is registered for it.\<close>

record 'd life =
  drv_of :: "'d drv"
  i2cs :: "i2c_dev option list"
  held :: "res multiset"
  vectors :: nat
  bus_master :: bool
  drvdata :: bool

definition acquire :: "res \<Rightarrow> 'd life \<Rightarrow> 'd life" where
  "acquire r s = s\<lparr>held := add_mset r (held s)\<rparr>"

fun release :: "res list \<Rightarrow> 'd life \<Rightarrow> fault + 'd life" where
  "release [] s = Inr s"
| "release (r # rs) s = (if r \<in># held s then release rs (s\<lparr>held := held s - {#r#}\<rparr>) else Inl Bug)"

fun bind_fault :: "fault + 'a \<Rightarrow> ('a \<Rightarrow> fault + 'b) \<Rightarrow> fault + 'b" where
  "bind_fault (Inl e) f = Inl e"
| "bind_fault (Inr x) f = f x"

text \<open>Register access by the driver in this state.\<close>

definition wr32 :: "'d mmio \<Rightarrow> u32 \<Rightarrow> u32 \<Rightarrow> 'd life \<Rightarrow> 'd life" where
  "wr32 b v a s = s\<lparr>drv_of := iowrite32 b v a (drv_of s)\<rparr>"

definition rd32 :: "'d mmio \<Rightarrow> u32 \<Rightarrow> 'd life \<Rightarrow> u32 \<times> 'd life" where
  "rd32 b a s = (let (v, d) = ioread32 b a (drv_of s) in (v, s\<lparr>drv_of := d\<rparr>))"

definition upd_card :: "(fejkon_card \<Rightarrow> fejkon_card) \<Rightarrow> 'd life \<Rightarrow> 'd life" where
  "upd_card f s = s\<lparr>drv_of := (drv_of s)\<lparr>the_card := f (the_card (drv_of s))\<rparr>\<rparr>"

text \<open>What the kernel answers: \<open>True\<close> for an allocation that succeeds, return codes, and the pairs of
  CPU and bus address of the DMA buffers.\<close>

record kernel =
  k_devm_kzalloc :: bool
  k_pci_enable_device :: int
  k_pci_enable_pcie_error_reporting :: int
  k_pci_request_region :: int
  k_pci_set_dma_mask :: int
  k_pci_set_consistent_dma_mask :: int
  k_pci_alloc_irq_vectors :: "nat \<Rightarrow> int"
  k_request_irq :: "nat \<Rightarrow> int"
  k_hwmon_register :: int
  k_device_create_file :: int
  k_alloc_netdev :: "nat \<Rightarrow> bool"
  k_i2c_kzalloc :: "nat \<Rightarrow> bool"
  k_i2c_request_irq :: "nat \<Rightarrow> int"
  k_i2c_add_adapter :: "nat \<Rightarrow> int"
  k_register_netdev :: "nat \<Rightarrow> int"
  k_dma_rx :: "u64 \<times> u64"
  k_dma_tx :: "u64 \<times> u64"
  k_jiffies :: u64

section \<open>I2C devices\<close>

definition i2c_dev_new :: "u32 \<Rightarrow> nat \<Rightarrow> i2c_dev" where
  "i2c_dev_new off v = \<lparr>base = off, irq = v, msg = None, msg_len = 0, msg_err = 0, msg_complete = False,
     bus_clk_rate = 100000, bufp = 0, fifo_size = 64, isr_mask = 0, isr_status = 0\<rparr>"

definition fejkon_i2c_probe :: "'d mmio \<Rightarrow> kernel \<Rightarrow> nat \<Rightarrow> u32 \<Rightarrow> nat \<Rightarrow> 'd life \<Rightarrow> i2c_dev option \<times> 'd life" where
  "fejkon_i2c_probe b K i off v s =
    (if \<not> k_i2c_kzalloc K i then (None, s)
     else
      (let s = acquire (I2cDev i) s in
       if k_i2c_request_irq K v \<noteq> 0 then (None, s)
       else
        (let s = acquire (Irq v) s;
             t = altr_i2c_init b \<lparr>idev = i2c_dev_new off v, hw = dev (drv_of s)\<rparr>;
             s = s\<lparr>drv_of := (drv_of s)\<lparr>dev := hw t\<rparr>\<rparr>
         in if k_i2c_add_adapter K i < 0 then (None, s)
            else (Some (idev t), acquire (I2cAdapter i) s))))"

definition fejkon_i2c_remove :: "nat \<Rightarrow> i2c_dev \<Rightarrow> 'd life \<Rightarrow> fault + 'd life" where
  "fejkon_i2c_remove i d = release [I2cAdapter i, Irq (irq d), I2cDev i]"

section \<open>Ports\<close>

text \<open>The interface as \<open>alloc_netdev\<close> and \<open>init_netdev\<close> leave it, as far as the driver's record of it
  goes (the link-layer parameters are in \<open>DrvNet\<close>).\<close>

definition new_net :: net_device where
  "new_net = \<lparr>carrier = True, dormant = False, oper_up = False, rx_packets = 0, rx_bytes = 0, rx_dropped = 0,
     tx_packets = 0, tx_bytes = 0, tx_dropped = 0\<rparr>"

text \<open>The vector of a port's I2C core.\<close>

definition port_irq :: "nat \<Rightarrow> nat" where
  "port_irq i = unat (PORT_SFP_I2C_IRQ (of_nat i))"

definition probe_port :: "'d mmio \<Rightarrow> kernel \<Rightarrow> nat \<Rightarrow> 'd life \<Rightarrow> fault + int \<times> 'd life" where
  "probe_port b K i s =
    (if \<not> k_alloc_netdev K i then Inr (- ENOMEM, s)
     else
      (let s = acquire (PortDev i) (acquire (Netdev i) s);
           (idv, s) = fejkon_i2c_probe b K i (BAR0_SFP_I2C_OFFSET (of_nat i)) (port_irq i) s
       in case idv of
            None \<Rightarrow> Inr (- EIO, s)
          | Some idv \<Rightarrow>
             (let s = acquire NapiAdded (s\<lparr>i2cs := (i2cs s)[i := Some idv]\<rparr>) in
              if k_register_netdev K i \<noteq> 0 then
                bind_fault (release [NapiAdded] s) (\<lambda>s. Inr (k_register_netdev K i, s))
              else
               (let s = acquire (NetdevReg i) s;
                    p = \<lparr>port_id = of_nat i, net = new_net, refresh_timer = None\<rparr>;
                    (pend, p) = mod_timer (k_jiffies K + 1) p;
                    s = upd_card (\<lambda>c. c\<lparr>port := (port c)[i := Some p]\<rparr>) s
                in if pend then bind_fault (release [NetdevReg i, NapiAdded] s) (\<lambda>s. Inr (1, s))
                   else Inr (0, s)))))"

definition remove_port :: "nat \<Rightarrow> 'd life \<Rightarrow> fault + 'd life" where
  "remove_port i s =
    (case port (the_card (drv_of s)) ! i of
       None \<Rightarrow> Inr s
     | Some p \<Rightarrow>
        (let s = upd_card (\<lambda>c. c\<lparr>port := (port c)[i := Some (p\<lparr>refresh_timer := None\<rparr>)]\<rparr>) s
         in bind_fault (release [NetdevReg i, NapiAdded] s)
             (\<lambda>s. case i2cs s ! i of
                    None \<Rightarrow> Inl NullDeref
                  | Some d \<Rightarrow> bind_fault (fejkon_i2c_remove i d s) (release [PortDev i]))))"

section \<open>Buffers and PCI Express\<close>

definition setup_buffers :: "'d mmio \<Rightarrow> kernel \<Rightarrow> 'd life \<Rightarrow> int \<times> 'd life" where
  "setup_buffers b K s =
    (let (rx, rx_dma) = k_dma_rx K;
         (tx, tx_dma) = k_dma_tx K;
         s = acquire DmaTx (acquire DmaRx s);
         s = upd_card (\<lambda>c. c\<lparr>rx_buf_start := rx, rx_buf_read := rx, rx_buf_end := rx + 4096 * 128,
               tx_buf_start := tx, tx_buf_write := tx, tx_buf_read_cached := tx, tx_buf_end := tx + 4096 * 128\<rparr>) s
     in if push_bit 32 1 \<le> rx_dma \<or> push_bit 32 1 \<le> tx_dma then (- EADDRNOTAVAIL, s)
        else
         (let s = wr32 b (ucast rx_dma) 0x8A0 s;
              s = wr32 b (ucast (rx_dma + 4096 * 128)) 0x8A4 s;
              s = wr32 b (ucast tx_dma) 0x8C0 s;
              s = wr32 b (ucast (tx_dma + 4096 * 128)) 0x8C4 s;
              s = wr32 b (ucast rx_dma) 0x8A8 s
          in (0, upd_card (\<lambda>c. c\<lparr>rx_buf_start_dma := rx_dma, tx_buf_start_dma := tx_dma\<rparr>) s)))"

datatype tune_warning = NotGen3x8 | LimitedUpstream | LimitedByCard | LowBandwidth

text \<open>The answer of \<open>pcie_bandwidth_available\<close>: bandwidth in Mbit/s, whether the speed is 8 GT/s and
  the width x8, and whether the limiting device is the card. The result is the return value and the
  warnings that are logged.\<close>

definition tune_pcie_parameters :: "u32 \<times> bool \<times> bool \<times> bool \<Rightarrow> u32 \<Rightarrow> int \<times> tune_warning list" where
  "tune_pcie_parameters bw ports =
    (let (bandwidth, gen3, x8, limdev_is_card) = bw
     in (0, (if \<not> gen3 \<or> \<not> x8 then [NotGen3x8, if \<not> limdev_is_card then LimitedUpstream else LimitedByCard] else [])
          @ (if bandwidth < 10 * ports * 1000 then [LowBandwidth] else [])))"

section \<open>Probing\<close>

text \<open>The stress test: \<open>n\<close> reads of the version register, none of which may be all ones.\<close>

fun stress :: "'d mmio \<Rightarrow> nat \<Rightarrow> 'd life \<Rightarrow> bool \<times> 'd life" where
  "stress b 0 s = (True, s)"
| "stress b (Suc n) s = (let (v, s) = rd32 b 0x0 s in if v = NOT 0 then (False, s) else stress b n s)"

text \<open>Initialising and removing ports in a row; a failure names the port at which it happened.\<close>

fun probe_ports :: "'d mmio \<Rightarrow> kernel \<Rightarrow> nat \<Rightarrow> nat \<Rightarrow> 'd life \<Rightarrow> fault + int \<times> nat \<times> 'd life" where
  "probe_ports b K i 0 s = Inr (0, i, s)"
| "probe_ports b K i (Suc n) s =
    bind_fault (probe_port b K i s)
      (\<lambda>(ret, s). if ret < 0 then Inr (ret, i, s) else probe_ports b K (Suc i) n s)"

fun remove_ports_down :: "nat \<Rightarrow> 'd life \<Rightarrow> fault + 'd life" where
  "remove_ports_down 0 s = Inr s"
| "remove_ports_down (Suc i) s = bind_fault (remove_port i s) (remove_ports_down i)"

text \<open>The labels at the end of \<open>probe\<close>, from the last one up; each falls through to the one before.\<close>

definition error_request_region :: "'d life \<Rightarrow> fault + 'd life" where
  "error_request_region s = release [PciEnabled] s"
definition error_sanity :: "'d life \<Rightarrow> fault + 'd life" where
  "error_sanity s = bind_fault (release [Region] s) error_request_region"
definition error_request_irq :: "'d life \<Rightarrow> fault + 'd life" where
  "error_request_irq s = bind_fault (release [IrqVectors] s) (\<lambda>s. error_sanity (s\<lparr>vectors := 0\<rparr>))"
definition error_hwmon_register :: "'d life \<Rightarrow> fault + 'd life" where
  "error_hwmon_register s = bind_fault (release [Irq 0] s) error_request_irq"
definition error_rx_irq :: "'d life \<Rightarrow> fault + 'd life" where
  "error_rx_irq s = bind_fault (release [SysfsFile] s) error_hwmon_register"
definition error_rx_dropped_irq :: "'d life \<Rightarrow> fault + 'd life" where
  "error_rx_dropped_irq s = bind_fault (release [Irq 1] s) error_rx_irq"
definition error_port_init :: "nat \<Rightarrow> 'd life \<Rightarrow> fault + 'd life" where
  "error_port_init i s =
    bind_fault (remove_ports_down i s) (\<lambda>s. bind_fault (release [Irq 2] s) error_rx_dropped_irq)"
definition error_setup_buffers :: "nat \<Rightarrow> 'd life \<Rightarrow> fault + 'd life" where
  "error_setup_buffers i s =
    bind_fault (release [NapiEnabled] s) (\<lambda>s. error_port_init i (s\<lparr>bus_master := False\<rparr>))"

definition fails :: "int \<Rightarrow> fault + 'd life \<Rightarrow> fault + int \<times> 'd life" where
  "fails ret x = bind_fault x (\<lambda>s. Inr (ret, s))"

text \<open>The ports and buffers, after the interrupts.\<close>

definition probe_net :: "'d mmio \<Rightarrow> kernel \<Rightarrow> nat \<Rightarrow> 'd life \<Rightarrow> fault + int \<times> 'd life" where
  "probe_net b K ports s =
    bind_fault (probe_ports b K 0 ports s)
      (\<lambda>(ret, i, s).
        if ret < 0 then fails ret (error_port_init i s)
        else
         (let s = acquire NapiEnabled (s\<lparr>bus_master := True\<rparr>);
              (ret, s) = setup_buffers b K s
          in if ret < 0 then fails ret (error_setup_buffers ports s) else Inr (0, s)))"

text \<open>The interrupts, the sensor device and the sysfs file.\<close>

definition irq_count :: "nat \<Rightarrow> nat" where
  "irq_count ports = 2 + 4 * ports"

definition probe_irqs :: "'d mmio \<Rightarrow> kernel \<Rightarrow> nat \<Rightarrow> 'd life \<Rightarrow> fault + int \<times> 'd life" where
  "probe_irqs b K ports s =
    (if k_pci_alloc_irq_vectors K (irq_count ports) < 0
     then fails (k_pci_alloc_irq_vectors K (irq_count ports)) (error_sanity s)
     else let s = acquire IrqVectors (s\<lparr>vectors := irq_count ports\<rparr>) in
     if k_request_irq K 0 < 0 then fails (k_request_irq K 0) (error_request_irq s)
     else let s = acquire (Irq 0) s in
     if k_hwmon_register K \<noteq> 0 then fails (k_hwmon_register K) (error_hwmon_register s)
     else let s = acquire Hwmon s in
     if k_device_create_file K \<noteq> 0 then fails (k_device_create_file K) (error_hwmon_register s)
     else let s = acquire SysfsFile s in
     if k_request_irq K 1 < 0 then fails (k_request_irq K 1) (error_rx_irq s)
     else let s = acquire (Irq 1) s in
     if k_request_irq K 2 < 0 then fails (k_request_irq K 2) (error_rx_dropped_irq s)
     else probe_net b K ports ((acquire (Irq 2) s)\<lparr>drvdata := True\<rparr>))"

text \<open>The identification of the card, and the whole function.\<close>

definition probe_card :: "'d mmio \<Rightarrow> kernel \<Rightarrow> u32 \<times> bool \<times> bool \<times> bool \<Rightarrow> 'd life \<Rightarrow> fault + int \<times> 'd life" where
  "probe_card b K bw s =
    (let s = wr32 b 0 0x8A0 s;
         s = wr32 b 0 0x8C0 s;
         s = wr32 b 0 0x8A8 s;
         s = s\<lparr>bus_master := True\<rparr>;
         (version, s) = rd32 b 0x0 s
     in if version AND 0xffff \<noteq> 0x0de5 then fails (- EINVAL) (error_sanity s)
        else
         (let (ok, s) = stress b 0x10000 s in
          if \<not> ok then fails (- EIO) (error_sanity s)
          else
           (let ports = drop_bit 24 version AND 0x0f in
            if of_nat MAX_PORTS < ports then fails (- EINVAL) (error_sanity s)
            else
             (let (githash, s) = rd32 b 0x4 s;
                  (phy_clock, s) = rd32 b 0x20 s
              in if fst (tune_pcie_parameters bw ports) < 0 then fails 0x10000 (error_sanity s)
                 else probe_irqs b K (unat ports) s))))"

definition probe :: "'d mmio \<Rightarrow> kernel \<Rightarrow> u32 \<times> bool \<times> bool \<times> bool \<Rightarrow> 'd life \<Rightarrow> fault + int \<times> 'd life" where
  "probe b K bw s =
    (if \<not> k_devm_kzalloc K then Inr (- ENOMEM, s)
     else let s = acquire CardMem s in
     if k_pci_enable_device K < 0 then Inr (k_pci_enable_device K, s)
     else let s = acquire PciEnabled s in
     if k_pci_enable_pcie_error_reporting K < 0
     then fails (k_pci_enable_pcie_error_reporting K) (error_request_region s)
     else let s = acquire Aer s in
     if k_pci_request_region K < 0 then fails (k_pci_request_region K) (error_request_region s)
     else let s = acquire Region s in
     if k_pci_set_dma_mask K < 0 then fails (k_pci_set_dma_mask K) (error_sanity s)
     else if k_pci_set_consistent_dma_mask K < 0 then fails (k_pci_set_consistent_dma_mask K) (error_sanity s)
     else probe_card b K bw s)"

section \<open>Removal\<close>

fun remove_ports_up :: "nat \<Rightarrow> nat \<Rightarrow> 'd life \<Rightarrow> fault + 'd life" where
  "remove_ports_up i 0 s = Inr s"
| "remove_ports_up i (Suc n) s = bind_fault (remove_port i s) (remove_ports_up (Suc i) n)"

definition remove_card :: "'d mmio \<Rightarrow> 'd life \<Rightarrow> fault + 'd life" where
  "remove_card b s =
    (if \<not> drvdata s then Inr s
     else
       bind_fault (release [NapiEnabled] s)
        (\<lambda>s. let s = wr32 b 0 0x8A0 s;
                 s = wr32 b 0 0x8C0 s;
                 s = wr32 b 0 0x8A8 s;
                 s = s\<lparr>bus_master := False\<rparr>
             in bind_fault (remove_ports_up 0 MAX_PORTS s)
                 (\<lambda>s. bind_fault (release [Irq 2, Irq 1, SysfsFile, Irq 0, IrqVectors] s)
                         (\<lambda>s. release [Region, PciEnabled] (s\<lparr>vectors := 0\<rparr>)))))"

datatype pci_ers_result = PCI_ERS_RESULT_DISCONNECT

definition error_detected :: "'d mmio \<Rightarrow> 'd life \<Rightarrow> fault + pci_ers_result \<times> 'd life" where
  "error_detected b s = bind_fault (remove_card b s) (\<lambda>s. Inr (PCI_ERS_RESULT_DISCONNECT, s))"

section \<open>The module\<close>

text \<open>Class and driver registration: \<open>cls\<close> is the error of \<open>class_create\<close> (0: created), \<open>reg\<close> the
  result of \<open>pci_register_driver\<close>. The state says which of the two exist.\<close>

definition minit :: "int \<Rightarrow> int \<Rightarrow> int \<times> (bool \<times> bool)" where
  "minit cls reg = (if cls \<noteq> 0 then (cls, (False, False)) else if reg < 0 then (1, (True, False)) else (0, (True, True)))"

definition mexit :: "bool \<times> bool \<Rightarrow> bool \<times> bool" where
  "mexit st = (False, False)"

end
