(* ===== verification/DrvLife.thy ===== *)
theory DrvLife
  imports DrvProbe
begin

text \<open>
  Properties of the driver's life cycle (\<open>src/driver/src/board.c\<close>): what is held after a successful
  probe, what a failed probe and a removal leave behind, and the buffers that \<open>setup_buffers\<close> hands
  to the card.
\<close>

section \<open>The ledger\<close>

lemma release_ok: "mset rs \<subseteq># held s \<Longrightarrow> release rs s = Inr (s\<lparr>held := held s - mset rs\<rparr>)"
proof (induction rs arbitrary: s)
  case Nil
  then show ?case by simp
next
  case (Cons r rs)
  have "r \<in># held s" using Cons.prems by (simp add: insert_subset_eq_iff)
  moreover have "mset rs \<subseteq># held s - {#r#}" using Cons.prems by (simp add: insert_subset_eq_iff)
  ultimately show ?case using Cons.IH [of "s\<lparr>held := held s - {#r#}\<rparr>"] by simp
qed

lemma release_missing: "r \<notin># held s \<Longrightarrow> release (r # rs) s = Inl Bug"
  by simp

lemma acquire_fields [simp]:
  "held (acquire r s) = add_mset r (held s)" "drv_of (acquire r s) = drv_of s" "i2cs (acquire r s) = i2cs s"
  "bus_master (acquire r s) = bus_master s" "drvdata (acquire r s) = drvdata s" "vectors (acquire r s) = vectors s"
  by (simp_all add: acquire_def)

lemma access_fields [simp]:
  "vectors (wr32 b v a s) = vectors s" "vectors (snd (rd32 b a s)) = vectors s" "vectors (upd_card f s) = vectors s"
  "held (wr32 b v a s) = held s" "i2cs (wr32 b v a s) = i2cs s" "drvdata (wr32 b v a s) = drvdata s"
  "bus_master (wr32 b v a s) = bus_master s" "the_card (drv_of (wr32 b v a s)) = the_card (drv_of s)"
  "held (snd (rd32 b a s)) = held s" "i2cs (snd (rd32 b a s)) = i2cs s" "drvdata (snd (rd32 b a s)) = drvdata s"
  "bus_master (snd (rd32 b a s)) = bus_master s" "the_card (drv_of (snd (rd32 b a s))) = the_card (drv_of s)"
  "held (upd_card f s) = held s" "i2cs (upd_card f s) = i2cs s" "drvdata (upd_card f s) = drvdata s"
  "bus_master (upd_card f s) = bus_master s" "the_card (drv_of (upd_card f s)) = f (the_card (drv_of s))"
  by (simp_all add: wr32_def rd32_def upd_card_def split_beta Let_def)

text \<open>What a registered port holds, what of it a removal gives back, and what the labels at the end
  of \<open>probe\<close> give back.\<close>

definition port_back :: "nat \<Rightarrow> res multiset" where
  "port_back i = {#NetdevReg i, NapiAdded, I2cAdapter i, Irq (port_irq i), I2cDev i, PortDev i#}"

definition port_res :: "nat \<Rightarrow> res multiset" where
  "port_res i = add_mset (Netdev i) (port_back i)"

definition ports_res :: "nat \<Rightarrow> res multiset" where
  "ports_res n = (\<Sum>i < n. port_res i)"

definition netdevs :: "nat \<Rightarrow> res multiset" where
  "netdevs n = (\<Sum>i < n. {#Netdev i#})"

definition card_back :: "res multiset" where
  "card_back = {#Irq 2, Irq 1, SysfsFile, Irq 0, IrqVectors, Region, PciEnabled#}"

lemma ports_res_Suc: "ports_res (Suc n) = port_res n + ports_res n"
  by (simp add: ports_res_def)

lemma netdevs_Suc: "netdevs (Suc n) = add_mset (Netdev n) (netdevs n)"
  by (simp add: netdevs_def)

text \<open>The successful outcome of the kernel's calls for a port, and for the whole card.\<close>

definition port_calls_ok :: "kernel \<Rightarrow> nat \<Rightarrow> bool" where
  "port_calls_ok K i \<longleftrightarrow> k_alloc_netdev K i \<and> k_i2c_kzalloc K i \<and> k_i2c_request_irq K (port_irq i) = 0
     \<and> 0 \<le> k_i2c_add_adapter K i \<and> k_register_netdev K i = 0"

lemma i2c_probe_ok:
  assumes "port_calls_ok K i"
  shows "\<exists>d s'. fejkon_i2c_probe b K i off (port_irq i) s = (Some d, s')
    \<and> held s' = held s + {#I2cAdapter i, Irq (port_irq i), I2cDev i#} \<and> the_card (drv_of s') = the_card (drv_of s)
    \<and> i2cs s' = i2cs s \<and> drvdata s' = drvdata s \<and> bus_master s' = bus_master s \<and> vectors s' = vectors s
    \<and> base d = off \<and> irq d = port_irq i \<and> fifo_size d = 64 \<and> isr_mask d AND ALTR_I2C_ALL_IRQ = 0"
  using assms
  by (auto simp: fejkon_i2c_probe_def port_calls_ok_def Let_def i2c_dev_new_def altr_i2c_init_def
      altr_i2c_reset_def altr_i2c_core_disable_def altr_i2c_core_enable_def idev_int_enable and.assoc split_beta)

text \<open>The i2c device of a port has the interrupt of the port's vector.\<close>

definition port_i2c :: "nat \<Rightarrow> 'd life \<Rightarrow> bool" where
  "port_i2c i s \<longleftrightarrow> (\<exists>d. i2cs s ! i = Some d \<and> irq d = port_irq i)"

lemma probe_port_ok:
  assumes "port_calls_ok K i" and "length (port (the_card (drv_of s))) = 4"
  shows "\<exists>d s'. probe_port b K i s = Inr (0, s') \<and> held s' = port_res i + held s
    \<and> drvdata s' = drvdata s \<and> bus_master s' = bus_master s \<and> vectors s' = vectors s
    \<and> i2cs s' = (i2cs s)[i := Some d] \<and> irq d = port_irq i
    \<and> port (the_card (drv_of s')) = (port (the_card (drv_of s)))
        [i := Some \<lparr>port_id = of_nat i, net = new_net, refresh_timer = Some (k_jiffies K + 1)\<rparr>]"
proof -
  let ?s = "acquire (PortDev i) (acquire (Netdev i) s)"
  obtain d t where "fejkon_i2c_probe b K i (BAR0_SFP_I2C_OFFSET (of_nat i)) (port_irq i) ?s = (Some d, t)"
    "held t = held ?s + {#I2cAdapter i, Irq (port_irq i), I2cDev i#}" "the_card (drv_of t) = the_card (drv_of s)"
    "drvdata t = drvdata s" "bus_master t = bus_master s" "vectors t = vectors s" "i2cs t = i2cs s" "irq d = port_irq i"
    using i2c_probe_ok [OF assms(1), of b "BAR0_SFP_I2C_OFFSET (of_nat i)" ?s] by auto
  then show ?thesis
    using assms(1) by (intro exI [of _ d]) (simp add: probe_port_def port_calls_ok_def Let_def mod_timer_def
        port_res_def port_back_def add_mset_commute)
qed

section \<open>Rows of ports\<close>

definition new_port :: "kernel \<Rightarrow> nat \<Rightarrow> fejkon_port" where
  "new_port K i = \<lparr>port_id = of_nat i, net = new_net, refresh_timer = Some (k_jiffies K + 1)\<rparr>"

abbreviation ports_of :: "'d life \<Rightarrow> fejkon_port option list" where
  "ports_of s \<equiv> port (the_card (drv_of s))"

lemma probe_ports_ok:
  assumes "\<forall>j. i \<le> j \<and> j < i + n \<longrightarrow> port_calls_ok K j" and "i + n \<le> 4" and "length (ports_of s) = 4" and "length (i2cs s) = 4"
  shows "\<exists>s'. probe_ports b K i n s = Inr (0, i + n, s') \<and> held s' + ports_res i = ports_res (i + n) + held s
    \<and> drvdata s' = drvdata s \<and> bus_master s' = bus_master s \<and> vectors s' = vectors s
    \<and> length (ports_of s') = 4 \<and> length (i2cs s') = 4
    \<and> (\<forall>j < i. i2cs s' ! j = i2cs s ! j) \<and> (\<forall>j. i \<le> j \<and> j < i + n \<longrightarrow> port_i2c j s')
    \<and> (\<forall>j < 4. ports_of s' ! j = (if i \<le> j \<and> j < i + n then Some (new_port K j) else ports_of s ! j))"
  using assms
proof (induction n arbitrary: i s)
  case 0
  then show ?case by auto
next
  case (Suc n)
  obtain d t where t: "probe_port b K i s = Inr (0, t)" "held t = port_res i + held s"
    "drvdata t = drvdata s" "bus_master t = bus_master s" "vectors t = vectors s"
    "ports_of t = (ports_of s)[i := Some (new_port K i)]" "i2cs t = (i2cs s)[i := Some d]" "irq d = port_irq i"
    using probe_port_ok [of K i s b] Suc.prems unfolding new_port_def by auto
  obtain u where u: "probe_ports b K (Suc i) n t = Inr (0, Suc i + n, u)"
    "held u + ports_res (Suc i) = ports_res (Suc i + n) + held t"
    "drvdata u = drvdata t" "bus_master u = bus_master t" "vectors u = vectors t" "length (ports_of u) = 4" "length (i2cs u) = 4"
    "\<forall>j < Suc i. i2cs u ! j = i2cs t ! j" "\<forall>j. Suc i \<le> j \<and> j < Suc i + n \<longrightarrow> port_i2c j u"
    "\<forall>j < 4. ports_of u ! j = (if Suc i \<le> j \<and> j < Suc i + n then Some (new_port K j) else ports_of t ! j)"
    using Suc.IH [of "Suc i" t] Suc.prems t(6,7) by auto
  have "held u + ports_res i = ports_res (i + Suc n) + held s"
    using u(2) t(2) by (simp add: ports_res_Suc ac_simps)
  moreover have "\<forall>j < 4. ports_of u ! j = (if i \<le> j \<and> j < i + Suc n then Some (new_port K j) else ports_of s ! j)"
    using u(10) Suc.prems(2,3) unfolding t(6) by (auto simp: nth_list_update not_less_eq_eq dest: le_antisym)
  moreover have "port_i2c i u"
    using u(8) t(7,8) Suc.prems(2,4) by (auto simp: port_i2c_def)
  then have "port_i2c j u" if "i \<le> j" "j < i + Suc n" for j using that u(9) by (cases "j = i") auto
  moreover have "\<forall>j < i. i2cs u ! j = i2cs s ! j" using u(8) t(7) by simp
  ultimately show ?case using t(1,3-5) u(1,3-7) by simp
qed

lemma remove_port_ok:
  assumes "ports_of s ! i = Some p" and "port_i2c i s" and "port_back i \<subseteq># held s"
  shows "\<exists>s'. remove_port i s = Inr s' \<and> held s' = held s - port_back i \<and> drvdata s' = drvdata s
    \<and> i2cs s' = i2cs s \<and> ports_of s' = (ports_of s)[i := Some (p\<lparr>refresh_timer := None\<rparr>)]"
proof -
  let ?s = "upd_card (\<lambda>c. c\<lparr>port := (port c)[i := Some (p\<lparr>refresh_timer := None\<rparr>)]\<rparr>) s"
  let ?I = "[I2cAdapter i, Irq (port_irq i), I2cDev i]"
  obtain R where R: "held s = R + port_back i" using assms(3) by (metis subset_mset.add_diff_inverse add.commute)
  obtain d where d: "i2cs s ! i = Some d" "irq d = port_irq i" using assms(2) by (auto simp: port_i2c_def)
  have "release [NetdevReg i, NapiAdded] ?s = Inr (?s\<lparr>held := held s - {#NetdevReg i, NapiAdded#}\<rparr>)" (is "_ = Inr ?t")
    unfolding R by (subst release_ok) (auto simp: R port_back_def)
  moreover have "release ?I ?t = Inr (?t\<lparr>held := held ?t - mset ?I\<rparr>)" (is "_ = Inr ?u")
    by (subst release_ok) (auto simp: R port_back_def)
  moreover have "release [PortDev i] ?u = Inr (?u\<lparr>held := held ?u - {#PortDev i#}\<rparr>)"
    by (subst release_ok) (auto simp: R port_back_def)
  ultimately show ?thesis
    using assms(1) d by (simp add: remove_port_def Let_def fejkon_i2c_remove_def R port_back_def)
qed

lemma remove_ports_down_ok:
  assumes "\<forall>j < n. ports_of s ! j \<noteq> None \<and> port_i2c j s" and "n \<le> 4" and "length (ports_of s) = 4"
    and "held s = R + (\<Sum>j < n. port_back j)"
  shows "\<exists>s'. remove_ports_down n s = Inr s' \<and> held s' = R"
  using assms
proof (induction n arbitrary: s)
  case 0
  then show ?case by simp
next
  case (Suc n)
  then obtain p where p: "ports_of s ! n = Some p" "port_i2c n s" by blast
  moreover have "held s = port_back n + (R + (\<Sum>j < n. port_back j))" using Suc.prems(4) by (simp add: ac_simps)
  ultimately obtain t where "remove_port n s = Inr t" "held t = R + (\<Sum>j < n. port_back j)" "i2cs t = i2cs s"
    "ports_of t = (ports_of s)[n := Some (p\<lparr>refresh_timer := None\<rparr>)]"
    using remove_port_ok [of s n p] by auto
  then show ?case using Suc.IH [of t] Suc.prems by (auto simp: nth_list_update port_i2c_def)
qed

lemma remove_ports_up_ok:
  assumes "i + k = 4" and "length (ports_of s) = 4" and "n \<le> 4"
    and "\<forall>j. i \<le> j \<and> j < 4 \<longrightarrow> (ports_of s ! j = None \<longleftrightarrow> n \<le> j)" and "\<forall>j < n. port_i2c j s"
    and "held s = R + (\<Sum>j \<in> {i..<n}. port_back j)"
  shows "\<exists>s'. remove_ports_up i k s = Inr s' \<and> held s' = R \<and> drvdata s' = drvdata s"
  using assms
proof (induction k arbitrary: i s)
  case 0
  then show ?case by simp
next
  case (Suc k)
  show ?case
  proof (cases "n \<le> i")
    case True
    then have "remove_port i s = Inr s" using Suc.prems by (simp add: remove_port_def)
    then show ?thesis using Suc.IH [of "Suc i" s] Suc.prems True by simp
  next
    case False
    then obtain p where p: "ports_of s ! i = Some p" using Suc.prems(1,3,4) by fastforce
    have "held s = port_back i + (R + (\<Sum>j \<in> {Suc i..<n}. port_back j))"
      using Suc.prems(6) False by (simp add: sum.atLeast_Suc_lessThan ac_simps)
    then obtain t where t: "remove_port i s = Inr t" "held t = R + (\<Sum>j \<in> {Suc i..<n}. port_back j)"
      "drvdata t = drvdata s" "ports_of t = (ports_of s)[i := Some (p\<lparr>refresh_timer := None\<rparr>)]" "i2cs t = i2cs s"
      using remove_port_ok [OF p] Suc.prems(5) False by auto
    have "\<forall>j. Suc i \<le> j \<and> j < 4 \<longrightarrow> (ports_of t ! j = None \<longleftrightarrow> n \<le> j)"
      using Suc.prems(2,4) unfolding t(4) by (auto simp: nth_list_update)
    moreover have "\<forall>j < n. port_i2c j t" using Suc.prems(5) t(5) by (simp add: port_i2c_def)
    ultimately show ?thesis using Suc.IH [of "Suc i" t] Suc.prems(1-3) t by auto
  qed
qed

section \<open>Probing\<close>

lemma setup_buffers_ledger:
  assumes "setup_buffers b K s = (ret, s')"
  shows "held s' = {#DmaRx, DmaTx#} + held s \<and> (ret = 0 \<or> ret = - EADDRNOTAVAIL)
    \<and> drvdata s' = drvdata s \<and> bus_master s' = bus_master s \<and> ports_of s' = ports_of s
    \<and> vectors s' = vectors s \<and> i2cs s' = i2cs s"
  using assms by (auto simp: setup_buffers_def Let_def split_beta add_mset_commute split: if_splits)

lemma ports_res_split: "ports_res n = netdevs n + (\<Sum>j < n. port_back j)"
  by (induction n) (simp_all add: ports_res_def netdevs_def port_res_def)

text \<open>Giving back everything that \<open>probe\<close> has acquired, from the different labels.\<close>

lemma unwind:
  "held s = {#PciEnabled#} + B \<Longrightarrow> \<exists>s'. error_request_region s = Inr s' \<and> held s' = B"
  "held s = {#Region, PciEnabled#} + B \<Longrightarrow> \<exists>s'. error_sanity s = Inr s' \<and> held s' = B"
  "held s = {#IrqVectors, Region, PciEnabled#} + B \<Longrightarrow> \<exists>s'. error_request_irq s = Inr s' \<and> held s' = B"
  "held s = {#Irq 0, IrqVectors, Region, PciEnabled#} + B \<Longrightarrow> \<exists>s'. error_hwmon_register s = Inr s' \<and> held s' = B"
  "held s = {#SysfsFile, Irq 0, IrqVectors, Region, PciEnabled#} + B \<Longrightarrow> \<exists>s'. error_rx_irq s = Inr s' \<and> held s' = B"
  "held s = {#Irq 1, SysfsFile, Irq 0, IrqVectors, Region, PciEnabled#} + B \<Longrightarrow>
    \<exists>s'. error_rx_dropped_irq s = Inr s' \<and> held s' = B"
  by (simp_all add: error_request_region_def error_sanity_def error_request_irq_def error_hwmon_register_def
      error_rx_irq_def error_rx_dropped_irq_def)

lemma error_port_init_ok:
  assumes "\<forall>j < n. ports_of s ! j \<noteq> None \<and> port_i2c j s" and "n \<le> 4" and "length (ports_of s) = 4"
    and "held s = card_back + B + (\<Sum>j < n. port_back j)"
  shows "\<exists>s'. error_port_init n s = Inr s' \<and> held s' = B"
proof -
  obtain t where t: "remove_ports_down n s = Inr t" "held t = card_back + B"
    using remove_ports_down_ok [OF assms] by blast
  then have "release [Irq 2] t = Inr (t\<lparr>held := held t - {#Irq 2#}\<rparr>)" (is "_ = Inr ?u")
    by (simp add: card_back_def)
  moreover have "\<exists>s'. error_rx_dropped_irq ?u = Inr s' \<and> held s' = B"
    by (rule unwind) (simp add: t(2) card_back_def)
  ultimately show ?thesis using t(1) by (auto simp: error_port_init_def)
qed

text \<open>With both buffers below 4 GiB, \<open>setup_buffers\<close> succeeds.\<close>

lemma setup_buffers_succeeds:
  assumes "unat (snd (k_dma_rx K)) < 2 ^ 32" and "unat (snd (k_dma_tx K)) < 2 ^ 32"
  shows "\<exists>s'. setup_buffers b K s = (0, s')"
  using assms by (simp add: setup_buffers_def Let_def split_beta word_le_nat_alt)

definition fresh_ports :: "'d life \<Rightarrow> bool" where
  "fresh_ports s \<longleftrightarrow> ports_of s = [None, None, None, None] \<and> length (i2cs s) = 4"

text \<open>A bound card with \<open>n\<close> ports: what is held, how many vectors are allocated, and which ports exist.\<close>

definition bound_res :: "nat \<Rightarrow> res multiset" where
  "bound_res n = {#CardMem, Aer, Hwmon, NapiEnabled, DmaRx, DmaTx#} + card_back + ports_res n"

definition card_bound :: "nat \<Rightarrow> 'd life \<Rightarrow> bool" where
  "card_bound n s \<longleftrightarrow> n \<le> 4 \<and> held s = bound_res n \<and> drvdata s \<and> length (ports_of s) = 4
     \<and> vectors s = 2 + 4 * n \<and> (\<forall>j < n. port_i2c j s) \<and> (\<forall>j < 4. ports_of s ! j = None \<longleftrightarrow> n \<le> j)"

lemma probe_net_result:
  assumes "\<forall>j < 4. port_calls_ok K j" and "n \<le> 4" and "fresh_ports s" and "drvdata s" and "vectors s = 2 + 4 * n"
    and "held s = card_back + {#CardMem, Aer, Hwmon#}"
  shows "\<exists>ret s' t. probe_net b K n s = Inr (ret, s') \<and> (ret = 0 \<longrightarrow> setup_buffers b K t = (0, s')) \<and>
    (0 \<le> ret \<or> fst (setup_buffers b K t) \<noteq> 0) \<and>
    (ret = 0 \<and> card_bound n s' \<or> ret < 0 \<and> held s' = {#CardMem, Aer, Hwmon, DmaRx, DmaTx#} + netdevs n)"
proof -
  obtain t where t: "probe_ports b K 0 n s = Inr (0, n, t)" "held t = ports_res n + held s"
    "drvdata t" "length (ports_of t) = 4" "vectors t = vectors s" "\<forall>j < n. port_i2c j t"
    "\<forall>j < 4. ports_of t ! j = (if j < n then Some (new_port K j) else ports_of s ! j)"
    using probe_ports_ok [of 0 n K s b] assms by (auto simp: fresh_ports_def ports_res_def)
  let ?t = "acquire NapiEnabled (t\<lparr>bus_master := True\<rparr>)"
  obtain ret u where u: "setup_buffers b K ?t = (ret, u)" by (metis surj_pair)
  note led = setup_buffers_ledger [OF u]
  have none: "ports_of s ! j = None" if "j < 4" for j
    using assms(3) that by (auto simp: fresh_ports_def nth_Cons split: nat.splits)
  show ?thesis
  proof (cases "ret < 0")
    case True
    let ?u = "u\<lparr>held := held u - {#NapiEnabled#}, bus_master := False\<rparr>"
    have "\<exists>s'. error_port_init n ?u = Inr s' \<and> held s' = {#CardMem, Aer, Hwmon, DmaRx, DmaTx#} + netdevs n"
      by (rule error_port_init_ok)
        (use led t(2,4,6,7) assms(2,6) in \<open>auto simp: ports_res_split add_mset_commute port_i2c_def\<close>)
    then obtain s' where "error_port_init n ?u = Inr s'" "held s' = {#CardMem, Aer, Hwmon, DmaRx, DmaTx#} + netdevs n"
      by blast
    moreover have "release [NapiEnabled] u = Inr (u\<lparr>held := held u - {#NapiEnabled#}\<rparr>)" using led by simp
    ultimately show ?thesis
      using t(1) u True
      by (intro exI [of _ ret] exI [of _ s'] exI [of _ ?t]) (simp add: probe_net_def fails_def error_setup_buffers_def)
  next
    case False
    then have "ret = 0" using led by (simp add: errno_defs) 
    then have "card_bound n u"
      using led t assms(2,5,6) none unfolding card_bound_def bound_res_def port_i2c_def
      by (auto simp: ac_simps add_mset_commute)
    then show ?thesis using t(1) u \<open>ret = 0\<close> by (intro exI [of _ ret] exI [of _ u] exI [of _ ?t]) (simp add: probe_net_def)
  qed
qed

text \<open>Everything but the ports: what a failed probe leaves is what is never given back.\<close>

definition probe_left :: "int \<Rightarrow> nat \<Rightarrow> 'd life \<Rightarrow> bool" where
  "probe_left ret n s \<longleftrightarrow> (ret = 0 \<and> card_bound n s \<or>
     ret \<noteq> 0 \<and> n \<le> 4 \<and> held s \<subseteq># {#CardMem, Aer, Hwmon, DmaRx, DmaTx#} + netdevs n)"

lemma fails_left:
  assumes "\<exists>s'. x = Inr s' \<and> held s' = B" and "B \<subseteq># {#CardMem, Aer, Hwmon#}" and "ret \<noteq> 0" and "n \<le> 4"
  shows "\<exists>s'. fails ret x = Inr (ret, s') \<and> probe_left ret n s'"
proof -
  have "B \<subseteq># {#CardMem, Aer, Hwmon#} + ({#DmaRx, DmaTx#} + netdevs n)"
    using assms(2) by (metis mset_subset_eq_add_left subset_mset.order_trans)
  then show ?thesis using assms by (auto simp: fails_def probe_left_def add_mset_commute)
qed

lemma probe_irqs_result:
  assumes "\<forall>j < 4. port_calls_ok K j" and "n \<le> 4" and "fresh_ports s"
    and "held s = {#Region, PciEnabled, Aer, CardMem#}"
  shows "\<exists>ret s'. probe_irqs b K n s = Inr (ret, s') \<and> probe_left ret n s'"
proof -
  note left = fails_left [OF unwind(2)] fails_left [OF unwind(3)] fails_left [OF unwind(4)]
    fails_left [OF unwind(5)] fails_left [OF unwind(6)]
  let ?s = "acquire SysfsFile (acquire Hwmon (acquire (Irq 0) (acquire IrqVectors (s\<lparr>vectors := irq_count n\<rparr>))))"
  let ?n = "(acquire (Irq 2) (acquire (Irq 1) ?s))\<lparr>drvdata := True\<rparr>"
  have "held ?n = card_back + {#CardMem, Aer, Hwmon#}"
    using assms(4) by (simp add: card_back_def add_mset_commute)
  moreover have "fresh_ports ?n" "vectors ?n = 2 + 4 * n" using assms(3) by (simp_all add: fresh_ports_def irq_count_def)
  ultimately obtain ret s' where net: "probe_net b K n ?n = Inr (ret, s')"
    "ret = 0 \<and> card_bound n s' \<or> ret < 0 \<and> held s' = {#CardMem, Aer, Hwmon, DmaRx, DmaTx#} + netdevs n"
    using probe_net_result [OF assms(1,2), of ?n b] by auto
  then have net': "\<exists>ret s'. probe_net b K n ?n = Inr (ret, s') \<and> probe_left ret n s'"
    using assms(2) by (auto simp: probe_left_def)
  consider "k_pci_alloc_irq_vectors K (irq_count n) < 0" | "k_pci_alloc_irq_vectors K (irq_count n) \<ge> 0" "k_request_irq K 0 < 0"
    | "k_pci_alloc_irq_vectors K (irq_count n) \<ge> 0" "k_request_irq K 0 \<ge> 0" "k_hwmon_register K \<noteq> 0 \<or> k_device_create_file K \<noteq> 0"
    | "k_pci_alloc_irq_vectors K (irq_count n) \<ge> 0" "k_request_irq K 0 \<ge> 0" "k_hwmon_register K = 0" "k_device_create_file K = 0"
      "k_request_irq K 1 < 0"
    | "k_pci_alloc_irq_vectors K (irq_count n) \<ge> 0" "k_request_irq K 0 \<ge> 0" "k_hwmon_register K = 0" "k_device_create_file K = 0"
      "k_request_irq K 1 \<ge> 0"
    by linarith
  then show ?thesis
  proof cases
    case 1
    then have "\<exists>s'. fails (k_pci_alloc_irq_vectors K (irq_count n)) (error_sanity s) = Inr (k_pci_alloc_irq_vectors K (irq_count n), s')
        \<and> probe_left (k_pci_alloc_irq_vectors K (irq_count n)) n s'"
      using assms by (intro left(1) [where B = "{#Aer, CardMem#}"]) simp_all
    then show ?thesis using 1 by (auto simp: probe_irqs_def)
  next
    case 2
    then have "\<exists>s'. fails (k_request_irq K 0) (error_request_irq (acquire IrqVectors (s\<lparr>vectors := irq_count n\<rparr>))) = Inr (k_request_irq K 0, s')
        \<and> probe_left (k_request_irq K 0) n s'"
      using assms by (intro left(2) [where B = "{#Aer, CardMem#}"]) simp_all
    then show ?thesis using 2 by (auto simp: probe_irqs_def Let_def)
  next
    case 3
    let ?i = "acquire (Irq 0) (acquire IrqVectors (s\<lparr>vectors := irq_count n\<rparr>))"
    have hw: "\<exists>s'. fails r (error_hwmon_register ?i) = Inr (r, s') \<and> probe_left r n s'" if "r \<noteq> 0" for r
      using assms that by (intro left(3) [where B = "{#Aer, CardMem#}"]) simp_all
    have hw': "\<exists>s'. fails r (error_hwmon_register (acquire Hwmon ?i)) = Inr (r, s') \<and> probe_left r n s'" if "r \<noteq> 0" for r
      using assms that by (intro left(3) [where B = "{#Hwmon, Aer, CardMem#}"]) (simp_all add: add_mset_commute)
    show ?thesis
      using 3 hw [of "k_hwmon_register K"] hw' [of "k_device_create_file K"]
      by (cases "k_hwmon_register K = 0") (auto simp: probe_irqs_def Let_def)
  next
    case 4
    then have "\<exists>s'. fails (k_request_irq K 1) (error_rx_irq ?s) = Inr (k_request_irq K 1, s')
        \<and> probe_left (k_request_irq K 1) n s'"
      using assms by (intro left(4) [where B = "{#Hwmon, Aer, CardMem#}"]) (simp_all add: add_mset_commute)
    then show ?thesis using 4 by (auto simp: probe_irqs_def Let_def)
  next
    case 5
    have dr: "\<exists>s'. fails r (error_rx_dropped_irq (acquire (Irq 1) ?s)) = Inr (r, s') \<and> probe_left r n s'" if "r \<noteq> 0" for r
      using assms that by (intro left(5) [where B = "{#Hwmon, Aer, CardMem#}"]) (simp_all add: add_mset_commute)
    show ?thesis
      using 5 net' dr [of "k_request_irq K 2"] by (cases "k_request_irq K 2 < 0") (auto simp: probe_irqs_def Let_def)
  qed
qed

lemma stress_fields [simp]:
  "held (snd (stress b n s)) = held s" "the_card (drv_of (snd (stress b n s))) = the_card (drv_of s)"
  "i2cs (snd (stress b n s)) = i2cs s"
  by (induction n arbitrary: s) (simp_all add: split_beta Let_def)

lemma probe_card_result:
  assumes "\<forall>j < 4. port_calls_ok K j" and "fresh_ports s" and "held s = {#Region, PciEnabled, Aer, CardMem#}"
  shows "\<exists>ret s' n. probe_card b K bw s = Inr (ret, s') \<and> probe_left ret n s'"
proof -
  have fail: "\<exists>s'. fails r (error_sanity t) = Inr (r, s') \<and> probe_left r 0 s'" if "held t = held s" "r \<noteq> 0" for t :: "'a life" and r
    using assms(3) that by (intro fails_left [OF unwind(2), where B = "{#Aer, CardMem#}"]) simp_all
  let ?w = "(wr32 b 0 0x8A8 (wr32 b 0 0x8C0 (wr32 b 0 0x8A0 s)))\<lparr>bus_master := True\<rparr>"
  let ?v = "fst (rd32 b 0x0 ?w)" and ?s1 = "snd (rd32 b 0x0 ?w)"
  let ?s2 = "snd (stress b 0x10000 ?s1)" and ?p = "drop_bit 24 ?v AND 0x0f"
  let ?s4 = "snd (rd32 b 0x20 (snd (rd32 b 0x4 ?s2)))"
  have tune: "fst (tune_pcie_parameters bw p) = 0" for p
    by (simp add: tune_pcie_parameters_def split_beta Let_def)
  have held: "held ?s1 = held s" "held ?s2 = held s" "held ?s4 = held s" "fresh_ports ?s4"
    using assms(2) by (simp_all add: fresh_ports_def)
  consider "?v AND 0xffff \<noteq> 0x0de5" | "?v AND 0xffff = 0x0de5" "\<not> fst (stress b 0x10000 ?s1)"
    | "?v AND 0xffff = 0x0de5" "fst (stress b 0x10000 ?s1)" "of_nat MAX_PORTS < ?p"
    | "?v AND 0xffff = 0x0de5" "fst (stress b 0x10000 ?s1)" "\<not> of_nat MAX_PORTS < ?p" by blast
  then show ?thesis
  proof cases
    case 4
    have "unat ?p \<le> 4" using 4(3) by (simp add: MAX_PORTS_def not_less word_le_nat_alt)
    then obtain ret s' where "probe_irqs b K (unat ?p) ?s4 = Inr (ret, s')" "probe_left ret (unat ?p) s'"
      using probe_irqs_result [OF assms(1) _ held(4)] assms(3) held(3) by metis
    then show ?thesis using 4 tune by (auto simp: probe_card_def split_beta Let_def)
  qed (use fail [OF held(1), of "- EINVAL"] fail [OF held(2), of "- EINVAL"] fail [OF held(2), of "- EIO"]
      in \<open>auto simp: probe_card_def split_beta Let_def errno_defs\<close>)
qed

lemma probe_left_early:
  assumes "r \<noteq> 0" and "held t \<subseteq># {#CardMem#}"
  shows "probe_left r 0 t"
proof -
  have "held t \<subseteq># {#CardMem#} + ({#Aer, Hwmon, DmaRx, DmaTx#} + netdevs 0)"
    using assms(2) by (metis mset_subset_eq_add_left subset_mset.order_trans)
  then show ?thesis using assms(1) by (simp add: probe_left_def netdevs_def add_mset_commute)
qed

lemma probe_result:
  assumes "\<forall>j < 4. port_calls_ok K j" and "fresh_ports s" and "held s = {#}"
  shows "\<exists>ret s' n. probe b K bw s = Inr (ret, s') \<and> probe_left ret n s'"
proof -
  let ?s1 = "acquire PciEnabled (acquire CardMem s)"
  let ?s3 = "acquire Region (acquire Aer ?s1)"
  have e1: "\<exists>s'. fails r (error_request_region ?s1) = Inr (r, s') \<and> probe_left r 0 s'" if "r \<noteq> 0" for r
    using assms(3) that by (intro fails_left [OF unwind(1), where B = "{#CardMem#}"]) simp_all
  have e2: "\<exists>s'. fails r (error_request_region (acquire Aer ?s1)) = Inr (r, s') \<and> probe_left r 0 s'" if "r \<noteq> 0" for r
    using assms(3) that by (intro fails_left [OF unwind(1), where B = "{#Aer, CardMem#}"]) (simp_all add: add_mset_commute)
  have e3: "\<exists>s'. fails r (error_sanity ?s3) = Inr (r, s') \<and> probe_left r 0 s'" if "r \<noteq> 0" for r
    using assms(3) that by (intro fails_left [OF unwind(2), where B = "{#Aer, CardMem#}"]) (simp_all add: add_mset_commute)
  have ok: "\<exists>ret s' n. probe_card b K bw ?s3 = Inr (ret, s') \<and> probe_left ret n s'"
    using assms by (intro probe_card_result) (simp_all add: fresh_ports_def add_mset_commute)
  consider "\<not> k_devm_kzalloc K" | "k_devm_kzalloc K" "k_pci_enable_device K < 0"
    | "k_devm_kzalloc K" "k_pci_enable_device K \<ge> 0" "k_pci_enable_pcie_error_reporting K < 0"
    | "k_devm_kzalloc K" "k_pci_enable_device K \<ge> 0" "k_pci_enable_pcie_error_reporting K \<ge> 0"
    by linarith
  then show ?thesis
  proof cases
    case 4
    then show ?thesis
      using ok e2 [of "k_pci_request_region K"] e3 [of "k_pci_set_dma_mask K"] e3 [of "k_pci_set_consistent_dma_mask K"]
      by (auto simp: probe_def Let_def) blast+
  qed (use assms(3) e1 [of "k_pci_enable_pcie_error_reporting K"] probe_left_early [of "- ENOMEM" s]
        probe_left_early [of "k_pci_enable_device K" "acquire CardMem s"] in \<open>auto simp: probe_def Let_def errno_defs\<close>)
qed

text \<open>
  C6. \<open>probe\<close> on any device and for any outcome of the kernel's calls for the card (those for the
  ports succeeding): it always returns. If it returns 0 the card is bound: every resource of the card
  and of its at most four ports is held exactly once. Otherwise everything is given back, except
  what this driver never gives back: the error reporting, the network devices and the DMA buffers
  (and the managed allocation and sensor device, which the kernel frees).
\<close>

theorem probe_binds_or_gives_back:
  assumes "\<forall>j < 4. port_calls_ok K j" and "fresh_ports s" and "held s = {#}"
  shows "\<exists>ret s' n. probe b K bw s = Inr (ret, s') \<and> n \<le> 4 \<and>
    (if ret = 0 then card_bound n s' else held s' \<subseteq># {#CardMem, Aer, Hwmon, DmaRx, DmaTx#} + netdevs n)"
proof -
  obtain ret s' n where "probe b K bw s = Inr (ret, s')" "probe_left ret n s'"
    using probe_result [OF assms] by blast
  then show ?thesis
    by (intro exI [of _ ret] exI [of _ s'] exI [of _ n]) (auto simp: probe_left_def card_bound_def)
qed

section \<open>Removal\<close>

lemma remove_card_ok:
  assumes "card_bound n s"
  shows "\<exists>s'. remove_card b s = Inr s' \<and> held s' = {#CardMem, Aer, Hwmon, DmaRx, DmaTx#} + netdevs n \<and> drvdata s'"
proof -
  have b: "n \<le> 4" "held s = bound_res n" "drvdata s" "length (ports_of s) = 4"
    "\<forall>j < 4. ports_of s ! j = None \<longleftrightarrow> n \<le> j" "\<forall>j < n. port_i2c j s"
    using assms by (simp_all add: card_bound_def)
  let ?B = "{#CardMem, Aer, Hwmon, DmaRx, DmaTx#} + netdevs n"
  have held: "held s = add_mset NapiEnabled (card_back + ?B + (\<Sum>j \<in> {0..<n}. port_back j))"
    unfolding b(2) bound_res_def ports_res_split by (simp add: atLeast0LessThan add_mset_commute)
  let ?s = "s\<lparr>held := held s - {#NapiEnabled#}\<rparr>"
  let ?t = "(wr32 b 0 0x8A8 (wr32 b 0 0x8C0 (wr32 b 0 0x8A0 ?s)))\<lparr>bus_master := False\<rparr>"
  have ht: "held ?t = card_back + ?B + (\<Sum>j \<in> {0..<n}. port_back j)" using held by simp
  have "\<exists>u. remove_ports_up 0 4 ?t = Inr u \<and> held u = card_back + ?B \<and> drvdata u = drvdata ?t"
    by (rule remove_ports_up_ok [OF _ _ _ _ _ ht]) (use b in \<open>simp_all add: port_i2c_def\<close>)
  then obtain u where u: "remove_ports_up 0 MAX_PORTS ?t = Inr u" "held u = card_back + ?B" "drvdata u = drvdata ?t"
    unfolding MAX_PORTS_def by blast
  have "release [Irq 2, Irq 1, SysfsFile, Irq 0, IrqVectors] u = Inr (u\<lparr>held := {#Region, PciEnabled#} + ?B\<rparr>)"
    by (subst release_ok) (simp_all add: u(2) card_back_def)
  then show ?thesis
    using u(1,3) b(3) held by (auto simp: remove_card_def Let_def)
qed

text \<open>
  C11. \<open>remove\<close> of a bound card gives back, without ever giving back something that is not held, all
  interrupts, ports and card resources; what stays behind are the error reporting, the network
  devices (which are unregistered but never freed) and the two DMA buffers.
\<close>

theorem remove_gives_back:
  assumes "card_bound n s"
  shows "\<exists>s'. remove_card b s = Inr s' \<and> held s' = {#CardMem, Aer, Hwmon, DmaRx, DmaTx#} + netdevs n"
  using remove_card_ok [OF assms] by blast

text \<open>
  C27. \<open>error_detected\<close> calls \<open>remove\<close> itself, but the device stays bound and the kernel calls
  \<open>remove\<close> again when the driver is unloaded or the device unplugged: the driver data is still
  set, and the second call gives back what is no longer held.
\<close>

theorem remove_after_error_detected:
  assumes "card_bound n s"
  shows "\<exists>s'. error_detected b s = Inr (PCI_ERS_RESULT_DISCONNECT, s') \<and> remove_card b s' = Inl Bug"
proof -
  obtain t where t: "remove_card b s = Inr t" "held t = {#CardMem, Aer, Hwmon, DmaRx, DmaTx#} + netdevs n" "drvdata t"
    using remove_card_ok [OF assms, of b] by blast
  have "NapiEnabled \<notin># netdevs k" for k by (induction k) (simp_all add: netdevs_def)
  then have "remove_card b t = Inl Bug" using t(2,3) by (simp add: remove_card_def)
  then show ?thesis using t(1) by (simp add: error_detected_def)
qed

section \<open>A port that fails\<close>

lemma probe_ports_app:
  assumes "probe_ports b K i n s = Inr (0, i + n, t)"
  shows "probe_ports b K i (n + k) s = probe_ports b K (i + n) k t"
  using assms
proof (induction n arbitrary: i s)
  case (Suc n)
  then show ?case
    by (cases "probe_port b K i s") (auto split: prod.splits if_splits)
qed simp

text \<open>
  C26. When the network device of a port cannot be registered, \<open>probe\<close> undoes the ports before it, but
  of the failing port only the NAPI context: its network device, port device, i2c device, i2c
  adapter and the handler of its i2c interrupt stay behind, while the interrupt vectors are freed.
\<close>

theorem probe_port_failure_leaks:
  assumes "\<forall>j < k. port_calls_ok K j" and "k < n" and "n \<le> 4" and "fresh_ports s"
    and "port_calls_ok (K\<lparr>k_register_netdev := \<lambda>_. 0\<rparr>) k" and "k_register_netdev K k < 0"
    and "held s = card_back + {#CardMem, Aer, Hwmon#}"
  shows "\<exists>s'. probe_net b K n s = Inr (k_register_netdev K k, s')
    \<and> held s' = {#CardMem, Aer, Hwmon, Netdev k, PortDev k, I2cDev k, Irq (port_irq k), I2cAdapter k#} + netdevs k"
proof -
  let ?L = "{#Netdev k, PortDev k, I2cDev k, Irq (port_irq k), I2cAdapter k#}"
  obtain t where t: "probe_ports b K 0 k s = Inr (0, k, t)" "held t = ports_res k + held s"
    "length (ports_of t) = 4" "\<forall>j < 4. ports_of t ! j = (if j < k then Some (new_port K j) else ports_of s ! j)"
    "\<forall>j < k. port_i2c j t"
    using probe_ports_ok [of 0 k K s b] assms by (auto simp: fresh_ports_def ports_res_def)
  have calls: "k_alloc_netdev K k" "k_i2c_kzalloc K k" "k_i2c_request_irq K (port_irq k) = 0" "0 \<le> k_i2c_add_adapter K k"
    using assms(5) by (simp_all add: port_calls_ok_def)
  have "\<exists>u. probe_port b K k t = Inr (k_register_netdev K k, u) \<and> held u = ?L + held t \<and> ports_of u = ports_of t
      \<and> (\<forall>j < k. port_i2c j u)"
    using t(5) calls assms(6) by (simp add: probe_port_def fejkon_i2c_probe_def Let_def add_mset_commute port_i2c_def)
  then obtain u where u: "probe_port b K k t = Inr (k_register_netdev K k, u)" "held u = ?L + held t" "ports_of u = ports_of t"
    "\<forall>j < k. port_i2c j u"
    by blast
  obtain d where d: "n = k + Suc d" using assms(2) by (metis add_Suc_right less_iff_Suc_add)
  have "probe_ports b K 0 n s = Inr (k_register_netdev K k, k, u)"
    unfolding d using probe_ports_app [of b K 0 k s t "Suc d"] t(1) u(1) assms(6) by simp
  moreover have "\<exists>s'. error_port_init k u = Inr s' \<and> held s' = {#CardMem, Aer, Hwmon#} + ?L + netdevs k"
  proof (rule error_port_init_ok)
    show "held u = card_back + ({#CardMem, Aer, Hwmon#} + ?L + netdevs k) + (\<Sum>j<k. port_back j)"
      unfolding u(2) t(2) assms(7) ports_res_split by (simp add: add_mset_commute)
  qed (use t(3,4) u(3,4) assms(2,3) in auto)
  ultimately show ?thesis
    using assms(6) by (auto simp: probe_net_def fails_def add_mset_commute)
qed

section \<open>Interrupt vectors and buffers\<close>

lemma port_irq_eq: "i < 4 \<Longrightarrow> port_irq i = 3 + i"
  unfolding port_irq_def PORT_SFP_I2C_IRQ_def by (subst unat_add_no_wrap) (simp_all add: unat_of_nat_small)

lemma count_port_irqs:
  assumes "n \<le> 4"
  shows "count (ports_res n) (Irq v) = (if 3 \<le> v \<and> v < 3 + n then 1 else 0)"
  using assms
proof (induction n)
  case (Suc n)
  then show ?case by (auto simp: ports_res_Suc port_res_def port_back_def port_irq_eq)
qed (simp add: ports_res_def)

text \<open>
  C36. When \<open>probe\<close> succeeds, 2 + 4 * n interrupt vectors are allocated for the n ports of the card,
  and exactly the vectors 0 to n + 2 have a handler, each exactly one. For a card with a port these
  vectors are allocated, and 3 * n - 1 of them are never used; for a card without ports vector 2 is
  used although only 0 and 1 are allocated.
\<close>

theorem irq_vectors_used:
  assumes "\<forall>j < 4. port_calls_ok K j" and "fresh_ports s" and "held s = {#}" and "probe b K bw s = Inr (0, s')"
  shows "\<exists>n \<le> 4. card_bound n s' \<and> vectors s' = 2 + 4 * n
    \<and> (\<forall>v. count (held s') (Irq v) = (if v < 3 + n then 1 else 0))
    \<and> (if n = 0 then vectors s' = 2 \<and> Irq 2 \<in># held s'
       else 3 + n \<le> vectors s' \<and> card {v. v < vectors s' \<and> Irq v \<notin># held s'} = 3 * n - 1)"
proof -
  obtain n where "probe_left 0 n s'" using probe_result [OF assms(1-3), of b bw] assms(4) by auto
  then have n: "n \<le> 4" "card_bound n s'" "vectors s' = 2 + 4 * n" "held s' = bound_res n"
    by (simp_all add: probe_left_def card_bound_def)
  have irq: "count (held s') (Irq v) = (if v < 3 + n then 1 else 0)" for v
    using count_port_irqs [OF n(1), of v] n(4) by (auto simp: bound_res_def card_back_def)
  have mem: "Irq v \<in># held s' \<longleftrightarrow> v < 3 + n" for v using irq [of v] by (metis count_eq_zero_iff zero_neq_one)
  have "{v. v < vectors s' \<and> Irq v \<notin># held s'} = {3 + n..<2 + 4 * n}" unfolding mem n(3) by auto
  moreover have "Irq 2 \<in># held s'" by (simp add: mem)
  ultimately show ?thesis
    using n(1-3) irq by (intro exI [of _ n] conjI) simp_all
qed

text \<open>
  C34. \<open>setup_buffers\<close> on a register file, for buffers with any bus addresses: it refuses exactly
  those with an address of 4 GiB or more, with \<open>-EADDRNOTAVAIL\<close> and without touching the device. The
  start registers then hold the addresses, but the end addresses are computed modulo 2 ^ 32: the end
  of a buffer in the last 512 KiB below 4 GiB is accepted and programmed as an address below its start.
\<close>

theorem setup_buffers_end_wraps:
  assumes "k_dma_rx K = (rx, rx_dma)" and "k_dma_tx K = (tx, tx_dma)" and "setup_buffers regfile K s = (ret, s')"
  defines "reg \<equiv> dev (drv_of s')"
  shows "(if unat rx_dma < 2 ^ 32 \<and> unat tx_dma < 2 ^ 32
     then ret = 0 \<and> unat (reg 0x8A0) = unat rx_dma \<and> unat (reg 0x8C0) = unat tx_dma
       \<and> unat (reg 0x8A4) = (unat rx_dma + 0x80000) mod 2 ^ 32 \<and> unat (reg 0x8C4) = (unat tx_dma + 0x80000) mod 2 ^ 32
       \<and> (reg 0x8A4 < reg 0x8A0 \<longleftrightarrow> 0xfff80000 \<le> rx_dma) \<and> (reg 0x8C4 < reg 0x8C0 \<longleftrightarrow> 0xfff80000 \<le> tx_dma)
     else ret = - EADDRNOTAVAIL \<and> reg = dev (drv_of s))"
proof (cases "unat rx_dma < 2 ^ 32 \<and> unat tx_dma < 2 ^ 32")
  case True
  then have "\<not> push_bit 32 1 \<le> rx_dma" "\<not> push_bit 32 1 \<le> tx_dma" by (simp_all add: word_le_nat_alt)
  then have r: "ret = 0" "reg 0x8A0 = ucast rx_dma" "reg 0x8A4 = ucast (rx_dma + 0x80000)"
    "reg 0x8C0 = ucast tx_dma" "reg 0x8C4 = ucast (tx_dma + 0x80000)"
    using assms by (auto simp: setup_buffers_def Let_def wr32_def upd_card_def iowrite32_def)
  have u: "unat (ucast d :: u32) = unat d" "unat (ucast (d + 0x80000) :: u32) = (unat d + 0x80000) mod 2 ^ 32"
    "(unat d + 0x80000) mod 2 ^ 32 < unat d \<longleftrightarrow> 0xfff80000 \<le> d" if "unat d < 2 ^ 32" for d :: u64
  proof -
    show "unat (ucast d :: u32) = unat d" using that by (intro unat_ucast_small) simp
    have "unat (d + 0x80000) = unat d + 0x80000" using that by (subst unat_add_no_wrap) simp_all
    then show "unat (ucast (d + 0x80000) :: u32) = (unat d + 0x80000) mod 2 ^ 32" by (simp add: unsigned_ucast_eq take_bit_eq_mod)
    show "(unat d + 0x80000) mod 2 ^ 32 < unat d \<longleftrightarrow> 0xfff80000 \<le> d"
      using that by (cases "unat d + 0x80000 < 2 ^ 32") (simp_all add: word_le_nat_alt mod_if)
  qed
  show ?thesis using True r u [of rx_dma] u [of tx_dma] by (simp add: word_less_nat_alt)
next
  case False
  then have "push_bit 32 1 \<le> rx_dma \<or> push_bit 32 1 \<le> tx_dma" by (auto simp: word_le_nat_alt)
  then show ?thesis using assms False by (auto simp: setup_buffers_def Let_def upd_card_def)
qed

section \<open>Concrete instances\<close>

definition demo_kernel :: kernel where
  "demo_kernel = \<lparr>k_devm_kzalloc = True, k_pci_enable_device = 0, k_pci_enable_pcie_error_reporting = 0,
     k_pci_request_region = 0, k_pci_set_dma_mask = 0, k_pci_set_consistent_dma_mask = 0,
     k_pci_alloc_irq_vectors = (\<lambda>n. int n), k_request_irq = (\<lambda>_. 0), k_hwmon_register = 0, k_device_create_file = 0,
     k_alloc_netdev = (\<lambda>_. True), k_i2c_kzalloc = (\<lambda>_. True), k_i2c_request_irq = (\<lambda>_. 0),
     k_i2c_add_adapter = (\<lambda>_. 0), k_register_netdev = (\<lambda>_. 0),
     k_dma_rx = (0xffff888000100000, 0x100000), k_dma_tx = (0xffff888000200000, 0x200000), k_jiffies = 0\<rparr>"

definition demo_life :: "(u32 \<Rightarrow> u32) life" where
  "demo_life = \<lparr>drv_of = demo_drv 0 0, i2cs = [None, None, None, None], held = {#},
     vectors = 0, bus_master = False, drvdata = False\<rparr>"

definition demo_bound :: "(u32 \<Rightarrow> u32) life" where
  "demo_bound = upd_card (\<lambda>c. c\<lparr>port := [Some (new_port demo_kernel 0), Some (new_port demo_kernel 1), None, None]\<rparr>)
     (demo_life\<lparr>i2cs := [Some (i2c_dev_new 0x140 3), Some (i2c_dev_new 0x240 4), None, None],
        held := bound_res 2, vectors := 10, drvdata := True\<rparr>)"

lemma demo_calls: "port_calls_ok demo_kernel i"
  by (simp add: port_calls_ok_def demo_kernel_def)

lemma demo_fresh: "fresh_ports demo_life" "held demo_life = {#}"
  by (simp_all add: fresh_ports_def demo_life_def demo_drv_def)

lemma demo_card_bound: "card_bound 2 demo_bound"
proof -
  have "j = 0 \<or> j = 1 \<or> j = 2 \<or> j = 3" if "j < 4" for j :: nat using that by linarith
  moreover have "j = 0 \<or> j = 1" if "j < 2" for j :: nat using that by linarith
  ultimately show ?thesis
    by (fastforce simp: card_bound_def demo_bound_def upd_card_def demo_life_def port_i2c_def i2c_dev_new_def port_irq_eq)
qed

theorem probe_binds_or_gives_back_witness:
  "\<exists>ret s' n. probe regfile demo_kernel (50000, True, True, True) demo_life = Inr (ret, s') \<and> (n :: nat) \<le> 4"
  using probe_binds_or_gives_back [of demo_kernel demo_life regfile "(50000, True, True, True)"] demo_calls demo_fresh
  by blast

theorem remove_gives_back_witness:
  "\<exists>s'. remove_card regfile demo_bound = Inr s' \<and> Netdev 1 \<in># held s' \<and> Irq 0 \<notin># held s'"
proof -
  have "netdevs 2 = {#Netdev 1, Netdev 0#}" by (simp add: eval_nat_numeral netdevs_Suc) (simp add: netdevs_def)
  then show ?thesis using remove_gives_back [OF demo_card_bound, of regfile] by auto
qed

theorem remove_after_error_detected_witness:
  "\<exists>s'. error_detected regfile demo_bound = Inr (PCI_ERS_RESULT_DISCONNECT, s') \<and> remove_card regfile s' = Inl Bug"
  using remove_after_error_detected [OF demo_card_bound] by blast

theorem probe_port_failure_leaks_witness:
  "\<exists>s'. probe_net regfile (demo_kernel\<lparr>k_register_netdev := \<lambda>i. if i = 1 then - 12 else 0\<rparr>) 2
      (demo_life\<lparr>held := card_back + {#CardMem, Aer, Hwmon#}\<rparr>) = Inr (- 12, s') \<and> Irq 4 \<in># held s'"
proof -
  let ?K = "demo_kernel\<lparr>k_register_netdev := \<lambda>i. if i = 1 then - 12 else 0\<rparr>"
  let ?s = "demo_life\<lparr>held := card_back + {#CardMem, Aer, Hwmon#}\<rparr>"
  have "\<forall>j < 1. port_calls_ok ?K j" "port_calls_ok (?K\<lparr>k_register_netdev := \<lambda>_. 0\<rparr>) 1" "k_register_netdev ?K 1 < 0"
    by (simp_all add: port_calls_ok_def demo_kernel_def)
  moreover have "fresh_ports ?s" using demo_fresh by (simp add: fresh_ports_def)
  ultimately show ?thesis using probe_port_failure_leaks [of 1 ?K 2 ?s regfile] by (auto simp: port_irq_eq)
qed

theorem setup_buffers_end_wraps_witness:
  "\<exists>s'. setup_buffers regfile (demo_kernel\<lparr>k_dma_rx := (0xffff888000100000, 0xfff80000)\<rparr>) demo_life = (0, s')
    \<and> unat (dev (drv_of s') 0x8A4) = 0"
proof -
  let ?K = "demo_kernel\<lparr>k_dma_rx := (0xffff888000100000, 0xfff80000)\<rparr>"
  have K: "k_dma_rx ?K = (0xffff888000100000, 0xfff80000)" "k_dma_tx ?K = (0xffff888000200000, 0x200000)"
    by (simp_all add: demo_kernel_def)
  obtain ret s' where "setup_buffers regfile ?K demo_life = (ret, s')" by (metis surj_pair)
  then show ?thesis using setup_buffers_end_wraps [OF K] by simp
qed

end
