(* ===== verification/DrvTx.thy ===== *)
theory DrvTx
  imports DrvExamples
begin

text \<open>
  Properties of \<open>net_tx\<close> in \<open>src/driver/src/board.c\<close>: the frames pending for the card as a queue,
  the accepted and the dropped packet, the doorbell, and what goes wrong at the wrap of the ring,
  in batches and with oversized packets.
\<close>

section \<open>The pending frames\<close>

text \<open>A frame in the format that the comment in \<open>net_tx\<close> describes: the offset in units of four
  bytes. This is how the FPGA and \<open>poll\<close> read it.\<close>

definition frame_at :: "mem \<Rightarrow> u64 \<Rightarrow> u32 \<times> u8 list" where
  "frame_at m p = (let md = get32 m p in
     (md_port md, mem_get m (p + of_nat (unat (md_off md) * 4)) (unat (md_quads md) * 4)))"

definition pending_slots :: "u64 \<times> u64 \<Rightarrow> u64 \<Rightarrow> u64 \<Rightarrow> u64 list" where
  "pending_slots r rd wr = walk (slot_next (fst r) (snd r)) rd
     (ring_used (slot_count (fst r) (snd r)) (slot_idx (fst r) rd) (slot_idx (fst r) wr))"

definition frames :: "mem \<Rightarrow> u64 \<times> u64 \<Rightarrow> u64 \<Rightarrow> u64 \<Rightarrow> (u32 \<times> u8 list) list" where
  "frames m r rd wr = map (frame_at m) (pending_slots r rd wr)"

text \<open>Frames whose data stays inside its slot.\<close>

definition frame_fits :: "mem \<Rightarrow> u64 \<Rightarrow> bool" where
  "frame_fits m p \<longleftrightarrow> (let md = get32 m p in unat (md_off md) * 4 + unat (md_quads md) * 4 \<le> 4096)"

abbreviation ring_cursor :: "u64 \<times> u64 \<Rightarrow> u64 \<Rightarrow> bool" where
  "ring_cursor r p \<equiv> slot_ok (fst r) (snd r) p"

lemma pending_slots_ok: "ring_cursor r rd \<Longrightarrow> p \<in> set (pending_slots r rd wr) \<Longrightarrow> ring_cursor r p"
  unfolding pending_slots_def by (rule buf.walk_ok)

lemma pending_slots_free: "ring_cursor r rd \<Longrightarrow> ring_cursor r wr \<Longrightarrow> wr \<notin> set (pending_slots r rd wr)"
  unfolding pending_slots_def by (rule buf.write_slot_free)

lemma pending_slots_enq:
  "ring_cursor r rd \<Longrightarrow> ring_cursor r wr \<Longrightarrow> slot_next (fst r) (snd r) wr \<noteq> rd \<Longrightarrow>
    pending_slots r rd (slot_next (fst r) (snd r) wr) = pending_slots r rd wr @ [wr]"
  unfolding pending_slots_def by (rule buf.walk_enq)

lemma pending_slots_deq:
  "ring_cursor r rd \<Longrightarrow> ring_cursor r wr \<Longrightarrow> rd \<noteq> wr \<Longrightarrow>
    pending_slots r rd wr = rd # pending_slots r (slot_next (fst r) (snd r) rd) wr"
  unfolding pending_slots_def by (rule buf.walk_deq)

lemma pending_slots_empty: "ring_cursor r rd \<Longrightarrow> pending_slots r rd rd = []"
  unfolding pending_slots_def using buf.empty_iff [of r rd rd] by simp

lemma length_pending_full:
  assumes "ring_cursor r rd" and "ring_cursor r wr" and "slot_next (fst r) (snd r) wr = rd"
  shows "length (pending_slots r rd wr) = slot_count (fst r) (snd r) - 1"
  using assms(3) unfolding pending_slots_def buf.full_iff [OF assms(1,2)] by simp

lemma frame_at_put_other:
  assumes "ring_cursor r p" and "ring_cursor r q" and "p \<noteq> q" and "k < 4096" and "k + length bs \<le> 4096"
    and "frame_fits m p"
  shows "frame_at (put_frame m q md k bs) p = frame_at m p"
proof -
  have md: "get32 (put_frame m q md k bs) p = get32 m p"
    by (rule put_frame_get32_other) (use assms in simp_all)
  have "unat (md_off (get32 m p)) * 4 < 4096" using md_off_le [of "get32 m p"] by simp
  then have "mem_get (put_frame m q md k bs) (p + of_nat (unat (md_off (get32 m p)) * 4)) (unat (md_quads (get32 m p)) * 4)
      = mem_get m (p + of_nat (unat (md_off (get32 m p)) * 4)) (unat (md_quads (get32 m p)) * 4)"
    using assms by (intro put_frame_other) (simp_all add: frame_fits_def Let_def)
  then show ?thesis by (simp only: frame_at_def Let_def md)
qed

lemma frame_at_put_same:
  assumes "ring_cursor r q" and "unat off < 16" and "0 < unat off" and "unat quads < 1024"
    and "length bs = 4 * unat quads" and "4 * unat off + length bs \<le> 4096"
  shows "frame_at (put_frame m q (md_word pid quads off) (4 * unat off) bs) q = (pid AND 0x3, bs)"
proof -
  have f: "md_off (md_word pid quads off) = off" "md_quads (md_word pid quads off) = quads"
    using assms by (simp_all add: md_masks and_small)
  have "get32 (put_frame m q (md_word pid quads off) (4 * unat off) bs) q = md_word pid quads off"
    "mem_get (put_frame m q (md_word pid quads off) (4 * unat off) bs) (q + of_nat (4 * unat off)) (length bs) = bs"
    by (rule put_frame_same [OF assms(1)]; use assms in simp)+
  then show ?thesis
    using assms(5) by (simp add: frame_at_def Let_def f md_fields(1) mult.commute del: md_fields(2,3))
qed

lemma frames_put:
  assumes "ring_cursor r rd" and "ring_cursor r wr" and "k < 4096" and "k + length bs \<le> 4096"
    and "\<forall>p \<in> set (pending_slots r rd wr). frame_fits m p"
  shows "frames (put_frame m wr md k bs) r rd wr = frames m r rd wr"
  unfolding frames_def
proof (rule map_cong [OF refl])
  fix p assume p: "p \<in> set (pending_slots r rd wr)"
  then have "p \<noteq> wr" using pending_slots_free [OF assms(1,2)] by blast
  then show "frame_at (put_frame m wr md k bs) p = frame_at m p"
    using frame_at_put_other [OF pending_slots_ok [OF assms(1) p] assms(2)] assms(3-5) p by blast
qed

section \<open>An accepted packet\<close>

lemma tx_ctrl1_md: "tx_ctrl1 pid len 4 = md_word pid (len div 4) 4"
  by (simp add: tx_ctrl1_def md_word_def)

lemma tx_full_fields [simp]:
  "ram (snd (tx_full b s)) = ram s" "delivered (snd (tx_full b s)) = delivered s"
  "tx_buf_write (the_card (snd (tx_full b s))) = tx_buf_write (the_card s)"
  "tx_buf_start (the_card (snd (tx_full b s))) = tx_buf_start (the_card s)"
  "tx_buf_end (the_card (snd (tx_full b s))) = tx_buf_end (the_card s)"
  "tx_buf_start_dma (the_card (snd (tx_full b s))) = tx_buf_start_dma (the_card s)"
  "napi_scheduled (snd (tx_full b s)) = napi_scheduled s"
  "port (the_card (snd (tx_full b s))) = port (the_card s)"
  "rx_buf_start (the_card (snd (tx_full b s))) = rx_buf_start (the_card s)"
  "rx_buf_start_dma (the_card (snd (tx_full b s))) = rx_buf_start_dma (the_card s)"
  "rx_buf_read (the_card (snd (tx_full b s))) = rx_buf_read (the_card s)"
  "rx_buf_end (the_card (snd (tx_full b s))) = rx_buf_end (the_card s)"
  by (simp_all add: tx_full_def split_beta Let_def)

text \<open>The buffer of the transmit ring, and its write cursor.\<close>

abbreviation tx_range :: "'d drv \<Rightarrow> u64 \<times> u64" where
  "tx_range s \<equiv> (tx_buf_start (the_card s), tx_buf_end (the_card s))"

abbreviation tx_wr :: "'d drv \<Rightarrow> u64" where
  "tx_wr s \<equiv> tx_buf_write (the_card s)"

text \<open>A packet of the stack whose linear data is complete.\<close>

definition skb_ok :: "sk_buff \<Rightarrow> bool" where
  "skb_ok skb \<longleftrightarrow> \<not> skb_gso skb \<and> nr_frags skb = 0 \<and> length (skb_data skb) = unat (skb_len skb)"

definition count_tx :: "sk_buff \<Rightarrow> fejkon_port \<Rightarrow> fejkon_port" where
  "count_tx skb p = p\<lparr>net := (net p)\<lparr>tx_packets := tx_packets (net p) + 1,
     tx_bytes := tx_bytes (net p) + ucast (skb_len skb)\<rparr>\<rparr>"

lemma net_tx_accepts:
  assumes "skb_ok skb" and "ring_cursor (tx_range s) (tx_wr s)" and "unat (skb_len skb) \<le> 4080"
    and "\<not> fst (tx_full b s)"
  shows "\<exists>s'. net_tx b xmit_more skb p s = Inr (count_tx skb p, s')
    \<and> ram s' = put_frame (ram s) (tx_wr s) (tx_ctrl1 (port_id p) (skb_len skb) 4) 16 (skb_data skb)
    \<and> tx_wr s' = slot_next (fst (tx_range s)) (snd (tx_range s)) (tx_wr s) \<and> tx_range s' = tx_range s
    \<and> tx_buf_start_dma (the_card s') = tx_buf_start_dma (the_card s)
    \<and> dev s' = (if xmit_more then dev (snd (tx_full b s))
        else iowrite b (dev (snd (tx_full b s))) 0x8CC
          (reg_from_ptr (fst (tx_range s)) (tx_buf_start_dma (the_card s)) (tx_wr s')))
    \<and> the_card s' = (the_card (snd (tx_full b s)))\<lparr>tx_buf_write := tx_wr s'\<rparr>
    \<and> delivered s' = delivered s \<and> napi_scheduled s' = napi_scheduled s"
proof -
  have room: "unat (tx_wr s) + 4096 \<le> unat (tx_buf_end (the_card s))"
    "unat (tx_buf_start (the_card s)) \<le> unat (tx_wr s)"
    using slot_room [OF assms(2)] assms(2) by (simp_all add: slot_ok_def)
  have u: "unat (tx_wr s + 16) = unat (tx_wr s) + 16"
    using unat_slot_plus [OF assms(2), of 16] by simp
  have "buf_bounds (tx_buf_start (the_card s)) (tx_buf_end (the_card s)) (tx_wr s) 4"
    and "buf_bounds (tx_buf_start (the_card s)) (tx_buf_end (the_card s)) (tx_wr s + 16) (unat (skb_len skb))"
    using room u assms(3) by (simp_all add: buf_bounds_def)
  then show ?thesis
    using assms(1,4) by (auto simp: net_tx_def skb_ok_def split_beta Let_def put_frame_def count_tx_def iowrite32_def)
qed

text \<open>
  C3. A packet of up to 4080 bytes (a multiple of four) that \<open>net_tx\<close> accepts while the card has a
  free slot is appended to the frames that the card has not read yet, with the port's number;
  the frames already pending are unchanged, the counters are updated, and unless more packets
  follow the doorbell is written with the new write pointer.
\<close>

theorem net_tx_appends:
  assumes "skb_ok skb" and "unat (skb_len skb) \<le> 4080" and "unat (skb_len skb) mod 4 = 0"
    and "ring_cursor (tx_range s) (tx_wr s)" and "ring_cursor (tx_range s) rd"
    and "slot_next (tx_buf_start (the_card s)) (tx_buf_end (the_card s)) (tx_wr s) \<noteq> rd"
    and "\<forall>q \<in> set (pending_slots (tx_range s) rd (tx_wr s)). frame_fits (ram s) q"
    and "\<not> fst (tx_full b s)"
  shows "\<exists>s'. net_tx b xmit_more skb p s = Inr (count_tx skb p, s')
    \<and> frames (ram s') (tx_range s') rd (tx_wr s')
        = frames (ram s) (tx_range s) rd (tx_wr s) @ [(port_id p AND 0x3, skb_data skb)]
    \<and> ring_cursor (tx_range s') (tx_wr s')
    \<and> (\<not> xmit_more \<longrightarrow> dev s' = iowrite b (dev (snd (tx_full b s))) 0x8CC
          (reg_from_ptr (tx_buf_start (the_card s)) (tx_buf_start_dma (the_card s)) (tx_wr s')))"
proof -
  obtain s' where s': "net_tx b xmit_more skb p s = Inr (count_tx skb p, s')"
    "ram s' = put_frame (ram s) (tx_wr s) (tx_ctrl1 (port_id p) (skb_len skb) 4) 16 (skb_data skb)"
    "tx_wr s' = slot_next (fst (tx_range s)) (snd (tx_range s)) (tx_wr s)" "tx_range s' = tx_range s"
    "dev s' = (if xmit_more then dev (snd (tx_full b s))
        else iowrite b (dev (snd (tx_full b s))) 0x8CC
          (reg_from_ptr (fst (tx_range s)) (tx_buf_start_dma (the_card s)) (tx_wr s')))"
    using net_tx_accepts [OF assms(1,4,2,8)] by blast
  have len: "length (skb_data skb) = unat (skb_len skb)" using assms(1) by (simp add: skb_ok_def)
  have "unat (skb_len skb) = 4 * (unat (skb_len skb) div 4)"
    using assms(3) by (metis mult_div_mod_eq add.right_neutral)
  then have "frame_at (ram s') (tx_wr s) = (port_id p AND 0x3, skb_data skb)"
    using frame_at_put_same [OF assms(4), where off = 4 and quads = "skb_len skb div 4" and bs = "skb_data skb"
        and m = "ram s" and pid = "port_id p"] assms(2,3) len
    unfolding s'(2) tx_ctrl1_md by simp
  moreover have "frames (ram s') (tx_range s) rd (tx_wr s) = frames (ram s) (tx_range s) rd (tx_wr s)"
    unfolding s'(2) by (rule frames_put) (use assms len in simp_all)
  moreover have "pending_slots (tx_range s) rd (tx_wr s') = pending_slots (tx_range s) rd (tx_wr s) @ [tx_wr s]"
    unfolding s'(3) by (rule pending_slots_enq [OF assms(5,4)]) (use assms(6) in simp)
  ultimately have "frames (ram s') (tx_range s') rd (tx_wr s')
      = frames (ram s) (tx_range s) rd (tx_wr s) @ [(port_id p AND 0x3, skb_data skb)]"
    unfolding s'(4) by (simp add: frames_def)
  moreover have "ring_cursor (tx_range s') (tx_wr s')"
    unfolding s'(3,4) by (rule slot_ok_next [OF assms(4)])
  ultimately show ?thesis using s'(1,5) by (intro exI [of _ s'] conjI) simp_all
qed

section \<open>A full ring\<close>

text \<open>
  C18. The test for a full ring compares \<open>tx_buf_write + 4096\<close> with the read pointer, without the
  wrap. With the write pointer in the last slot and the card still at the first one, the ring is
  full, but the packet is accepted and counted; the write pointer becomes equal to the read
  pointer, and all pending frames are lost.
\<close>

theorem net_tx_wrap_loses_ring:
  assumes "skb_ok skb" and "unat (skb_len skb) \<le> 4080"
    and "ring_cursor (tx_range s) (tx_wr s)" and "tx_wr s + 4096 = tx_buf_end (the_card s)"
    and "ring_cursor (tx_range s) (tx_buf_read_cached (the_card s))"
  defines "rd \<equiv> tx_buf_start (the_card s)"
  shows "\<exists>s'. net_tx b xmit_more skb p s = Inr (count_tx skb p, s')
    \<and> length (frames (ram s) (tx_range s) rd (tx_wr s)) = slot_count (tx_buf_start (the_card s)) (tx_buf_end (the_card s)) - 1
    \<and> frames (ram s') (tx_range s') rd (tx_wr s') = []"
proof -
  have "tx_buf_read_cached (the_card s) \<noteq> tx_buf_end (the_card s)"
    using assms(5) by (auto simp: slot_ok_def)
  then have full: "\<not> fst (tx_full b s)" using assms(4) by (simp add: tx_full_def)
  have wrap: "slot_next (tx_buf_start (the_card s)) (tx_buf_end (the_card s)) (tx_wr s) = rd"
    using assms(4) by (simp add: slot_next_def rd_def)
  have rd: "ring_cursor (tx_range s) rd" using slot_ok_start [OF assms(3)] by (simp add: rd_def)
  obtain s' where s': "net_tx b xmit_more skb p s = Inr (count_tx skb p, s')"
    "tx_wr s' = slot_next (fst (tx_range s)) (snd (tx_range s)) (tx_wr s)" "tx_range s' = tx_range s"
    using net_tx_accepts [OF assms(1,3,2) full] by blast
  have "pending_slots (tx_range s) rd (tx_wr s') = []"
    unfolding s'(2) using wrap pending_slots_empty [OF rd] by simp
  moreover have "length (pending_slots (tx_range s) rd (tx_wr s))
      = slot_count (tx_buf_start (the_card s)) (tx_buf_end (the_card s)) - 1"
    using length_pending_full [OF rd assms(3)] wrap by simp
  ultimately show ?thesis using s'(1,3) by (intro exI [of _ s'] conjI) (simp_all add: frames_def)
qed

text \<open>
  C21. A batch of two packets into a ring with one free slot: the first one (with more to follow) is
  accepted without ringing the doorbell, the second is dropped, and the drop path does not ring it
  either. The accepted packet stays invisible to the card.
\<close>

theorem net_tx_batch_loses_doorbell:
  fixes s :: "(u32 \<Rightarrow> u32) drv"
  assumes "skb_ok skb" and "skb_ok skb'" and "unat (skb_len skb) \<le> 4080"
    and "ring_cursor (tx_range s) (tx_wr s)" and "tx_wr s + 4096 \<noteq> tx_buf_end (the_card s)"
    and "tx_wr s + 8192 = tx_buf_read_cached (the_card s)"
    and "ptr_from_reg (tx_buf_start (the_card s)) (tx_buf_start_dma (the_card s)) (dev s 0x8C8)
       = tx_buf_read_cached (the_card s)"
  shows "\<exists>s'. net_tx regfile True skb p s = Inr (count_tx skb p, s') \<and> tx_wr s' = tx_wr s + 4096
    \<and> net_tx regfile False skb' (count_tx skb p) s'
        = Inr ((count_tx skb p)\<lparr>net := (net (count_tx skb p))\<lparr>tx_dropped := tx_dropped (net p) + 1\<rparr>\<rparr>, s')
    \<and> dev s' = dev s"
proof -
  have full: "\<not> fst (tx_full regfile s)" "snd (tx_full regfile s) = s"
  proof -
    have "tx_wr s + 4096 \<noteq> tx_wr s + 8192" by simp
    then have "tx_wr s + 4096 \<noteq> tx_buf_read_cached (the_card s)" using assms(6) by simp
    then show "\<not> fst (tx_full regfile s)" "snd (tx_full regfile s) = s" by (simp_all add: tx_full_def)
  qed
  let ?m = "put_frame (ram s) (tx_wr s) (tx_ctrl1 (port_id p) (skb_len skb) 4) 16 (skb_data skb)"
  obtain s' where acc: "net_tx regfile True skb p s = Inr (count_tx skb p, s')"
    using net_tx_accepts [OF assms(1,4,3) full(1)] by blast
  have s': "s' = s\<lparr>ram := ?m, the_card := (the_card s)\<lparr>tx_buf_write := tx_wr s + 4096\<rparr>\<rparr>"
    using acc full assms(1,5)
    by (auto simp: net_tx_def skb_ok_def split_beta Let_def put_frame_def slot_next_def split: if_splits)
  have "tx_full regfile s' = (True, s')"
    using assms(6,7) by (simp add: s' tx_full_def ioread32_def add.assoc)
  then have "net_tx regfile False skb' (count_tx skb p) s'
      = Inr ((count_tx skb p)\<lparr>net := (net (count_tx skb p))\<lparr>tx_dropped := tx_dropped (net p) + 1\<rparr>\<rparr>, s')"
    using assms(2) by (simp add: net_tx_def skb_ok_def count_tx_def)
  then show ?thesis using acc s' by auto
qed

section \<open>Oversized packets\<close>

lemma net_tx_overrun:
  assumes "skb_ok skb" and "ring_cursor (tx_range s) (tx_wr s)" and "\<not> fst (tx_full b s)"
    and "4080 < unat (skb_len skb)" and "unat (skb_len skb) \<le> 8176"
  shows "if tx_wr s + 4096 = tx_buf_end (the_card s) then net_tx b xmit_more skb p s = Inl OutOfBounds
    else (\<exists>s'. net_tx b xmit_more skb p s = Inr (count_tx skb p, s')
      \<and> mem_get (ram s') (tx_wr s + 4096) (unat (skb_len skb) - 4080) = drop 4080 (skb_data skb))"
proof -
  let ?st = "tx_buf_start (the_card s)" and ?en = "tx_buf_end (the_card s)"
  let ?n = "unat (skb_len skb)" and ?wr = "tx_wr s"
  have pos: "unat ?wr = unat ?st + 4096 * slot_idx ?st ?wr" "unat ?en = unat ?st + 4096 * slot_count ?st ?en"
    "slot_idx ?st ?wr < slot_count ?st ?en"
    using slot_pos [OF assms(2)] by simp_all
  have u: "unat (?wr + 16) = unat ?wr + 16" "unat (?wr + 4096) = unat ?wr + 4096"
    using unat_slot_plus [OF assms(2), of 16] slot_end [OF slot_room [OF assms(2)]]
    by (simp_all add: unat_add_no_wrap)
  have last: "?wr + 4096 = ?en \<longleftrightarrow> Suc (slot_idx ?st ?wr) = slot_count ?st ?en"
    unfolding word_unat_eq_iff u using pos by linarith
  have md: "buf_bounds ?st ?en ?wr 4" using pos by (auto simp: buf_bounds_def)
  show ?thesis
  proof (cases "?wr + 4096 = ?en")
    case True
    then have "unat ?en = unat ?wr + 4096" using u by simp
    then have "\<not> buf_bounds ?st ?en (?wr + 16) ?n" using u assms(4) by (simp add: buf_bounds_def)
    then show ?thesis
      using True assms(1,3) md by (simp add: net_tx_def skb_ok_def split_beta Let_def)
  next
    case False
    then have "slot_idx ?st ?wr + 2 \<le> slot_count ?st ?en" using last pos by linarith
    then have "buf_bounds ?st ?en (?wr + 16) ?n" using u pos assms(5) by (simp add: buf_bounds_def)
    then have "\<exists>s'. net_tx b xmit_more skb p s = Inr (count_tx skb p, s')
        \<and> ram s' = put_frame (ram s) ?wr (tx_ctrl1 (port_id p) (skb_len skb) 4) 16 (skb_data skb)"
      using assms(1,3) md
      by (auto simp: net_tx_def skb_ok_def split_beta Let_def put_frame_def count_tx_def iowrite32_def)
    moreover have "mem_get (mem_put M (?wr + 16) (skb_data skb)) (?wr + 4096) (?n - 4080) = drop 4080 (skb_data skb)" for M
    proof -
      have "mem_get (mem_put M (?wr + 16) (skb_data skb)) (?wr + 16) ?n = skb_data skb"
        using assms(1,5) mem_get_put_same [of "skb_data skb" M "?wr + 16"] by (simp add: skb_ok_def)
      then have "mem_get (mem_put M (?wr + 16) (skb_data skb)) (?wr + 16 + of_nat 4080) (?n - 4080) = drop 4080 (skb_data skb)"
        by (metis drop_mem_get)
      then show ?thesis by (simp add: add.assoc)
    qed
    ultimately show ?thesis using False by (auto simp: put_frame_def)
  qed
qed

text \<open>
  C22. \<open>net_tx\<close> does not check the length, and \<open>init_netdev\<close> leaves the largest MTU as it was allocated:
  a packet longer than 4080 bytes that is accepted runs over the end of its slot. In the last slot the
  copy leaves the buffer; elsewhere, for packets up to the end of the next slot (8176 bytes), the
  excess replaces the beginning of the next slot, which may hold a pending frame.
\<close>

theorem net_tx_oversized:
  assumes "skb_ok skb" and "ring_cursor (tx_range s) (tx_wr s)" and "\<not> fst (tx_full b s)"
    and "4080 < unat (skb_len skb)" and "unat (skb_len skb) \<le> 8176"
  shows "max_mtu (init_netdev n) = max_mtu n
    \<and> (if tx_wr s + 4096 = tx_buf_end (the_card s) then net_tx b xmit_more skb p s = Inl OutOfBounds
       else (\<exists>s'. net_tx b xmit_more skb p s = Inr (count_tx skb p, s')
         \<and> mem_get (ram s') (tx_wr s + 4096) (unat (skb_len skb) - 4080) = drop 4080 (skb_data skb)))"
  using net_tx_overrun [OF assms] by (simp add: init_netdev_def)

section \<open>Pointers and registers\<close>

lemma scast_small:
  assumes "unat (w :: u32) < 2 ^ 31"
  shows "unat (scast w :: u64) = unat w"
proof -
  define n where "n = unat w"
  have u: "uint w = int n" unfolding n_def by simp
  have "sint w = int n"
    unfolding sint_uint u using assms unfolding n_def [symmetric]
    by (intro signed_take_bit_int_eq_self) simp_all
  then have "(scast w :: u64) = of_nat n" by (simp add: scast_eq)
  then show ?thesis using assms unfolding n_def [symmetric] by (simp add: unat_of_nat_small)
qed

lemma ptr_reg_inverse:
  assumes "slot_ok st en p" and "unat en - unat st < 2 ^ 31" and "unat dma + (unat en - unat st) \<le> 2 ^ 32"
  shows "ptr_from_reg st dma (reg_from_ptr st dma p) = p"
proof -
  have p: "unat st \<le> unat p" "unat p < unat en" using assms(1) by (simp_all add: slot_ok_def)
  have d: "unat (p - st) = unat p - unat st" using p(1) by (rule unat_sub_no_wrap)
  then have s: "unat (dma + (p - st)) = unat dma + (unat p - unat st)"
    using assms(3) p by (subst unat_add_no_wrap) simp_all
  then have "unat (reg_from_ptr st dma p) = unat (dma + (p - st))"
    unfolding reg_from_ptr_def using assms(3) p by (intro unat_ucast_small) simp
  then have "(ucast (reg_from_ptr st dma p) :: u64) = dma + (p - st)" by (simp add: word_unat_eq_iff)
  then have e: "ucast (reg_from_ptr st dma p) - dma = p - st" by simp
  have "unat (ucast (p - st) :: u32) = unat (p - st)"
    using d assms(2) p by (intro unat_ucast_small) simp
  then have "unat (scast (ucast (p - st) :: u32) :: u64) = unat (p - st)"
    using d assms(2) p by (subst scast_small) simp_all
  then have "scast (ucast (p - st) :: u32) = p - st" by (simp add: word_unat_eq_iff)
  then show ?thesis by (simp add: ptr_from_reg_def e)
qed

text \<open>
  C32. The bus address that the driver writes to a pointer register, read back by the code that
  computes a pointer from a register, gives the pointer again: for every cursor of a buffer of less
  than 2 GiB whose bus addresses lie below 4 GiB.
\<close>

theorem pointer_register_roundtrip:
  assumes "slot_ok st en p" and "unat en - unat st < 2 ^ 31" and "unat dma + (unat en - unat st) \<le> 2 ^ 32"
  shows "ptr_from_reg st dma (reg_from_ptr st dma p) = p"
  by (rule ptr_reg_inverse [OF assms])

section \<open>Concrete instances\<close>

lemma demo_skb_ok: "n < 2 ^ 32 \<Longrightarrow> skb_ok (demo_skb n) \<and> unat (skb_len (demo_skb n)) = n"
  by (simp add: demo_skb_def skb_ok_def unat_of_nat_small)

theorem net_tx_appends_witness:
  "\<exists>s'. net_tx regfile False (demo_skb 2148) (demo_port 1) (demo_drv 0x1000 0)
      = Inr (count_tx (demo_skb 2148) (demo_port 1), s')
    \<and> length (frames (ram s') (tx_range s') 0xffff888000200000 (tx_wr s')) = 2"
proof -
  let ?s = "demo_drv 0x1000 0"
  have pend: "pending_slots (tx_range ?s) 0xffff888000200000 (tx_wr ?s) = [0xffff888000200000]"
    by (simp add: pending_slots_def ring_used_def ring_defs)
  have "\<not> fst (tx_full regfile ?s)" by (simp add: tx_full_def)
  moreover have "ring_cursor (tx_range ?s) (tx_wr ?s)" "ring_cursor (tx_range ?s) 0xffff888000200000"
    by (simp_all add: slot_ok_def)
  moreover have "\<forall>q \<in> set (pending_slots (tx_range ?s) 0xffff888000200000 (tx_wr ?s)). frame_fits (ram ?s) q"
    unfolding pend by (simp add: frame_fits_def demo_drv_def get32_def md_off_def md_quads_def)
  moreover have "slot_next (tx_buf_start (the_card ?s)) (tx_buf_end (the_card ?s)) (tx_wr ?s) \<noteq> 0xffff888000200000"
    by (simp add: slot_next_def)
  ultimately obtain s' where "net_tx regfile False (demo_skb 2148) (demo_port 1) ?s
      = Inr (count_tx (demo_skb 2148) (demo_port 1), s')"
    "frames (ram s') (tx_range s') 0xffff888000200000 (tx_wr s')
      = frames (ram ?s) (tx_range ?s) 0xffff888000200000 (tx_wr ?s) @ [(1 AND 0x3, skb_data (demo_skb 2148))]"
    using net_tx_appends [of "demo_skb 2148" ?s "0xffff888000200000" regfile False "demo_port 1"]
      demo_skb_ok [of 2148] by (auto simp: demo_port_def)
  then show ?thesis using pend by (auto simp: frames_def)
qed

theorem net_tx_wrap_loses_ring_witness:
  "\<exists>s'. net_tx regfile False (demo_skb 2148) (demo_port 0) (demo_drv 0x3000 0)
      = Inr (count_tx (demo_skb 2148) (demo_port 0), s')
    \<and> frames (ram s') (tx_range s') 0xffff888000200000 (tx_wr s') = []"
  using net_tx_wrap_loses_ring [of "demo_skb 2148" "demo_drv 0x3000 0" regfile False "demo_port 0"]
    demo_skb_ok [of 2148] by (auto simp: slot_ok_def)

theorem net_tx_batch_loses_doorbell_witness:
  "\<exists>s'. net_tx regfile True (demo_skb 2148) (demo_port 0) (demo_drv 0x1000 0x3000)
      = Inr (count_tx (demo_skb 2148) (demo_port 0), s')
    \<and> tx_wr s' = 0xffff888000202000 \<and> dev s' 0x8CC = 0"
proof -
  have "dev (demo_drv 0x1000 0x3000) 0x8CC = 0" by (simp add: demo_drv_def)
  then show ?thesis
    using net_tx_batch_loses_doorbell [of "demo_skb 2148" "demo_skb 36" "demo_drv 0x1000 0x3000" "demo_port 0"]
      demo_skb_ok [of 2148] demo_skb_ok [of 36]
    by (auto simp: slot_ok_def ptr_from_reg_def)
qed

theorem net_tx_oversized_witness:
  "net_tx regfile False (demo_skb 4096) (demo_port 0) (demo_drv 0x3000 0) = Inl OutOfBounds"
proof -
  have "\<not> fst (tx_full regfile (demo_drv 0x3000 0))" by (simp add: tx_full_def)
  then show ?thesis
    using net_tx_oversized [where skb = "demo_skb 4096" and s = "demo_drv 0x3000 0" and b = regfile and xmit_more = False
        and p = "demo_port 0"]
      demo_skb_ok [of 4096] by (simp add: slot_ok_def)
qed

theorem pointer_register_roundtrip_witness:
  "ptr_from_reg 0xffff888000200000 0xfff80000
    (reg_from_ptr 0xffff888000200000 0xfff80000 0xffff88800027f000) = 0xffff88800027f000"
  by (rule pointer_register_roundtrip [where en = "0xffff888000280000"]) (simp_all add: slot_ok_def)

end
