(* ===== verification/DrvRx.thy ===== *)
theory DrvRx
  imports DrvTx
begin

text \<open>
  Properties of \<open>poll\<close> in \<open>src/driver/src/board.c\<close>: the loop as a fold over the pending frames,
  the budget, the acknowledgement and the completion of the NAPI instance; then the paths on which
  reception goes wrong.
\<close>

section \<open>One frame\<close>

text \<open>The abstract effect of a frame on the ports and on what the stack receives.\<close>

type_synonym rx_view = "fejkon_port option list \<times> (u32 \<times> u8 list) list"

definition rx_step :: "rx_view \<Rightarrow> u32 \<times> u8 list \<Rightarrow> rx_view" where
  "rx_step v f =
    (case fst v ! unat (fst f) of
       None \<Rightarrow> v
     | Some p \<Rightarrow>
        (if \<not> oper_up (net p) \<or> length (snd f) < 36
         then ((fst v)[unat (fst f) := Some (p\<lparr>net := count_drop (net p)\<rparr>)], snd v)
         else ((fst v)[unat (fst f) := Some (p\<lparr>net := count_rx (of_nat (length (snd f))) (net p)\<rparr>)],
               snd v @ [(port_id p, snd f)])))"

definition rx_view :: "'d drv \<Rightarrow> rx_view" where
  "rx_view s = (port (the_card s), delivered s)"

text \<open>A registered port, and one that is up.\<close>

definition has_port :: "fejkon_port option list \<Rightarrow> u32 \<Rightarrow> bool" where
  "has_port ps i \<longleftrightarrow> ps ! unat i \<noteq> None"

definition port_up :: "fejkon_port option list \<Rightarrow> u32 \<Rightarrow> bool" where
  "port_up ps i \<longleftrightarrow> (\<exists>p. ps ! unat i = Some p \<and> oper_up (net p))"

text \<open>Handling a frame changes only the counters of ports.\<close>

lemma rx_step_ports:
  "length (fst (rx_step v f)) = length (fst v)"
  "map_option (\<lambda>p. oper_up (net p)) (fst (rx_step v f) ! j) = map_option (\<lambda>p. oper_up (net p)) (fst v ! j)"
proof -
  show "length (fst (rx_step v f)) = length (fst v)" by (simp add: rx_step_def split: option.splits)
  show "map_option (\<lambda>p. oper_up (net p)) (fst (rx_step v f) ! j) = map_option (\<lambda>p. oper_up (net p)) (fst v ! j)"
    by (cases "j = unat (fst f) \<and> j < length (fst v)")
      (auto simp: rx_step_def count_drop_def count_rx_def nth_list_update list_update_beyond split: option.splits)
qed

lemma rx_step_has_port: "has_port (fst (rx_step v f)) i = has_port (fst v) i" "port_up (fst (rx_step v f)) i = port_up (fst v) i"
  using rx_step_ports(2) [of v f "unat i"]
  by (auto simp: has_port_def port_up_def map_option_case split: option.splits)

abbreviation rx_range :: "'d drv \<Rightarrow> u64 \<times> u64" where
  "rx_range s \<equiv> (rx_buf_start (the_card s), rx_buf_end (the_card s))"

abbreviation rx_rd :: "'d drv \<Rightarrow> u64" where
  "rx_rd s \<equiv> rx_buf_read (the_card s)"

lemma rx_fields_md:
  "rx_port_id md = unat (md_port md)" "unat (rx_len md) = 4 * unat (md_quads md)"
  "unat (rx_offset md) = 4 * unat (md_off md)" "rx_offset md = of_nat (unat (md_off md) * 4)"
proof -
  have q: "unat ((drop_bit 4 md AND 0x3ff) * 4) = 4 * unat (md_quads md)"
    using unat_quads_4 [of md] by (simp add: md_quads_def mult.commute)
  have o4: "unat ((md AND 0xf) * 4) = unat (md AND 0xf) * 4"
    using md_off_le [of md] by (subst unat_word_ariths) (simp add: md_off_def)
  show "rx_port_id md = unat (md_port md)" by (simp add: rx_port_id_def md_port_def)
  show "unat (rx_len md) = 4 * unat (md_quads md)"
    using q md_quads_le [of md] unfolding rx_len_def by (subst unat_ucast_small) simp_all
  show off: "unat (rx_offset md) = 4 * unat (md_off md)"
    using o4 by (simp add: rx_offset_def md_off_def)
  show "rx_offset md = of_nat (unat (md_off md) * 4)"
  proof (rule unsigned_word_eqI)
    have "unat (of_nat (unat (md_off md) * 4) :: u64) = unat (md_off md) * 4"
      by (rule unat_of_nat_small) (use md_off_le [of md] in simp)
    then show "unat (rx_offset md) = unat (of_nat (unat (md_off md) * 4) :: u64)"
      using off by (simp only: mult.commute)
  qed
qed

lemma rx_len_lt: "rx_len md < 36 \<longleftrightarrow> 4 * unat (md_quads md) < 36"
  by (simp add: word_less_nat_alt rx_fields_md)

lemma set_net_fields [simp]:
  "ram (set_net i p n s) = ram s" "dev (set_net i p n s) = dev s"
  "napi_scheduled (set_net i p n s) = napi_scheduled s" "delivered (set_net i p n s) = delivered s"
  "rx_buf_start (the_card (set_net i p n s)) = rx_buf_start (the_card s)"
  "rx_buf_end (the_card (set_net i p n s)) = rx_buf_end (the_card s)"
  "rx_buf_start_dma (the_card (set_net i p n s)) = rx_buf_start_dma (the_card s)"
  "rx_buf_read (the_card (set_net i p n s)) = rx_buf_read (the_card s)"
  "port (the_card (set_net i p n s)) = (port (the_card s))[i := Some (p\<lparr>net := n\<rparr>)]"
  by (simp_all add: set_net_def)

text \<open>What a frame leaves alone.\<close>

definition rx_same :: "'d drv \<Rightarrow> 'd drv \<Rightarrow> bool" where
  "rx_same s t \<longleftrightarrow> ram t = ram s \<and> dev t = dev s \<and> napi_scheduled t = napi_scheduled s
     \<and> rx_range t = rx_range s \<and> rx_buf_start_dma (the_card t) = rx_buf_start_dma (the_card s)"

lemma meta_bounds:
  "ring_cursor (rx_range s) (rx_rd s) \<Longrightarrow> buf_bounds (rx_buf_start (the_card s)) (rx_buf_end (the_card s)) (rx_rd s) 4"
  using slot_room [of "rx_buf_start (the_card s)" "rx_buf_end (the_card s)" "rx_rd s"]
  by (simp add: buf_bounds_def slot_ok_def)

lemma frame_fits_bounds:
  assumes "ring_cursor (rx_range s) (rx_rd s)" and "frame_fits (ram s) (rx_rd s)"
  shows "buf_bounds (rx_buf_start (the_card s)) (rx_buf_end (the_card s))
    (rx_rd s + rx_offset (get32 (ram s) (rx_rd s))) (unat (rx_len (get32 (ram s) (rx_rd s))))"
proof -
  let ?md = "get32 (ram s) (rx_rd s)"
  have "unat (rx_rd s + rx_offset ?md) = unat (rx_rd s) + unat (md_off ?md) * 4"
    unfolding rx_fields_md(4) using md_off_le [of ?md]
    by (intro unat_slot_plus [where st = "fst (rx_range s)", OF assms(1)]) simp
  then show ?thesis
    using slot_room [OF assms(1)] assms by (simp add: buf_bounds_def slot_ok_def frame_fits_def Let_def rx_fields_md)
qed

lemma rx_frame_step:
  assumes "has_port (port (the_card s)) (fst (frame_at (ram s) (rx_rd s)))" and "ring_cursor (rx_range s) (rx_rd s)"
    and "frame_fits (ram s) (rx_rd s)" and "alloc"
  shows "\<exists>t. rx_frame alloc s = Inr (Handled, t) \<and> rx_view t = rx_step (rx_view s) (frame_at (ram s) (rx_rd s))
    \<and> rx_same s t \<and> rx_rd t = rx_rd s"
proof -
  let ?md = "get32 (ram s) (rx_rd s)"
  have "fst (frame_at (ram s) (rx_rd s)) = md_port ?md" by (simp add: frame_at_def Let_def)
  then obtain p where p: "port (the_card s) ! unat (md_port ?md) = Some p"
    using assms(1) unfolding has_port_def by auto
  have len: "(of_nat (unat (md_quads ?md) * 4) :: u16) = rx_len ?md"
  proof (rule unsigned_word_eqI)
    have "unat (of_nat (unat (md_quads ?md) * 4) :: u16) = unat (md_quads ?md) * 4"
      by (rule unat_of_nat_small) (use md_quads_le [of ?md] in simp)
    then show "unat (of_nat (unat (md_quads ?md) * 4) :: u16) = unat (rx_len ?md)"
      by (simp only: rx_fields_md(2) mult.commute)
  qed
  have pay: "mem_get (ram s) (rx_rd s + rx_offset ?md) (unat (rx_len ?md)) = snd (frame_at (ram s) (rx_rd s))"
    by (simp add: frame_at_def Let_def rx_fields_md(2) rx_fields_md(4) mult.commute)
  have fr: "fst (frame_at (ram s) (rx_rd s)) = md_port ?md"
      "length (snd (frame_at (ram s) (rx_rd s))) = unat (md_quads ?md) * 4"
    by (simp_all add: frame_at_def Let_def)
  show ?thesis
    using p meta_bounds [OF assms(2)] frame_fits_bounds [OF assms(2,3)] assms(1,4) pay len fr
    by (simp add: rx_frame_def Let_def rx_fields_md(1) rx_len_lt rx_view_def rx_step_def rx_same_def mult.commute)
qed

section \<open>The loop\<close>

lemma rx_advance_fields [simp]:
  "rx_view (rx_advance s) = rx_view s" "rx_same s (rx_advance s)"
  "rx_rd (rx_advance s) = slot_next (rx_buf_start (the_card s)) (rx_buf_end (the_card s)) (rx_rd s)"
  "port (the_card (rx_advance s)) = port (the_card s)"
  by (simp_all add: rx_advance_def rx_view_def rx_same_def Let_def)

lemma rx_same_trans: "rx_same s t \<Longrightarrow> rx_same t u \<Longrightarrow> rx_same s u"
  by (simp add: rx_same_def)

text \<open>The precondition of the loop: \<open>wr\<close> is the write pointer, and every pending frame is for a
  registered port and has its data in its slot.\<close>

definition rx_pre :: "u64 \<Rightarrow> 'd drv \<Rightarrow> bool" where
  "rx_pre wr s \<longleftrightarrow> ring_cursor (rx_range s) (rx_rd s) \<and> ring_cursor (rx_range s) wr
     \<and> (\<forall>q \<in> set (pending_slots (rx_range s) (rx_rd s) wr). frame_fits (ram s) q
          \<and> has_port (port (the_card s)) (fst (frame_at (ram s) q)))"

abbreviation rx_pending :: "u64 \<Rightarrow> 'd drv \<Rightarrow> u64 list" where
  "rx_pending wr s \<equiv> pending_slots (rx_range s) (rx_rd s) wr"

lemma pending_Nil_iff: "rx_pre wr s \<Longrightarrow> wr = rx_rd s \<longleftrightarrow> rx_pending wr s = []"
  using pending_slots_empty pending_slots_deq unfolding rx_pre_def by (metis list.distinct(1))

text \<open>One round of the loop: the first pending frame is handled, and the precondition holds for
  the rest.\<close>

lemma frame_round:
  assumes "rx_pre wr s" and "wr \<noteq> rx_rd s" and "a"
  shows "\<exists>t. rx_frame a s = Inr (Handled, t) \<and> rx_pre wr (rx_advance t)
    \<and> rx_pending wr s = rx_rd s # rx_pending wr (rx_advance t)
    \<and> rx_view (rx_advance t) = rx_step (rx_view s) (frame_at (ram s) (rx_rd s)) \<and> rx_same s (rx_advance t)"
proof -
  let ?Q = "\<lambda>q. frame_fits (ram s) q \<and> has_port (port (the_card s)) (fst (frame_at (ram s) q))"
  have pre: "ring_cursor (rx_range s) (rx_rd s)" "ring_cursor (rx_range s) wr" "\<forall>q \<in> set (rx_pending wr s). ?Q q"
    using assms(1) by (simp_all add: rx_pre_def)
  have deq: "rx_pending wr s = rx_rd s # pending_slots (rx_range s)
      (slot_next (fst (rx_range s)) (snd (rx_range s)) (rx_rd s)) wr"
    by (rule pending_slots_deq [OF pre(1,2)]) (use assms(2) in simp)
  then have "?Q (rx_rd s)" using pre(3) by simp
  then obtain t where t: "rx_frame a s = Inr (Handled, t)"
    "rx_view t = rx_step (rx_view s) (frame_at (ram s) (rx_rd s))" "rx_same s t" "rx_rd t = rx_rd s"
    using rx_frame_step [OF _ pre(1) _ assms(3)] by blast
  have same: "rx_same s (rx_advance t)" using rx_same_trans [OF t(3)] by simp
  have adv: "rx_range (rx_advance t) = rx_range s" "ram (rx_advance t) = ram s"
    "rx_rd (rx_advance t) = slot_next (fst (rx_range s)) (snd (rx_range s)) (rx_rd s)"
    using same t(3,4) unfolding rx_same_def by auto
  have "has_port (port (the_card (rx_advance t))) i = has_port (port (the_card s)) i" for i
    using t(2) rx_step_has_port(1) [of "rx_view s"] by (simp add: rx_view_def prod_eq_iff)
  then have "rx_pre wr (rx_advance t)"
    using pre slot_ok_next [OF pre(1)] deq unfolding rx_pre_def adv by simp
  moreover have "rx_pending wr (rx_advance t) = pending_slots (rx_range s)
      (slot_next (fst (rx_range s)) (snd (rx_range s)) (rx_rd s)) wr" by (simp only: adv)
  ultimately show ?thesis using t same deq by (intro exI [of _ t] conjI) simp_all
qed

lemma poll_loop_ok:
  fixes s :: "'d drv" and wr :: u64 and left :: nat and alloc :: "int \<Rightarrow> bool"
  assumes "rx_pre wr s" and "\<And>k. alloc k"
  defines "n \<equiv> min left (length (rx_pending wr s))"
  shows "\<exists>t. poll_loop alloc wr left w s = Inr (Handled, w + int n, t) \<and> rx_same s t \<and> rx_pre wr t
    \<and> rx_view t = foldl rx_step (rx_view s) (take n (map (frame_at (ram s)) (rx_pending wr s)))
    \<and> rx_pending wr t = drop n (rx_pending wr s)"
  using assms(1) unfolding n_def
proof (induction left arbitrary: w s)
  case 0
  then show ?case by (simp add: rx_same_def)
next
  case (Suc left)
  show ?case
  proof (cases "wr = rx_rd s")
    case True
    then have "rx_pending wr s = []" using pending_Nil_iff [OF Suc.prems] by simp
    then show ?thesis using True Suc.prems by (simp add: rx_same_def)
  next
    case False
    obtain t where t: "rx_frame (alloc w) s = Inr (Handled, t)" "rx_pre wr (rx_advance t)"
      "rx_pending wr s = rx_rd s # rx_pending wr (rx_advance t)"
      "rx_view (rx_advance t) = rx_step (rx_view s) (frame_at (ram s) (rx_rd s))" "rx_same s (rx_advance t)"
      using frame_round [OF Suc.prems False assms(2)] by blast
    have ram: "ram (rx_advance t) = ram s" using t(5) by (simp add: rx_same_def)
    obtain u where "poll_loop alloc wr left (w + 1) (rx_advance t)
        = Inr (Handled, w + 1 + int (min left (length (rx_pending wr (rx_advance t)))), u)"
      "rx_same (rx_advance t) u" "rx_pre wr u"
      "rx_view u = foldl rx_step (rx_view (rx_advance t)) (take (min left (length (rx_pending wr (rx_advance t))))
         (map (frame_at (ram s)) (rx_pending wr (rx_advance t))))"
      "rx_pending wr u = drop (min left (length (rx_pending wr (rx_advance t)))) (rx_pending wr (rx_advance t))"
      using Suc.IH [OF t(2), of "w + 1"] unfolding ram by blast
    then show ?thesis
      using t False rx_same_trans [OF t(5)] by (intro exI [of _ u]) (simp add: add.assoc)
  qed
qed

text \<open>The loop is left by a failed allocation after \<open>k\<close> frames.\<close>

lemma poll_loop_fail:
  fixes s :: "'d drv" and wr :: u64 and alloc :: "int \<Rightarrow> bool"
  assumes "rx_pre wr s" and "k < left" and "k < length (rx_pending wr s)"
    and "\<And>j. w \<le> j \<Longrightarrow> j < w + int k \<Longrightarrow> alloc j" and "\<not> alloc (w + int k)"
    and "36 \<le> length (snd (frame_at (ram s) (rx_pending wr s ! k)))"
    and "port_up (port (the_card s)) (fst (frame_at (ram s) (rx_pending wr s ! k)))"
  shows "\<exists>t. poll_loop alloc wr left w s = Inr (AllocFailed, w + int k, t) \<and> rx_same s t
    \<and> rx_pending wr t = drop k (rx_pending wr s)"
  using assms
proof (induction k arbitrary: left w s)
  case 0
  then obtain l where l: "left = Suc l" using gr0_implies_Suc by blast
  have ne: "wr \<noteq> rx_rd s" using pending_Nil_iff [OF 0(1)] 0(3) by auto
  have "rx_pending wr s ! 0 = rx_rd s"
    using frame_round [OF 0(1) ne, of True] by auto
  then have len: "36 \<le> unat (md_quads (get32 (ram s) (rx_rd s))) * 4"
    and "port_up (port (the_card s)) (md_port (get32 (ram s) (rx_rd s)))"
    using 0(6,7) by (simp_all add: frame_at_def Let_def)
  then obtain p where "port (the_card s) ! unat (md_port (get32 (ram s) (rx_rd s))) = Some p" "oper_up (net p)"
    unfolding port_up_def by blast
  then have "\<exists>t. rx_frame False s = Inr (AllocFailed, t) \<and> rx_same s t \<and> rx_rd t = rx_rd s"
    using len meta_bounds [of s] 0(1) by (simp add: rx_pre_def rx_frame_def Let_def rx_fields_md(1) rx_len_lt rx_same_def mult.commute)
  then show ?case using l ne 0(5) by (auto simp: rx_same_def)
next
  case (Suc k)
  from Suc.prems(2) obtain l where l: "left = Suc l" "k < l" by (cases left) auto
  have ne: "wr \<noteq> rx_rd s" using pending_Nil_iff [OF Suc.prems(1)] Suc.prems(3) by auto
  have "alloc w" using Suc.prems(4) by simp
  then obtain t where t: "rx_frame (alloc w) s = Inr (Handled, t)" "rx_pre wr (rx_advance t)"
    "rx_pending wr s = rx_rd s # rx_pending wr (rx_advance t)"
    "rx_view (rx_advance t) = rx_step (rx_view s) (frame_at (ram s) (rx_rd s))" "rx_same s (rx_advance t)"
    using frame_round [OF Suc.prems(1) ne] by blast
  have ram: "ram (rx_advance t) = ram s" using t(5) by (simp add: rx_same_def)
  have up: "port_up (port (the_card (rx_advance t))) i = port_up (port (the_card s)) i" for i
    using t(4) rx_step_has_port(2) [of "rx_view s"] by (simp add: rx_view_def prod_eq_iff)
  have "\<exists>u. poll_loop alloc wr l (w + 1) (rx_advance t) = Inr (AllocFailed, w + 1 + int k, u)
      \<and> rx_same (rx_advance t) u \<and> rx_pending wr u = drop k (rx_pending wr (rx_advance t))"
    by (rule Suc.IH) (use t l up ram Suc.prems in \<open>auto simp: add.assoc\<close>)
  then obtain u where "poll_loop alloc wr l (w + 1) (rx_advance t) = Inr (AllocFailed, w + 1 + int k, u)"
    "rx_same (rx_advance t) u" "rx_pending wr u = drop k (rx_pending wr (rx_advance t))" by blast
  then show ?case
    using t l ne rx_same_trans [OF t(5)] by (intro exI [of _ u]) (simp add: add.assoc)
qed

section \<open>\<open>poll\<close>\<close>

text \<open>The write pointer that \<open>poll\<close> reads from the card.\<close>

definition poll_wr :: "'d mmio \<Rightarrow> 'd drv \<Rightarrow> u64" where
  "poll_wr b s = ptr_from_reg (rx_buf_start (the_card s)) (rx_buf_start_dma (the_card s)) (fst (ioread32 b 0x8AC s))"

text \<open>
  C2. Reception as a queue: when the card's write pointer is a cursor of the ring, every pending frame
  is for a registered port and has its data in its slot, and no allocation fails, \<open>poll\<close> handles
  exactly the first min(budget, pending) frames, in order: each is delivered to the stack with its
  port and counted, or dropped and counted when its port is down or it is shorter than 36 bytes. It
  returns their number, acknowledges the new read pointer to the card once, and completes the NAPI
  instance exactly when the budget was not used up.
\<close>

theorem poll_processes_pending:
  fixes s :: "'d drv" and b :: "'d mmio" and budget :: int
  assumes "rx_pre (poll_wr b s) s" and "\<And>k. alloc k" and "0 \<le> budget"
  defines "ps \<equiv> rx_pending (poll_wr b s) s"
  defines "n \<equiv> min (nat budget) (length ps)"
  shows "\<exists>t. poll b alloc budget s = Inr (int n, t)
    \<and> rx_view t = foldl rx_step (rx_view s) (take n (map (frame_at (ram s)) ps))
    \<and> rx_pending (poll_wr b s) t = drop n ps
    \<and> dev t = iowrite b (dev (snd (ioread32 b 0x8AC s))) 0x8A8
        (reg_from_ptr (rx_buf_start (the_card s)) (rx_buf_start_dma (the_card s)) (rx_rd t))
    \<and> napi_scheduled t = (napi_scheduled s \<and> int n = budget)"
proof -
  let ?wr = "poll_wr b s" and ?s = "snd (ioread32 b 0x8AC s)"
  have pre: "rx_pre ?wr ?s" "rx_pending ?wr ?s = ps" "rx_view ?s = rx_view s"
    using assms(1) by (simp_all add: rx_pre_def ps_def rx_view_def)
  obtain t where t: "poll_loop alloc ?wr (nat budget) 0 ?s = Inr (Handled, int n, t)" "rx_same ?s t"
    "rx_view t = foldl rx_step (rx_view s) (take n (map (frame_at (ram s)) ps))"
    "rx_pending ?wr t = drop n ps"
    using poll_loop_ok [where s = ?s and wr = ?wr and left = "nat budget" and w = 0 and alloc = alloc,
        OF pre(1) assms(2)]
    unfolding pre n_def by auto
  let ?u = "iowrite32 b (reg_from_ptr (rx_buf_start (the_card t)) (rx_buf_start_dma (the_card t)) (rx_rd t)) 0x8A8 t"
  let ?r = "if int n < budget then ?u\<lparr>napi_scheduled := False\<rparr> else ?u"
  have "poll b alloc budget s = Inr (int n, ?r)"
    using t(1) by (simp add: poll_def poll_wr_def split_beta Let_def)
  moreover have "rx_view ?r = rx_view t" "rx_pending ?wr ?r = rx_pending ?wr t" "rx_rd ?r = rx_rd t"
    by (simp_all add: rx_view_def)
  moreover have "int n \<le> budget" using assms(3) by (simp add: n_def)
  ultimately show ?thesis
    using t(2-4) by (intro exI [of _ ?r]) (auto simp: rx_same_def iowrite32_def)
qed

lemma poll_alloc_fail:
  fixes s :: "'d drv" and b :: "'d mmio" and budget :: int
  assumes "rx_pre (poll_wr b s) s" and "k < length (rx_pending (poll_wr b s) s)" and "int k < budget"
    and "port_up (port (the_card s)) (fst (frame_at (ram s) (rx_pending (poll_wr b s) s ! k)))"
    and "36 \<le> length (snd (frame_at (ram s) (rx_pending (poll_wr b s) s ! k)))"
    and "\<And>j. 0 \<le> j \<Longrightarrow> j < int k \<Longrightarrow> alloc j" and "\<not> alloc (int k)"
  shows "\<exists>t. poll b alloc budget s = Inr (int k, t) \<and> napi_scheduled t = napi_scheduled s
    \<and> dev t = dev (snd (ioread32 b 0x8AC s))
    \<and> rx_pending (poll_wr b s) t = drop k (rx_pending (poll_wr b s) s)"
proof -
  let ?wr = "poll_wr b s" and ?s = "snd (ioread32 b 0x8AC s)"
  have pre: "rx_pre ?wr ?s" "rx_pending ?wr ?s = rx_pending ?wr s"
    using assms(1) by (simp_all add: rx_pre_def)
  have "k < nat budget" using assms(3) by simp
  then obtain t where t: "poll_loop alloc ?wr (nat budget) 0 ?s = Inr (AllocFailed, int k, t)" "rx_same ?s t"
    "rx_pending ?wr t = drop k (rx_pending ?wr s)"
    using poll_loop_fail [where s = ?s and wr = ?wr and left = "nat budget" and w = 0 and k = k and alloc = alloc,
        OF pre(1)] assms unfolding pre by auto
  have "poll b alloc budget s = Inr (int k, t)"
    using t(1) by (simp add: poll_def poll_wr_def split_beta Let_def)
  then show ?thesis using t(2,3) by (auto simp: rx_same_def)
qed

text \<open>
  C20. A failed allocation stalls reception. When every pending frame is for a registered port and has
  its data in its slot, the first failed allocation is for a frame of at least 36 bytes for a port
  that is up, and the budget is not used up before it, \<open>poll\<close> returns the number of frames before it,
  less than the budget, without completing the NAPI instance and without acknowledging the read
  pointer, so that the card is not told to raise the next interrupt.
\<close>

theorem poll_alloc_failure_stalls:
  fixes s :: "'d drv" and b :: "'d mmio" and budget :: int
  assumes "rx_pre (poll_wr b s) s" and "k < length (rx_pending (poll_wr b s) s)" and "int k < budget"
    and "port_up (port (the_card s)) (fst (frame_at (ram s) (rx_pending (poll_wr b s) s ! k)))"
    and "36 \<le> length (snd (frame_at (ram s) (rx_pending (poll_wr b s) s ! k)))"
    and "\<And>j. 0 \<le> j \<Longrightarrow> j < int k \<Longrightarrow> alloc j" and "\<not> alloc (int k)"
  shows "\<exists>t. poll b alloc budget s = Inr (int k, t) \<and> napi_scheduled t = napi_scheduled s
    \<and> dev t = dev (snd (ioread32 b 0x8AC s))
    \<and> rx_pending (poll_wr b s) t = drop k (rx_pending (poll_wr b s) s)"
  by (rule poll_alloc_fail [where alloc = alloc, OF assms])

section \<open>Frames that the driver trusts\<close>

lemma poll_first_fault:
  assumes "rx_frame (alloc 0) (snd (ioread32 b 0x8AC s)) = Inl e" and "poll_wr b s \<noteq> rx_rd s" and "0 < budget"
  shows "poll b alloc budget s = Inl e"
proof -
  obtain l where "nat budget = Suc l" using assms(3) by (metis gr0_implies_Suc zero_less_nat_eq)
  then show ?thesis using assms(1,2) by (simp add: poll_def poll_wr_def split_beta Let_def)
qed

text \<open>
  C30. The port number of a frame is not checked against the registered ports: a frame for a port
  that is not registered (there are two ports, the field has two bits) makes \<open>poll\<close> dereference a
  null pointer.
\<close>

theorem poll_unregistered_port_fault:
  assumes "poll_wr b s \<noteq> rx_rd s" and "0 < budget" and "ring_cursor (rx_range s) (rx_rd s)"
    and "port (the_card s) ! unat (md_port (get32 (ram s) (rx_rd s))) = None"
  shows "poll b alloc budget s = Inl NullDeref"
  by (rule poll_first_fault) (use assms meta_bounds [of s] in \<open>simp_all add: rx_frame_def Let_def rx_fields_md\<close>)

text \<open>
  C31. Offset and length of a frame are not checked against the slot: in the last slot of the ring, a
  frame for a port that is up whose data would leave its slot makes \<open>poll\<close> read past the end of the
  buffer, when it is the next frame and its allocation succeeds.
\<close>

theorem poll_oversized_frame_fault:
  assumes "poll_wr b s \<noteq> rx_rd s" and "0 < budget" and "alloc 0"
    and "port_up (port (the_card s)) (fst (frame_at (ram s) (rx_rd s)))" and "ring_cursor (rx_range s) (rx_rd s)"
    and "rx_rd s + 4096 = rx_buf_end (the_card s)" and "\<not> frame_fits (ram s) (rx_rd s)"
  shows "poll b alloc budget s = Inl OutOfBounds"
proof (rule poll_first_fault [OF _ assms(1,2)])
  let ?md = "get32 (ram s) (rx_rd s)"
  obtain p where p: "port (the_card s) ! unat (md_port ?md) = Some p" "oper_up (net p)"
    using assms(4) unfolding port_up_def by (auto simp: frame_at_def Let_def)
  have big: "4096 < unat (md_off ?md) * 4 + unat (md_quads ?md) * 4"
    using assms(7) by (simp add: frame_fits_def Let_def)
  have "unat (rx_rd s + rx_offset ?md) = unat (rx_rd s) + unat (md_off ?md) * 4"
    unfolding rx_fields_md(4) using md_off_le [of ?md]
    by (intro unat_slot_plus [where st = "fst (rx_range s)", OF assms(5)]) simp
  moreover have "unat (rx_buf_end (the_card s)) = unat (rx_rd s) + 4096"
    using slot_end [OF slot_room [OF assms(5)]] unfolding assms(6) [symmetric]
    by (subst unat_add_no_wrap) simp_all
  ultimately have "\<not> buf_bounds (rx_buf_start (the_card s)) (rx_buf_end (the_card s))
      (rx_rd s + rx_offset ?md) (unat (rx_len ?md))"
    using big by (simp add: buf_bounds_def rx_fields_md(2))
  then show "rx_frame (alloc 0) (snd (ioread32 b 0x8AC s)) = Inl OutOfBounds"
    using p big assms(3) meta_bounds [OF assms(5)] md_off_le [of ?md]
    by (simp add: rx_frame_def Let_def rx_fields_md(1) rx_len_lt)
qed

section \<open>Concrete instances\<close>

text \<open>Two registered ports, with the frame \<open>f\<close> in the slot at \<open>rd\<close> and the card's write pointer one
  slot further on (a ring of four slots).\<close>

definition demo_rx :: "u64 \<Rightarrow> u64 \<Rightarrow> u32 \<Rightarrow> (u32 \<Rightarrow> u32) drv" where
  "demo_rx rd wr md = (demo_drv 0 0)\<lparr>
     the_card := (the_card (demo_drv 0 0))\<lparr>port := [Some (demo_port 0), Some (demo_port 1), None, None],
       rx_buf_read := 0xffff888000100000 + rd\<rparr>,
     dev := (\<lambda>_. 0)(0x8AC := 0x100000 + ucast wr),
     ram := mem_put (\<lambda>_. 0) (0xffff888000100000 + rd) (le32 md), napi_scheduled := True\<rparr>"

lemma demo_rx_fields [simp]:
  "port (the_card (demo_rx rd wr md)) = [Some (demo_port 0), Some (demo_port 1), None, None]"
  "rx_buf_start (the_card (demo_rx rd wr md)) = 0xffff888000100000"
  "rx_buf_start_dma (the_card (demo_rx rd wr md)) = 0x100000"
  "rx_buf_end (the_card (demo_rx rd wr md)) = 0xffff888000104000"
  "rx_rd (demo_rx rd wr md) = 0xffff888000100000 + rd"
  "get32 (ram (demo_rx rd wr md)) (0xffff888000100000 + rd) = md"
  "napi_scheduled (demo_rx rd wr md)" "delivered (demo_rx rd wr md) = []"
  by (simp_all add: demo_rx_def demo_drv_def get32_put_le32)

lemma demo_rx_wr: "poll_wr regfile (demo_rx rd wr md) = 0xffff888000100000 + scast (ucast (ucast (0x100000 + ucast wr :: u32) - 0x100000 :: u64) :: u32)"
  by (simp add: poll_wr_def ptr_from_reg_def ioread32_def) (simp add: demo_rx_def)

lemma demo_port_up [simp]: "oper_up (net (demo_port i))"
  by (simp add: demo_port_def demo_net_def)

lemma demo_md: "md_off (md_word 1 9 4) = 4" "md_quads (md_word 1 9 4) = 9" "md_port (md_word 1 9 4) = 1"
  by (simp_all add: md_fields_small del: md_fields)

text \<open>One frame of 36 bytes for port 1 pending.\<close>

abbreviation demo_one :: "(u32 \<Rightarrow> u32) drv" where
  "demo_one \<equiv> demo_rx 0 0x1000 (md_word 1 9 4)"

lemma demo_one_pre:
  "poll_wr regfile demo_one = 0xffff888000101000"
  "rx_pending 0xffff888000101000 demo_one = [0xffff888000100000]"
  "rx_pre 0xffff888000101000 demo_one"
proof -
  show wr: "poll_wr regfile demo_one = 0xffff888000101000" by (simp add: demo_rx_wr)
  show pend: "rx_pending 0xffff888000101000 demo_one = [0xffff888000100000]"
    by (simp add: pending_slots_def ring_used_def ring_defs)
  have "get32 (ram demo_one) 0xffff888000100000 = md_word 1 9 4"
    using demo_rx_fields(6) [of 0 "0x1000" "md_word 1 9 4"] by simp
  then have "frame_fits (ram demo_one) 0xffff888000100000" "fst (frame_at (ram demo_one) 0xffff888000100000) = 1"
    unfolding frame_fits_def frame_at_def by (simp_all only: Let_def demo_md) simp_all
  then show "rx_pre 0xffff888000101000 demo_one"
    unfolding rx_pre_def pend by (simp add: has_port_def slot_ok_def)
qed

lemma demo_one_frame: "length (snd (frame_at (ram demo_one) 0xffff888000100000)) = 36"
  "fst (frame_at (ram demo_one) 0xffff888000100000) = 1"
  using demo_rx_fields(6) [of 0 "0x1000" "md_word 1 9 4"] by (simp_all add: frame_at_def Let_def)

theorem poll_processes_pending_witness:
  "\<exists>t. poll regfile (\<lambda>_. True) 64 demo_one = Inr (1, t) \<and> \<not> napi_scheduled t
    \<and> delivered t = [(1, snd (frame_at (ram demo_one) 0xffff888000100000))]"
proof -
  have "rx_pre (poll_wr regfile demo_one) demo_one" using demo_one_pre by simp
  then have "\<exists>t. poll regfile (\<lambda>_. True) 64 demo_one = Inr (1, t) \<and> \<not> napi_scheduled t
      \<and> rx_view t = rx_step (rx_view demo_one) (frame_at (ram demo_one) 0xffff888000100000)"
    using poll_processes_pending [where b = regfile and s = demo_one and alloc = "\<lambda>_. True" and budget = 64]
    unfolding demo_one_pre by auto
  then show ?thesis
    using demo_one_frame by (auto simp: rx_step_def rx_view_def demo_port_def demo_net_def)
qed

theorem poll_alloc_failure_stalls_witness:
  "\<exists>t. poll regfile (\<lambda>_. False) 64 demo_one = Inr (0, t) \<and> napi_scheduled t \<and> dev t 0x8A8 = 0"
proof -
  note demo_one_frame
  moreover have "dev demo_one 0x8A8 = 0" by (simp add: demo_rx_def)
  ultimately show ?thesis
    using poll_alloc_failure_stalls [where b = regfile and s = demo_one and alloc = "\<lambda>_. False" and budget = 64 and k = 0]
    unfolding demo_one_pre by (auto simp: port_up_def demo_one_pre ioread32_def)
qed

theorem poll_unregistered_port_fault_witness:
  "poll regfile (\<lambda>_. True) 64
     (demo_one\<lparr>the_card := (the_card demo_one)\<lparr>port := [Some (demo_port 0), None, None, None]\<rparr>\<rparr>) = Inl NullDeref"
  (is "poll _ _ _ ?s = _")
proof (rule poll_unregistered_port_fault)
  have "get32 (ram ?s) (rx_rd ?s) = md_word 1 9 4"
    using demo_rx_fields(6) [of 0 "0x1000" "md_word 1 9 4"] by simp
  then show "port (the_card ?s) ! unat (md_port (get32 (ram ?s) (rx_rd ?s))) = None" by (simp only: demo_md) simp
  have "poll_wr regfile ?s = poll_wr regfile demo_one" by (simp add: poll_wr_def ioread32_def)
  then show "poll_wr regfile ?s \<noteq> rx_rd ?s" by (simp add: demo_one_pre)
qed (simp_all add: slot_ok_def)

theorem poll_oversized_frame_fault_witness:
  "poll regfile (\<lambda>_. True) 64 (demo_rx 0x3000 0 (md_word 1 1023 4)) = Inl OutOfBounds"
proof (rule poll_oversized_frame_fault)
  let ?s = "demo_rx 0x3000 0 (md_word 1 1023 4)"
  show "poll_wr regfile ?s \<noteq> rx_rd ?s" by (simp add: demo_rx_wr)
  show "\<not> frame_fits (ram ?s) (rx_rd ?s)"
    unfolding demo_rx_fields frame_fits_def by (simp add: Let_def)
  have "get32 (ram ?s) (rx_rd ?s) = md_word 1 1023 4"
    using demo_rx_fields(6) [of "0x3000" 0 "md_word 1 1023 4"] by simp
  then have "fst (frame_at (ram ?s) (rx_rd ?s)) = 1"
    unfolding frame_at_def by (simp add: Let_def md_fields_small del: md_fields demo_rx_fields)
  then show "port_up (port (the_card ?s)) (fst (frame_at (ram ?s) (rx_rd ?s)))" by (simp add: port_up_def)
qed (simp_all add: slot_ok_def)

end
