(* ===== verification/DrvI2cErrors.thy ===== *)
theory DrvI2cErrors
  imports DrvI2c
begin

text \<open>
  The outcomes of the interrupt handler of \<open>src/driver/src/i2c.c\<close> on arbitrary hardware: how
  errors are reported, when a transfer is declared complete, the receive overflow that is
  reported as success, the race between the transmit loop and the handler, and the timing
  registers that \<open>altr_i2c_init\<close> programs.
\<close>

section \<open>Completion and errors\<close>

lemma isr_finish_masks: "poll_frame E \<Longrightarrow> isr_mask (idev (isr_finish E s)) AND ALTR_I2C_ALL_IRQ = 0"
  by (simp add: isr_finish_def split_beta Let_def idev_int_enable and.assoc)

text \<open>The last accesses of a handler that finishes a transfer: all sources are masked in the enable
  register, and then the status register is read and acknowledged.\<close>

definition masked_and_acked :: "'d mmio \<Rightarrow> u32 \<Rightarrow> u32 \<Rightarrow> 'd \<Rightarrow> 'd \<Rightarrow> bool" where
  "masked_and_acked b off v d d' \<longleftrightarrow> v AND ALTR_I2C_ALL_IRQ = 0
     \<and> (let d1 = iowrite b d (off + ALTR_I2C_ISER) v; (p, d2) = ioread b d1 (off + ALTR_I2C_ISR)
        in d' = iowrite b d2 (off + ALTR_I2C_ISR) (p OR ALTR_I2C_ALL_IRQ))"

lemma isr_finish_hw:
  assumes "poll_frame E"
  shows "\<exists>d. masked_and_acked (bus E) (base (idev s)) (isr_mask (idev (isr_finish E s))) d (hw (isr_finish E s))"
  using assms isr_finish_masks [OF assms, of s]
  by (auto simp: masked_and_acked_def isr_finish_def poll_frame_def altr_i2c_int_enable_def altr_i2c_int_clear_def
      readl_def writel_def split_beta Let_def)

lemma isr_live:
  "msg (idev s) = Some m \<Longrightarrow> isr_service (bus E) (m_rd m) (isr_status (idev s)) s = Inr (f, t) \<Longrightarrow>
    altr_i2c_isr E s = Inr (IRQ_HANDLED, if f then isr_finish E t else t)"
  by (simp add: altr_i2c_isr_def Let_def)

lemma isr_service_bus_error:
  assumes "st AND ALTR_I2C_ISR_ARB \<noteq> 0 \<or> st AND ALTR_I2C_ISR_NACK \<noteq> 0"
  shows "\<exists>t. isr_service b rd st s = Inr (True, t) \<and> base (idev t) = base (idev s)
    \<and> msg_err (idev t) = (if st AND ALTR_I2C_ISR_ARB \<noteq> 0 then - EAGAIN else - ENXIO)"
  using assms by (cases "st AND ALTR_I2C_ISR_ARB = 0") (simp_all add: isr_service_def set_err_def)

text \<open>
  C15. Bus errors end the transfer: on lost arbitration the handler records \<open>-EAGAIN\<close>, on a missing
  acknowledge (and no lost arbitration) \<open>-ENXIO\<close>, and signals completion. In both cases its last
  accesses to the device are a write to the interrupt enable register in which every source of the driver
  is masked, the value being the cached mask, and the acknowledgement of all sources in the status
  register; on any hardware and in any state of a live transfer.
\<close>

theorem isr_error_reported:
  assumes "poll_frame E" and "msg (idev s) = Some m"
    and "isr_status (idev s) AND (ALTR_I2C_ISR_ARB OR ALTR_I2C_ISR_NACK) \<noteq> 0"
  shows "\<exists>t d. altr_i2c_isr E s = Inr (IRQ_HANDLED, t) \<and> msg_complete (idev t)
    \<and> msg_err (idev t) = (if isr_status (idev s) AND ALTR_I2C_ISR_ARB \<noteq> 0 then - EAGAIN else - ENXIO)
    \<and> masked_and_acked (bus E) (base (idev s)) (isr_mask (idev t)) d (hw t)"
proof -
  have "isr_status (idev s) AND ALTR_I2C_ISR_ARB \<noteq> 0 \<or> isr_status (idev s) AND ALTR_I2C_ISR_NACK \<noteq> 0"
    using assms(3) by (auto simp: bit.conj_disj_distrib)
  then obtain t where t: "isr_service (bus E) (m_rd m) (isr_status (idev s)) s = Inr (True, t)" "base (idev t) = base (idev s)"
    "msg_err (idev t) = (if isr_status (idev s) AND ALTR_I2C_ISR_ARB \<noteq> 0 then - EAGAIN else - ENXIO)"
    using isr_service_bus_error [of "isr_status (idev s)" "bus E" "m_rd m" s] by blast
  obtain d where "masked_and_acked (bus E) (base (idev t)) (isr_mask (idev (isr_finish E t))) d (hw (isr_finish E t))"
    using isr_finish_hw [OF assms(1)] by blast
  then show ?thesis
    using t isr_live [OF assms(2)] isr_finish_fields [OF assms(1)] by (intro exI [of _ "isr_finish E t"] exI [of _ d]) simp
qed

text \<open>
  C14. Without an error bit in the status, a transfer is only declared complete when no byte is
  left, and no error is recorded.
\<close>

theorem isr_complete_when_done:
  assumes "poll_frame E" and "buf_inv (idev s)" and "\<not> msg_complete (idev s)"
    and "isr_status (idev s) AND (ALTR_I2C_ISR_ARB OR ALTR_I2C_ISR_NACK OR ALTR_I2C_ISR_RXOF) = 0"
    and "altr_i2c_isr E s = Inr (r, t)"
  shows "msg_err (idev t) = msg_err (idev s)
    \<and> (if msg_complete (idev t) then msg_len (idev t) = 0 else
        (case msg (idev s) of None \<Rightarrow> True
         | Some m \<Rightarrow> m_rd m \<and> isr_status (idev s) AND ALTR_I2C_ISR_RXRDY \<noteq> 0 \<longrightarrow> msg_len (idev t) \<noteq> 0))"
proof -
  obtain m where m: "msg (idev s) = Some m"
    using assms(2) by (auto simp: buf_inv_def split: option.splits)
  obtain n s1 where rx: "altr_i2c_empty_rx_fifo (bus E) s = Inr s1" "buf_step n (idev s) (idev s1)"
    using empty_rx_fifo_step [OF assms(2)] by blast
  let ?c = "altr_i2c_int_clear (bus E) ALTR_I2C_ISR_TXRDY s"
  obtain k q s2 where tx: "altr_i2c_fill_tx_fifo (bus E) ?c = Inr (q, s2)" "buf_step k (idev s) (idev s2)"
    using fill_tx_fifo_step [of ?c "bus E"] assms(2) by auto
  have b: "isr_status (idev s) AND ALTR_I2C_ISR_ARB = 0" "isr_status (idev s) AND ALTR_I2C_ISR_NACK = 0"
    "isr_status (idev s) AND ALTR_I2C_ISR_RXOF = 0"
    using assms(4) by (auto simp: bit.conj_disj_distrib or_eq_0_iff)
  obtain f u where u: "isr_service (bus E) (m_rd m) (isr_status (idev s)) s = Inr (f, u)"
    using isr_service_keep [OF assms(2)] by blast
  have eqs: "msg_err (idev u) = msg_err (idev s)" "msg_complete (idev u) = msg_complete (idev s)"
    "f \<longrightarrow> msg_len (idev u) = 0"
    "\<not> f \<and> m_rd m \<and> isr_status (idev s) AND ALTR_I2C_ISR_RXRDY \<noteq> 0 \<longrightarrow> msg_len (idev u) \<noteq> 0"
    using u b rx tx
    by (auto simp: isr_service_def buf_step_def Let_def word_pos_iff split: if_splits)
  have t: "t = (if f then isr_finish E u else u)"
    using isr_live [OF m u] assms(5) by simp
  show ?thesis
    using eqs assms(3) m unfolding t by (cases f) (simp_all add: isr_finish_fields [OF assms(1)])
qed

section \<open>Receive overflow\<close>

text \<open>
  C24. A receive overflow is reported as success: with bytes of the message still missing, the
  handler completes the transfer without recording an error, and \<open>altr_i2c_xfer_msg\<close> then
  returns 0 as for a full transfer.
\<close>

theorem rx_overflow_reported_as_success:
  assumes "poll_frame E" and "buf_inv (idev s)" and "msg (idev s) = Some m" and "m_rd m"
    and "isr_status (idev s) = ALTR_I2C_ISR_RXOF" and "msg_err (idev s) = 0"
    and "unat (fst (readl (bus E) ALTR_I2C_RX_FIFO_LVL s)) < unat (msg_len (idev s))"
  shows "\<exists>t. altr_i2c_isr E s = Inr (IRQ_HANDLED, t) \<and> msg_complete (idev t) \<and> 0 < msg_len (idev t)
    \<and> (\<forall>imask left. left \<noteq> 0 \<longrightarrow> fst (xfer_end (bus E) imask left t) = 0)"
proof -
  obtain n u where u: "altr_i2c_empty_rx_fifo (bus E) s = Inr u" "buf_step n (idev s) (idev u)"
    "n = min (unat (fst (readl (bus E) ALTR_I2C_RX_FIFO_LVL s))) (unat (msg_len (idev s)))"
    using empty_rx_fifo_step [OF assms(2)] by blast
  let ?t = "isr_finish E (altr_i2c_stop (bus E) (altr_i2c_int_clear (bus E) ALTR_I2C_ISR_RXRDY u))"
  have "altr_i2c_isr E s = Inr (IRQ_HANDLED, ?t)"
    using u assms(3-5) by (subst isr_live [OF assms(3)]) (auto simp: isr_service_def regs)
  moreover have "0 < unat (msg_len (idev u))" "msg_err (idev u) = 0"
    using u(2,3) assms(6,7) by (auto simp: buf_step_def)
  ultimately show ?thesis
    using isr_finish_fields [OF assms(1)]
    by (auto simp: xfer_end_def split_beta Let_def word_less_nat_alt)
qed

section \<open>The transmit race\<close>

text \<open>
  \<open>altr_i2c_fill_tx_fifo\<close> writes a byte to the hardware before it decrements \<open>msg_len\<close>, and
  \<open>altr_i2c_xfer_msg\<close> calls it with the interrupt already enabled and no lock held.

  C23. If the interrupt for the last byte of a message is handled between the two, the handler
  still counts one byte to send and reads behind the end of the message's buffer.
\<close>

theorem tx_race_overruns_buffer:
  assumes "buf_inv (idev s)" and "msg (idev s) = Some m" and "\<not> m_rd m" and "msg_len (idev s) = 1"
    and "tx_half (bus E) s = Inr t"
    and "u = t\<lparr>idev := (idev t)\<lparr>isr_status := ALTR_I2C_ISR_TXRDY\<rparr>\<rparr>"
    and "fst (readl (bus E) ALTR_I2C_TC_FIFO_LVL (altr_i2c_int_clear (bus E) ALTR_I2C_ISR_TXRDY u))
       \<noteq> fifo_size (idev u)"
  shows "altr_i2c_isr E u = Inl OutOfBounds"
proof -
  have one: "bufp (idev s) + 1 = length (m_buf m)"
    using assms(1,2,4) by (simp add: buf_inv_def)
  then have t: "msg (idev t) = Some m" "msg_len (idev t) = 1" "bufp (idev t) = length (m_buf m)"
    using assms(2,4,5) by (auto simp: tx_half_def buf_load_def split: if_splits)
  let ?c = "altr_i2c_int_clear (bus E) ALTR_I2C_ISR_TXRDY u"
  let ?a = "fifo_size (idev u) - fst (readl (bus E) ALTR_I2C_TC_FIFO_LVL ?c)"
  have u: "msg (idev u) = Some m" "msg_len (idev u) = 1" "bufp (idev u) = length (m_buf m)"
    using t assms(6) by simp_all
  have "?a \<noteq> 0" using assms(7) by simp
  then have "0 < unat ?a" by (simp add: unat_gt_0)
  then have cnt: "int_count (min (ucast ?a) 1) = Suc 0"
    by (subst int_count_min) (simp_all add: unat_ucast_up min_def)
  have "buf_load (snd (readl (bus E) ALTR_I2C_TC_FIFO_LVL ?c)) = Inl OutOfBounds"
    using u by (simp add: buf_load_def)
  then have "altr_i2c_fill_tx_fifo (bus E) ?c = Inl OutOfBounds"
    using u cnt by (simp add: altr_i2c_fill_tx_fifo_def split_beta Let_def tx_half_def)
  moreover have "isr_status (idev u) = ALTR_I2C_ISR_TXRDY" using assms(6) by simp
  ultimately show ?thesis
    using u assms(3) by (simp add: altr_i2c_isr_def isr_service_def Let_def regs)
qed

section \<open>Bus timing\<close>

lemma CLK_mhz: "CLK_div 1000000 = 50"
  by (simp add: CLK_div_def)

lemma unat_CLK_div: "unat (CLK_div r) = 50000000 div unat r"
  by (simp add: CLK_div_def unat_div_distrib)

text \<open>
  C16. \<open>altr_i2c_init\<close> on a register file: for every non-zero rate up to fast mode, the programmed
  low and high counts together never exceed the 50 MHz cycles of one bit (so the bus is at least
  as fast as asked for, by at most two cycles per bit), fast mode is selected exactly above
  100 kHz, the hold time is 15 cycles (300 ns), the core ends up enabled and every interrupt
  source masked.
\<close>

theorem init_programs_timing:
  assumes "0 < bus_clk_rate (idev s)"
  defines "rate \<equiv> bus_clk_rate (idev s)"
    and "reg \<equiv> (\<lambda>r. hw (altr_i2c_init regfile s) (base (idev s) + r))"
  shows "unat (reg ALTR_I2C_SCL_HIGH) + unat (reg ALTR_I2C_SCL_LOW) \<le> 50000000 div unat rate
    \<and> 50000000 div unat rate \<le> unat (reg ALTR_I2C_SCL_HIGH) + unat (reg ALTR_I2C_SCL_LOW) + 1
    \<and> reg ALTR_I2C_SDA_HOLD = 15
    \<and> reg ALTR_I2C_CTRL = (if rate \<le> 100000 then ALTR_I2C_CTRL_EN else ALTR_I2C_CTRL_BSPEED OR ALTR_I2C_CTRL_EN)
    \<and> reg ALTR_I2C_ISER AND ALTR_I2C_ALL_IRQ = 0"
proof -
  let ?d = "CLK_div rate"
  have le: "unat ?d \<le> 50000000" by (simp add: unat_CLK_div)
  have h: "reg ALTR_I2C_SCL_HIGH = (if rate \<le> 100000 then ?d div 2 else ?d div 3)"
    and l: "reg ALTR_I2C_SCL_LOW = (if rate \<le> 100000 then ?d div 2 else ?d * 2 div 3)"
    and "reg ALTR_I2C_SDA_HOLD = 15"
    and "reg ALTR_I2C_CTRL = (if rate \<le> 100000 then ALTR_I2C_CTRL_EN else ALTR_I2C_CTRL_BSPEED OR ALTR_I2C_CTRL_EN)"
    and "reg ALTR_I2C_ISER AND ALTR_I2C_ALL_IRQ = 0"
    unfolding reg_def rate_def
    by (simp_all add: altr_i2c_init_def altr_i2c_reset_def altr_i2c_core_disable_def
        altr_i2c_core_enable_def altr_i2c_int_enable_def readl_def writel_def Let_def CLK_mhz regs and.assoc)
  moreover have "unat (?d * 2) = unat ?d * 2"
    using le by (simp add: unat_word_ariths)
  ultimately show ?thesis
    using le by (simp add: unat_div_distrib unat_CLK_div [symmetric]) linarith
qed

section \<open>Concrete instances\<close>

theorem isr_error_reported_witness:
  "\<exists>t. altr_i2c_isr demo_env (demo_i2c True [0, 0] 2 (ALTR_I2C_ISR_ARB OR ALTR_I2C_ISR_NACK)) = Inr (IRQ_HANDLED, t)
    \<and> msg_err (idev t) = - 11 \<and> hw t ALTR_I2C_ISER AND ALTR_I2C_ALL_IRQ = 0"
proof -
  let ?s = "demo_i2c True [0, 0] 2 (ALTR_I2C_ISR_ARB OR ALTR_I2C_ISR_NACK)"
  have s: "msg (idev ?s) = Some \<lparr>m_addr = 0x50, m_rd = True, m_len = 2, m_buf = [0, 0]\<rparr>"
    "isr_status (idev ?s) = ALTR_I2C_ISR_ARB OR ALTR_I2C_ISR_NACK" "base (idev ?s) = 0" by (simp_all add: demo_i2c_def)
  have bus: "bus demo_env = regfile" by (simp add: demo_env_def)
  obtain t d where t: "altr_i2c_isr demo_env ?s = Inr (IRQ_HANDLED, t)" "msg_err (idev t) = - EAGAIN"
    "masked_and_acked regfile 0 (isr_mask (idev t)) d (hw t)"
    using isr_error_reported [OF demo_env_ok(1) s(1)] unfolding s(2,3) bus by (auto simp: regs)
  moreover have "hw t ALTR_I2C_ISER AND ALTR_I2C_ALL_IRQ = 0"
    using t(3) by (simp add: masked_and_acked_def Let_def) (simp add: regs)
  ultimately show ?thesis by (simp add: errno_defs)
qed

theorem isr_complete_when_done_witness:
  "\<exists>t. altr_i2c_isr demo_env (demo_i2c True [0] 1 ALTR_I2C_ISR_RXRDY) = Inr (IRQ_HANDLED, t) \<and> msg_err (idev t) = 0"
proof -
  let ?s = "demo_i2c True [0] 1 ALTR_I2C_ISR_RXRDY"
  have inv: "buf_inv (idev ?s)" by (rule demo_i2c_inv) simp_all
  have s: "\<not> msg_complete (idev ?s)" "isr_status (idev ?s) = ALTR_I2C_ISR_RXRDY" "msg_err (idev ?s) = 0"
    by (simp_all add: demo_i2c_def)
  obtain t where t: "altr_i2c_isr demo_env ?s = Inr (IRQ_HANDLED, t)"
    using isr_keep [OF demo_env_ok(1) inv] by blast
  then have "msg_err (idev t) = msg_err (idev ?s)"
    using isr_complete_when_done [OF demo_env_ok(1) inv s(1) _ t] s(2) by (simp add: regs)
  then show ?thesis using t s(3) by simp
qed

theorem rx_overflow_reported_as_success_witness:
  "\<exists>t. altr_i2c_isr demo_env (demo_i2c True [0, 0] 2 ALTR_I2C_ISR_RXOF) = Inr (IRQ_HANDLED, t)
    \<and> msg_complete (idev t) \<and> 0 < msg_len (idev t)"
proof -
  let ?s = "demo_i2c True [0, 0] 2 ALTR_I2C_ISR_RXOF"
  have inv: "buf_inv (idev ?s)" by (rule demo_i2c_inv) simp_all
  have "fst (readl regfile ALTR_I2C_RX_FIFO_LVL ?s) = 1" by (simp add: readl_def demo_i2c_def regs)
  then show ?thesis
    using rx_overflow_reported_as_success [OF demo_env_ok(1) inv, of "\<lparr>m_addr = 0x50, m_rd = True, m_len = 2, m_buf = [0, 0]\<rparr>"]
    by (auto simp: demo_env_ok(2) demo_i2c_def)
qed

theorem tx_race_overruns_buffer_witness:
  "\<exists>t. tx_half regfile (demo_i2c False [7] 1 0) = Inr t
    \<and> altr_i2c_isr demo_env (t\<lparr>idev := (idev t)\<lparr>isr_status := ALTR_I2C_ISR_TXRDY\<rparr>\<rparr>) = Inl OutOfBounds"
proof -
  let ?s = "demo_i2c False [7] 1 0"
  have inv: "buf_inv (idev ?s)" by (rule demo_i2c_inv) simp_all
  obtain t where t: "tx_half regfile ?s = Inr t"
    by (simp add: tx_half_def buf_load_def demo_i2c_def)
  let ?u = "t\<lparr>idev := (idev t)\<lparr>isr_status := ALTR_I2C_ISR_TXRDY\<rparr>\<rparr>"
  have "fst (readl regfile ALTR_I2C_TC_FIFO_LVL (altr_i2c_int_clear regfile ALTR_I2C_ISR_TXRDY ?u)) \<noteq> fifo_size (idev ?u)"
    using t by (auto simp: tx_half_def buf_load_def demo_i2c_def altr_i2c_transfer_def altr_i2c_int_clear_def
        readl_def writel_def Let_def regs)
  then have "altr_i2c_isr demo_env ?u = Inl OutOfBounds"
    using tx_race_overruns_buffer [OF inv _ _ _ _ refl, of "\<lparr>m_addr = 0x50, m_rd = False, m_len = 1, m_buf = [7]\<rparr>" demo_env t]
      t by (simp add: demo_env_ok(2)) (simp add: demo_i2c_def)
  with t show ?thesis by blast
qed

theorem init_programs_timing_witness:
  "hw (altr_i2c_init regfile (demo_i2c True [0] 1 0)) (base (idev (demo_i2c True [0] 1 0)) + ALTR_I2C_SDA_HOLD) = 15"
  using init_programs_timing [of "demo_i2c True [0] 1 0"] by (simp add: demo_i2c_def)

end
