(* ===== verification/QemuI2c.thy ===== *)
theory QemuI2c
  imports Prelude
begin

text \<open>
  The emulated I2C master of \<open>src/driver/qemu-device/i2c.h\<close> and \<open>i2c.c\<close>: an Avalon I2C core
  with one SFP EEPROM of 256 bytes behind it. The callback \<open>i2c->intr(i2c->extra)\<close> and the
  \<open>printf\<close> diagnostics are returned as events, in the order of the calls; who raises the
  message-signalled interrupt is decided by the card model.
\<close>

section \<open>State\<close>

text \<open>The fill level is a C \<open>int\<close>: 32 bits, read with \<open>sint\<close>. Nothing bounds it; QEMU is compiled with
  wrapping signed arithmetic (\<open>-fwrapv\<close>).\<close>

record avalon_i2c =
  i2c_name :: string
  enable :: bool
  read_off :: u8
  fifo_level :: u32
  is_writing :: bool
  rx_intr :: bool
  tx_intr :: bool
  data :: "u8 list"

datatype i2c_ev = CallIntr | LogRead u64 | LogCtrl u64 | LogWrite u64

section \<open>Registers\<close>

definition REG_TX :: u64 where [regs]: "REG_TX = 0x0"
definition REG_RX :: u64 where [regs]: "REG_RX = 0x4"
definition REG_CTRL :: u64 where [regs]: "REG_CTRL = 0x8"
definition REG_ISER :: u64 where [regs]: "REG_ISER = 0xC"
definition REG_ISR :: u64 where [regs]: "REG_ISR = 0x10"
definition REG_STATUS :: u64 where [regs]: "REG_STATUS = 0x14"
definition REG_TX_LVL :: u64 where [regs]: "REG_TX_LVL = 0x18"
definition REG_RX_LVL :: u64 where [regs]: "REG_RX_LVL = 0x1C"
definition REG_SCL_LOW :: u64 where [regs]: "REG_SCL_LOW = 0x20"
definition REG_SCL_HIGH :: u64 where [regs]: "REG_SCL_HIGH = 0x24"
definition REG_SDA_HOLD :: u64 where [regs]: "REG_SDA_HOLD = 0x28"

section \<open>Operations\<close>

definition avalon_i2c_read :: "avalon_i2c \<Rightarrow> u64 \<Rightarrow> u64 \<times> avalon_i2c \<times> i2c_ev list" where
  "avalon_i2c_read i2c reg =
    (if reg = REG_RX then
       (if fifo_level i2c = 0 then (0, i2c, [])
        else (ucast (data i2c ! unat (read_off i2c)),
              i2c\<lparr>fifo_level := fifo_level i2c - 1, read_off := read_off i2c + 1\<rparr>, []))
     else if reg = REG_CTRL then (if enable i2c then 1 else 0, i2c, [])
     else if reg = REG_ISER then (push_bit 1 (of_bool (rx_intr i2c)) OR of_bool (tx_intr i2c), i2c, [])
     else if reg = REG_ISR then (push_bit 1 (of_bool (0 < sint (fifo_level i2c))) OR 1, i2c, [])
     else if reg = REG_STATUS then (0, i2c, [])
     else if reg = REG_TX_LVL then (0, i2c, [])
     else if reg = REG_RX_LVL then (scast (fifo_level i2c), i2c, [])
     else (0, i2c, [LogRead reg]))"

definition avalon_i2c_write :: "avalon_i2c \<Rightarrow> u64 \<Rightarrow> u64 \<Rightarrow> avalon_i2c \<times> i2c_ev list" where
  "avalon_i2c_write i2c reg val =
    (if reg = REG_TX then
       (if val AND push_bit 9 1 \<noteq> 0 then (i2c\<lparr>is_writing := (val AND 0x1 = 0)\<rparr>, [])
        else if is_writing i2c then
          (i2c\<lparr>read_off := ucast (val AND 0xff)\<rparr>,
           if enable i2c \<and> tx_intr i2c then [CallIntr] else [])
        else
          (i2c\<lparr>fifo_level := fifo_level i2c + 1\<rparr>,
           if enable i2c \<and> rx_intr i2c then [CallIntr] else []))
     else if reg = REG_CTRL then
       (if val = 0 then (i2c\<lparr>enable := False\<rparr>, [])
        else if val = 1 then (i2c\<lparr>enable := True, fifo_level := 0\<rparr>, [])
        else (i2c, [LogCtrl val]))
     else if reg = REG_ISER then
       (i2c\<lparr>tx_intr := (val AND 1 \<noteq> 0), rx_intr := (val AND 2 \<noteq> 0)\<rparr>, [])
     else if reg = REG_ISR then (i2c, [])
     else if reg = REG_SCL_LOW \<or> reg = REG_SCL_HIGH \<or> reg = REG_SDA_HOLD then (i2c, [])
     else (i2c, [LogWrite reg]))"

text \<open>The accesses by register, for the simplifier.\<close>

lemma i2c_read_simps [simp]:
  "avalon_i2c_read i2c 0x8 = (if enable i2c then 1 else 0, i2c, [])"
  "avalon_i2c_read i2c 0xC = (push_bit 1 (of_bool (rx_intr i2c)) OR of_bool (tx_intr i2c), i2c, [])"
  "avalon_i2c_read i2c 0x10 = (push_bit 1 (of_bool (0 < sint (fifo_level i2c))) OR 1, i2c, [])"
  "avalon_i2c_read i2c 0x14 = (0, i2c, [])"
  "avalon_i2c_read i2c 0x18 = (0, i2c, [])"
  "avalon_i2c_read i2c 0x1C = (scast (fifo_level i2c), i2c, [])"
  by (simp_all add: avalon_i2c_read_def regs)

lemma i2c_read_rx:
  "avalon_i2c_read i2c 0x4 =
     (if fifo_level i2c = 0 then (0, i2c, [])
      else (ucast (data i2c ! unat (read_off i2c)),
            i2c\<lparr>fifo_level := fifo_level i2c - 1, read_off := read_off i2c + 1\<rparr>, []))"
  by (simp add: avalon_i2c_read_def regs)

lemma i2c_write_simps [simp]:
  "avalon_i2c_write i2c 0xC val = (i2c\<lparr>tx_intr := (val AND 1 \<noteq> 0), rx_intr := (val AND 2 \<noteq> 0)\<rparr>, [])"
  "avalon_i2c_write i2c 0x10 val = (i2c, [])"
  "avalon_i2c_write i2c 0x20 val = (i2c, [])"
  "avalon_i2c_write i2c 0x24 val = (i2c, [])"
  "avalon_i2c_write i2c 0x28 val = (i2c, [])"
  "avalon_i2c_write i2c 0x8 0 = (i2c\<lparr>enable := False\<rparr>, [])"
  "avalon_i2c_write i2c 0x8 1 = (i2c\<lparr>enable := True, fifo_level := 0\<rparr>, [])"
  by (simp_all add: avalon_i2c_write_def regs)

lemma i2c_write_tx:
  "avalon_i2c_write i2c 0 val =
     (if val AND 0x200 \<noteq> 0 then (i2c\<lparr>is_writing := (val AND 0x1 = 0)\<rparr>, [])
      else if is_writing i2c then
        (i2c\<lparr>read_off := ucast (val AND 0xff)\<rparr>, if enable i2c \<and> tx_intr i2c then [CallIntr] else [])
      else
        (i2c\<lparr>fifo_level := fifo_level i2c + 1\<rparr>, if enable i2c \<and> rx_intr i2c then [CallIntr] else []))"
  by (simp add: avalon_i2c_write_def regs)

section \<open>Invariant\<close>

text \<open>The EEPROM array has 256 elements, so that every \<open>uint8_t\<close> offset is in bounds.\<close>

definition i2c_ok :: "avalon_i2c \<Rightarrow> bool" where
  "i2c_ok i2c \<longleftrightarrow> length (data i2c) = 256"

lemma i2c_ok_read: "i2c_ok i2c \<Longrightarrow> i2c_ok (fst (snd (avalon_i2c_read i2c reg)))"
  by (simp add: avalon_i2c_read_def i2c_ok_def)

lemma i2c_ok_write: "i2c_ok i2c \<Longrightarrow> i2c_ok (fst (avalon_i2c_write i2c reg val))"
  by (simp add: avalon_i2c_write_def i2c_ok_def)

section \<open>Reading the EEPROM\<close>

text \<open>The bytes that a read of \<open>n\<close> bytes returns when the EEPROM's address pointer is at \<open>off\<close>: the
  pointer is eight bits wide and wraps around.\<close>

definition eeprom :: "avalon_i2c \<Rightarrow> u8 \<Rightarrow> nat \<Rightarrow> u8 list" where
  "eeprom c off n = map (\<lambda>j. data c ! unat (off + of_nat j)) [0..<n]"

lemma eeprom_cong: "data c = data c' \<Longrightarrow> eeprom c p n = eeprom c' p n"
  by (simp add: eeprom_def)

lemma eeprom_Suc: "eeprom c off (Suc n) = eeprom c off n @ [data c ! unat (off + of_nat n)]"
  by (simp add: eeprom_def)

lemma eeprom_Cons: "eeprom c off (Suc n) = data c ! unat off # eeprom c (off + 1) n"
  by (simp add: eeprom_def upt_conv_Cons map_Suc_upt [symmetric] ac_simps del: upt_Suc)

lemma length_eeprom [simp]: "length (eeprom c off n) = n"
  by (simp add: eeprom_def)

text \<open>Writes of the given values to the transfer register, and \<open>k\<close> reads of the receive register
  with what they return.\<close>

definition tx_writes :: "avalon_i2c \<Rightarrow> u64 list \<Rightarrow> avalon_i2c" where
  "tx_writes c vs = foldl (\<lambda>c v. fst (avalon_i2c_write c REG_TX v)) c vs"

fun rx_reads :: "avalon_i2c \<Rightarrow> nat \<Rightarrow> u64 list \<times> avalon_i2c" where
  "rx_reads c 0 = ([], c)"
| "rx_reads c (Suc k) =
    (let (v, c, evs) = avalon_i2c_read c REG_RX; (vs, c) = rx_reads c k in (v # vs, c))"

lemma tx_writes_level:
  assumes "\<not> is_writing c" and "\<forall>v \<in> set vs. v AND 0x200 = 0"
  shows "tx_writes c vs = c\<lparr>fifo_level := fifo_level c + of_nat (length vs)\<rparr>"
  using assms by (induction vs arbitrary: c) (simp_all add: tx_writes_def avalon_i2c_write_def regs add.assoc)

lemma rx_reads_level:
  assumes "fifo_level c = of_nat n" and "n < 2 ^ 32"
  shows "rx_reads c k = (map ucast (eeprom c (read_off c) (min k n)) @ replicate (k - n) 0,
    c\<lparr>fifo_level := of_nat (n - k), read_off := read_off c + of_nat (min k n)\<rparr>)"
  using assms
proof (induction k arbitrary: c n)
  case 0
  then show ?case by (simp add: eeprom_def)
next
  case (Suc k)
  show ?case
  proof (cases n)
    case 0
    then show ?thesis
      using Suc.IH [of c 0] Suc.prems by (simp add: avalon_i2c_read_def regs eeprom_def)
  next
    case (Suc m)
    let ?c = "c\<lparr>fifo_level := of_nat m, read_off := read_off c + 1\<rparr>"
    have "fifo_level c \<noteq> 0" using Suc.prems Suc of_nat_eq_0_small [of n, where ?'a = 32] by simp
    then have "avalon_i2c_read c REG_RX = (ucast (data c ! unat (read_off c)), ?c, [])"
      using Suc.prems(1) Suc by (simp add: avalon_i2c_read_def regs)
    moreover have "rx_reads ?c k = (map ucast (eeprom ?c (read_off ?c) (min k m)) @ replicate (k - m) 0,
        ?c\<lparr>fifo_level := of_nat (m - k), read_off := read_off ?c + of_nat (min k m)\<rparr>)"
      by (rule Suc.IH) (use Suc.prems Suc in simp_all)
    moreover have "eeprom ?c p l = eeprom c p l" for p l by (rule eeprom_cong) simp
    ultimately show ?thesis using Suc by (simp add: eeprom_Cons add.assoc)
  qed
qed

text \<open>
  C35. The core in reading mode with an empty FIFO: \<open>n\<close> writes without a start bit (fewer than
  2 ^ 32) request \<open>n\<close> bytes, and \<open>k\<close> reads of the receive register then return the next bytes of the
  EEPROM, wrapping around after 256, and 0 once all \<open>n\<close> are taken; the pointer moves on by what was
  returned and the fill level is what is left. The status register says that bytes are ready exactly
  when between 1 and 2 ^ 31 - 1 of them are: from 2 ^ 31 on the level has overflowed.
\<close>

theorem core_serves_requests:
  assumes "\<not> is_writing c" and "fifo_level c = 0" and "\<forall>v \<in> set vs. v AND 0x200 = 0" and "length vs < 2 ^ 32"
  defines "n \<equiv> length vs" and "c' \<equiv> tx_writes c vs"
  shows "rx_reads c' k = (map ucast (eeprom c (read_off c) (min k n)) @ replicate (k - n) 0,
      c\<lparr>fifo_level := of_nat (n - k), read_off := read_off c + of_nat (min k n)\<rparr>)
    \<and> (bit (fst (avalon_i2c_read c' REG_ISR)) 1 \<longleftrightarrow> 0 < n \<and> n < 2 ^ 31)"
proof -
  have c': "c' = c\<lparr>fifo_level := of_nat n\<rparr>"
    using tx_writes_level [OF assms(1,3)] assms(2) by (simp add: c'_def n_def)
  have "eeprom c' p l = eeprom c p l" for p l by (rule eeprom_cong) (simp add: c')
  moreover have "0 < sint (of_nat n :: u32) \<longleftrightarrow> 0 < n \<and> n < 2 ^ 31"
    using assms(4) by (simp add: n_def sint_u32 unat_of_nat_small)
  ultimately show ?thesis
    using rx_reads_level [of c' n k] assms(4)
    by (auto simp: c' n_def avalon_i2c_read_def regs bit_simps)
qed

theorem core_serves_requests_witness:
  "fst (rx_reads (tx_writes \<lparr>i2c_name = ''sfp1'', enable = True, read_off = 255, fifo_level = 0, is_writing = False,
      rx_intr = False, tx_intr = False, data = [7] @ replicate 254 0 @ [9]\<rparr> [0, 0x100]) 3) = [9, 7, 0]"
  using core_serves_requests [of "\<lparr>i2c_name = ''sfp1'', enable = True, read_off = 255, fifo_level = 0, is_writing = False,
      rx_intr = False, tx_intr = False, data = [7] @ replicate 254 0 @ [9]\<rparr>" "[0, 0x100]" 3]
  by (simp add: eeprom_def upt_rec nth_append)

end
