(* ===== verification/I2cSystem.thy ===== *)
theory I2cSystem
  imports DrvI2cErrors QemuI2c
begin

text \<open>
  The I2C driver on the emulated I2C core: the driver's register accesses reach the core through
  the window of its port, the core's callback raises a message-signalled interrupt, and pending
  interrupts are served while the driver waits for the completion. What the kernel contributes
  is the contract \<open>i2c_host\<close>; the end-to-end behaviour of transfers is proved inside it.
\<close>

section \<open>The core behind the window\<close>

record i2c_core =
  core :: avalon_i2c
  irq_pending :: bool

definition core_read :: "u32 \<Rightarrow> i2c_core \<Rightarrow> u32 \<Rightarrow> u32 \<times> i2c_core" where
  "core_read off d a =
    (let (v, i2c, evs) = avalon_i2c_read (core d) (ucast (a - off))
     in (ucast v, d\<lparr>core := i2c, irq_pending := irq_pending d \<or> CallIntr \<in> set evs\<rparr>))"

definition core_write :: "u32 \<Rightarrow> i2c_core \<Rightarrow> u32 \<Rightarrow> u32 \<Rightarrow> i2c_core" where
  "core_write off d a v =
    (let (i2c, evs) = avalon_i2c_write (core d) (ucast (a - off)) (ucast v)
     in d\<lparr>core := i2c, irq_pending := irq_pending d \<or> CallIntr \<in> set evs\<rparr>)"

definition core_bus :: "u32 \<Rightarrow> i2c_core mmio" where
  "core_bus off = \<lparr>ioread = core_read off, iowrite = core_write off\<rparr>"

section \<open>Serving interrupts\<close>

definition irq_ack :: "i2c_core i2c_sys \<Rightarrow> i2c_core i2c_sys" where
  "irq_ack s = s\<lparr>hw := (hw s)\<lparr>irq_pending := False\<rparr>\<rparr>"

text \<open>\<open>serves E s u\<close>: from \<open>s\<close>, handling pending interrupts one after the other ends in \<open>u\<close>
  with the transfer complete.\<close>

inductive serves :: "i2c_core i2c_env \<Rightarrow> i2c_core i2c_sys \<Rightarrow> i2c_core i2c_sys \<Rightarrow> bool"
  for E where
  served: "msg_complete (idev s) \<Longrightarrow> serves E s s"
| serve: "\<not> msg_complete (idev s) \<Longrightarrow> irq_pending (hw s) \<Longrightarrow> irq_round E (irq_ack s) = Inr t
    \<Longrightarrow> serves E t u \<Longrightarrow> serves E s u"

section \<open>What a transfer must do\<close>

text \<open>A message that the emulated core can serve: not empty, with the length of its buffer.\<close>

definition wf_msg :: "i2c_msg \<Rightarrow> bool" where
  "wf_msg m \<longleftrightarrow> m_buf m \<noteq> [] \<and> length (m_buf m) < 2 ^ 16 \<and> m_len m = of_nat (length (m_buf m))"

text \<open>
  The abstract specification of a message list: a write leaves the address pointer at its last
  byte; a read fills its buffer from the EEPROM and moves the pointer on.
\<close>

fun eeprom_xfer :: "avalon_i2c \<Rightarrow> u8 \<Rightarrow> i2c_msg list \<Rightarrow> i2c_msg list \<times> u8" where
  "eeprom_xfer c p [] = ([], p)"
| "eeprom_xfer c p (m # ms) =
    (let (m', p') = (if m_rd m then (m\<lparr>m_buf := eeprom c p (length (m_buf m))\<rparr>, p + of_nat (length (m_buf m)))
                     else (m, last (m_buf m)));
         (ms', p'') = eeprom_xfer c p' ms
     in (m' # ms', p''))"

lemma eeprom_xfer_cong:
  assumes "data c = data c'"
  shows "eeprom_xfer c p ms = eeprom_xfer c' p ms"
  by (induction ms arbitrary: p) (simp_all add: eeprom_cong [OF assms])

text \<open>
  \<open>rx_ready\<close>: in the middle of a read of message \<open>m\<close>, with \<open>i\<close> bytes received and the next one in
  the FIFO. \<open>xfer_done\<close>: the transfer is complete, with the given buffer and core.
\<close>

definition rx_core :: "avalon_i2c \<Rightarrow> nat \<Rightarrow> avalon_i2c" where
  "rx_core c i = c\<lparr>enable := True, is_writing := False, rx_intr := True, tx_intr := False,
     fifo_level := 1, read_off := read_off c + of_nat i\<rparr>"

definition rx_ready :: "u32 \<Rightarrow> avalon_i2c \<Rightarrow> i2c_msg \<Rightarrow> nat \<Rightarrow> i2c_core i2c_sys \<Rightarrow> bool" where
  "rx_ready off c m i s \<longleftrightarrow> base (idev s) = off
     \<and> msg (idev s) = Some (m\<lparr>m_buf := eeprom c (read_off c) i @ drop i (m_buf m)\<rparr>)
     \<and> bufp (idev s) = i \<and> msg_len (idev s) = of_nat (length (m_buf m) - i)
     \<and> msg_err (idev s) = 0 \<and> \<not> msg_complete (idev s) \<and> isr_mask (idev s) = 0x1E
     \<and> fifo_size (idev s) = 64 \<and> core (hw s) = rx_core c i \<and> irq_pending (hw s)"

definition xfer_done :: "u32 \<Rightarrow> i2c_msg \<Rightarrow> avalon_i2c \<Rightarrow> i2c_core i2c_sys \<Rightarrow> bool" where
  "xfer_done off m c s \<longleftrightarrow> base (idev s) = off \<and> msg (idev s) = Some m \<and> msg_err (idev s) = 0
     \<and> msg_complete (idev s) \<and> fifo_size (idev s) = 64 \<and> core (hw s) = c"

lemma rx_core_level [simp]: "(rx_core c i)\<lparr>fifo_level := 1\<rparr> = rx_core c i"
  by (simp add: rx_core_def)

text \<open>The same for a write: \<open>i\<close> bytes are sent, and the core's pointer is the last of them.\<close>

definition ptr_after :: "avalon_i2c \<Rightarrow> u8 list \<Rightarrow> nat \<Rightarrow> u8" where
  "ptr_after c bs i = (if i = 0 then read_off c else bs ! (i - 1))"

definition tx_core :: "avalon_i2c \<Rightarrow> u8 \<Rightarrow> avalon_i2c" where
  "tx_core c p = c\<lparr>enable := True, is_writing := True, rx_intr := False, tx_intr := True,
     fifo_level := 0, read_off := p\<rparr>"

definition tx_ready :: "u32 \<Rightarrow> avalon_i2c \<Rightarrow> i2c_msg \<Rightarrow> nat \<Rightarrow> i2c_core i2c_sys \<Rightarrow> bool" where
  "tx_ready off c m i s \<longleftrightarrow> base (idev s) = off \<and> msg (idev s) = Some m
     \<and> bufp (idev s) = i \<and> msg_len (idev s) = of_nat (length (m_buf m) - i)
     \<and> msg_err (idev s) = 0 \<and> \<not> msg_complete (idev s) \<and> isr_mask (idev s) = 0x1D
     \<and> fifo_size (idev s) = 64 \<and> core (hw s) = tx_core c (ptr_after c (m_buf m) i)"

text \<open>Between transfers: the driver's context belongs to this port, and no interrupt source of
  the core is enabled.\<close>

definition i2c_idle :: "u32 \<Rightarrow> i2c_core i2c_sys \<Rightarrow> bool" where
  "i2c_idle off s \<longleftrightarrow> base (idev s) = off \<and> fifo_size (idev s) = 64
     \<and> \<not> rx_intr (core (hw s)) \<and> \<not> tx_intr (core (hw s))"

section \<open>The contract of the host\<close>

text \<open>
  What the driver relies on: its registers are those of the core; polling the status register of
  an idle core returns at once; \<open>i2c_8bit_addr_from_msg\<close> puts the direction into bit 0;
  \<open>wait_for_completion_timeout\<close> lets the pending interrupts be handled and, when they complete
  the transfer, returns with time left.
\<close>

locale i2c_host =
  fixes E :: "i2c_core i2c_env" and off :: u32
  assumes bus: "bus E = core_bus off"
    and poll: "poll_idle E s = (False, s)"
    and addr8_dir: "bit (addr8 E m) 0 \<longleftrightarrow> m_rd m"
    and wait: "serves E s u \<Longrightarrow> \<exists>left. left \<noteq> 0 \<and> wait_completion E s = Inr (left, u)"
begin

lemma readl_core:
  "base (idev s) = off \<Longrightarrow> readl (bus E) r s =
    (let (v, i2c, evs) = avalon_i2c_read (core (hw s)) (ucast r)
     in (ucast v, s\<lparr>hw := (hw s)\<lparr>core := i2c, irq_pending := irq_pending (hw s) \<or> CallIntr \<in> set evs\<rparr>\<rparr>))"
  by (simp add: readl_def bus core_bus_def core_read_def split_beta Let_def)

lemma writel_core:
  "base (idev s) = off \<Longrightarrow> writel (bus E) v r s =
    (let (i2c, evs) = avalon_i2c_write (core (hw s)) (ucast r) (ucast v)
     in s\<lparr>hw := (hw s)\<lparr>core := i2c, irq_pending := irq_pending (hw s) \<or> CallIntr \<in> set evs\<rparr>\<rparr>)"
  by (simp add: writel_def bus core_bus_def core_write_def split_beta Let_def)

lemma poll_frame: "poll_frame E"
  by (simp add: poll_frame_def poll)

lemma base_ack [simp]: "idev (irq_ack s) = idev s" "core (hw (irq_ack s)) = core (hw s)"
  "irq_pending (hw (irq_ack s)) = False"
  by (simp_all add: irq_ack_def)

lemma quick_rx:
  assumes "rx_ready off c m i s"
  obtains q where "altr_i2c_isr_quick (bus E) (irq_ack s) = (IRQ_WAKE_THREAD, q)"
    and "idev q = (idev s)\<lparr>isr_status := 2\<rparr>" and "core (hw q) = rx_core c i" and "\<not> irq_pending (hw q)"
proof
  let ?q = "(irq_ack s)\<lparr>idev := (idev s)\<lparr>isr_status := 2\<rparr>\<rparr>"
  show "altr_i2c_isr_quick (bus E) (irq_ack s) = (IRQ_WAKE_THREAD, ?q)"
    using assms by (simp add: altr_i2c_isr_quick_def readl_core rx_ready_def rx_core_def regs irq_ack_def)
qed (use assms in \<open>simp_all add: rx_ready_def\<close>)

lemma int_clear_core:
  "base (idev s) = off \<Longrightarrow> altr_i2c_int_clear (bus E) v s = s"
  by (cases s; cases "hw s") (simp add: altr_i2c_int_clear_def readl_core writel_core regs)

lemma transfer_rx:
  assumes "base (idev s) = off" and "core (hw s) = (rx_core c i)\<lparr>fifo_level := 0\<rparr>"
  shows "altr_i2c_transfer (bus E) 0 s =
    (if msg_len (idev s) = 0 then s
     else s\<lparr>hw := (hw s)\<lparr>core := rx_core c i, irq_pending := True\<rparr>\<rparr>)"
  using assms
  by (simp add: altr_i2c_transfer_def writel_core i2c_write_tx rx_core_def regs word_pos_iff Let_def)

lemma of_nat_diff_Suc: "i < n \<Longrightarrow> (of_nat (n - i) :: u64) - 1 = of_nat (n - Suc i)"
  by (metis Suc_diff_Suc add_diff_cancel_left' of_nat_Suc)

lemma of_nat_len_0: "k < 2 ^ 16 \<Longrightarrow> (of_nat k :: u64) = 0 \<longleftrightarrow> k = 0"
  by (rule of_nat_eq_0_small) simp

lemma int_count_one: "0 < k \<Longrightarrow> k < 2 ^ 16 \<Longrightarrow> int_count (min 1 (of_nat k)) = Suc 0"
  by (subst int_count_min) (simp_all add: unat_of_nat_small)

lemma rx_byte:
  assumes "rx_ready off c m i s" and "idev q = (idev s)\<lparr>isr_status := 2\<rparr>"
    and "core (hw q) = rx_core c i" and "\<not> irq_pending (hw q)"
    and "i < length (m_buf m)" and "length (m_buf m) < 2 ^ 16"
  defines "n \<equiv> length (m_buf m)"
  defines "q' \<equiv> q\<lparr>idev := (idev q)\<lparr>msg := Some (m\<lparr>m_buf := eeprom c (read_off c) (Suc i) @ drop (Suc i) (m_buf m)\<rparr>),
        bufp := Suc i, msg_len := of_nat (n - Suc i)\<rparr>\<rparr>"
  shows "altr_i2c_empty_rx_fifo (bus E) q =
    Inr (q'\<lparr>hw := (hw q)\<lparr>core := (rx_core c (Suc i))\<lparr>fifo_level := of_bool (Suc i < n)\<rparr>, irq_pending := (Suc i < n)\<rparr>\<rparr>)"
proof -
  have i: "i < n" "n < 2 ^ 16" using assms by simp_all
  have b: "base (idev q) = off" and l: "msg_len (idev q) = of_nat (n - i)" and p: "bufp (idev q) = i"
    and mq: "msg (idev q) = Some (m\<lparr>m_buf := eeprom c (read_off c) i @ drop i (m_buf m)\<rparr>)"
    using assms by (simp_all add: rx_ready_def)
  have cnt: "int_count (min 1 (of_nat (n - i))) = Suc 0"
    by (rule int_count_one) (use i in simp_all)
  let ?byte = "data c ! unat (read_off c + of_nat i)"
  let ?q1 = "q\<lparr>hw := (hw q)\<lparr>core := (rx_core c (Suc i))\<lparr>fifo_level := 0\<rparr>\<rparr>\<rparr>"
  let ?m' = "m\<lparr>m_buf := eeprom c (read_off c) (Suc i) @ drop (Suc i) (m_buf m)\<rparr>"
  let ?q2 = "?q1\<lparr>idev := (idev q)\<lparr>msg := Some ?m', bufp := Suc i\<rparr>\<rparr>"
  have lvl: "readl (bus E) ALTR_I2C_RX_FIFO_LVL q = (1, q)"
    using b assms(3,4) by (cases q; cases "hw q") (simp add: readl_core regs rx_core_def)
  have rd: "readl (bus E) ALTR_I2C_RX_DATA q = (ucast ?byte, ?q1)"
    using b assms(3) by (simp add: readl_core regs i2c_read_rx rx_core_def add.assoc)
  have st: "buf_store ?byte ?q1 = Inr ?q2"
    using i mq p by (simp add: buf_store_def eeprom_Suc list_update_append Cons_nth_drop_Suc [symmetric] n_def [symmetric])
  have len: "msg_len (idev (dec_len ?q2)) = of_nat (n - Suc i)"
    using l of_nat_diff_Suc [OF i(1)] by (simp add: dec_len_def)
  have z: "(of_nat (n - Suc i) :: u64) = 0 \<longleftrightarrow> \<not> Suc i < n"
    using i by (subst of_nat_len_0) auto
  have tr: "altr_i2c_transfer (bus E) 0 (dec_len ?q2) = (if Suc i < n
      then (dec_len ?q2)\<lparr>hw := (hw q)\<lparr>core := rx_core c (Suc i), irq_pending := True\<rparr>\<rparr> else dec_len ?q2)"
    using b len z by (subst transfer_rx [where c = c and i = "Suc i"]) (simp_all add: dec_len_def)
  have q': "dec_len ?q2 = q'\<lparr>hw := (hw q)\<lparr>core := (rx_core c (Suc i))\<lparr>fifo_level := 0\<rparr>\<rparr>\<rparr>"
    using len by (simp add: dec_len_def q'_def)
  have "altr_i2c_empty_rx_fifo (bus E) q = Inr (altr_i2c_transfer (bus E) 0 (dec_len ?q2))"
    by (simp add: altr_i2c_empty_rx_fifo_def lvl l cnt rd st Let_def)
  then show ?thesis
    unfolding tr unfolding q' using assms(4) by (cases "hw q") simp
qed

lemma finish_core:
  assumes "base (idev s) = off"
  shows "isr_finish E s = s\<lparr>idev := (idev s)\<lparr>isr_mask := (push_bit 1 (of_bool (rx_intr (core (hw s))))
        OR of_bool (tx_intr (core (hw s)))) AND NOT ALTR_I2C_ALL_IRQ, msg_complete := True\<rparr>,
      hw := (hw s)\<lparr>core := (core (hw s))\<lparr>tx_intr := False, rx_intr := False\<rparr>\<rparr>\<rparr>"
  using assms
  by (cases "rx_intr (core (hw s))"; cases "tx_intr (core (hw s))")
    (simp_all add: isr_finish_def poll altr_i2c_int_enable_def readl_core writel_core int_clear_core regs)

text \<open>One interrupt of a read: the next byte, or the end of the transfer.\<close>

lemma rx_round:
  assumes r: "rx_ready off c m i s" and i: "i < length (m_buf m)" "length (m_buf m) < 2 ^ 16"
    and rd: "m_rd m"
  shows "\<exists>t. irq_round E (irq_ack s) = Inr t \<and>
    (if Suc i < length (m_buf m) then rx_ready off c m (Suc i) t
     else xfer_done off (m\<lparr>m_buf := eeprom c (read_off c) (length (m_buf m))\<rparr>)
       ((rx_core c (length (m_buf m)))\<lparr>fifo_level := 0, rx_intr := False\<rparr>) t)"
proof -
  obtain q where q: "altr_i2c_isr_quick (bus E) (irq_ack s) = (IRQ_WAKE_THREAD, q)"
    "idev q = (idev s)\<lparr>isr_status := 2\<rparr>" "core (hw q) = rx_core c i" "\<not> irq_pending (hw q)"
    using quick_rx [OF r] by metis
  let ?n = "length (m_buf m)"
  let ?m' = "m\<lparr>m_buf := eeprom c (read_off c) (Suc i) @ drop (Suc i) (m_buf m)\<rparr>"
  let ?u = "q\<lparr>idev := (idev q)\<lparr>msg := Some ?m', bufp := Suc i, msg_len := of_nat (?n - Suc i)\<rparr>,
     hw := (hw q)\<lparr>core := (rx_core c (Suc i))\<lparr>fifo_level := of_bool (Suc i < ?n)\<rparr>,
       irq_pending := (Suc i < ?n)\<rparr>\<rparr>"
  have e: "altr_i2c_empty_rx_fifo (bus E) q = Inr ?u"
    using rx_byte [OF r q(2-4) i] by simp
  have z: "(of_nat (?n - Suc i) :: u64) = 0 \<longleftrightarrow> \<not> Suc i < ?n"
    using i by (subst of_nat_len_0) auto
  have mq: "msg (idev q) = Some (m\<lparr>m_buf := eeprom c (read_off c) i @ drop i (m_buf m)\<rparr>)"
    and bq: "base (idev q) = off"
    using q(2) r by (simp_all add: rx_ready_def)
  have sv: "isr_service (bus E) True 2 q = Inr (\<not> Suc i < ?n, ?u)"
    using e bq z by (simp add: isr_service_def int_clear_core regs Let_def)
  have isr: "altr_i2c_isr E q = Inr (IRQ_HANDLED, if \<not> Suc i < ?n then isr_finish E ?u else ?u)"
    by (rule isr_live [OF mq]) (use sv rd q(2) in simp)
  show ?thesis
  proof (cases "Suc i < ?n")
    case True
    have "rx_ready off c m (Suc i) ?u"
      using True r q(2) by (simp add: rx_ready_def rx_core_def)
    then show ?thesis using True isr q(1) by (simp add: irq_round_def)
  next
    case False
    then have n: "?n = Suc i" using i by simp
    have "xfer_done off (m\<lparr>m_buf := eeprom c (read_off c) ?n\<rparr>)
       ((rx_core c ?n)\<lparr>fifo_level := 0, rx_intr := False\<rparr>) (isr_finish E ?u)"
      using False n r q(2) bq by (simp add: finish_core xfer_done_def rx_ready_def rx_core_def)
    then show ?thesis using False isr q(1) by (simp add: irq_round_def)
  qed
qed

text \<open>All of them.\<close>

lemma rx_serves:
  assumes "rx_ready off c m i s" and "i < length (m_buf m)" and "length (m_buf m) < 2 ^ 16" and "m_rd m"
  shows "\<exists>u. serves E s u \<and> xfer_done off (m\<lparr>m_buf := eeprom c (read_off c) (length (m_buf m))\<rparr>)
       ((rx_core c (length (m_buf m)))\<lparr>fifo_level := 0, rx_intr := False\<rparr>) u"
  using assms(1,2)
proof (induction "length (m_buf m) - i" arbitrary: i s)
  case 0
  then show ?case by simp
next
  case (Suc k)
  obtain t where t: "irq_round E (irq_ack s) = Inr t"
    "if Suc i < length (m_buf m) then rx_ready off c m (Suc i) t
     else xfer_done off (m\<lparr>m_buf := eeprom c (read_off c) (length (m_buf m))\<rparr>)
       ((rx_core c (length (m_buf m)))\<lparr>fifo_level := 0, rx_intr := False\<rparr>) t"
    using rx_round [OF Suc.prems(1,2) assms(3,4)] by blast
  have s: "\<not> msg_complete (idev s)" "irq_pending (hw s)"
    using Suc.prems(1) by (simp_all add: rx_ready_def)
  show ?case
  proof (cases "Suc i < length (m_buf m)")
    case True
    have "k = length (m_buf m) - Suc i" using Suc.hyps(2) by simp
    then show ?thesis
      using Suc.hyps(1) [of "Suc i" t] True t s by (auto intro: serve)
  next
    case False
    then have "serves E t t" using t by (intro served) (simp add: xfer_done_def)
    then show ?thesis using False t s by (auto intro: serve)
  qed
qed

section \<open>A whole transfer\<close>

lemma drain_empty:
  assumes "base (idev s) = off" and "fifo_level (core (hw s)) = 0"
  shows "rx_drain (bus E) s = Some s"
  using assms by (cases s; cases "hw s")
    (simp add: rx_drain.simps readl_core regs i2c_read_rx)

lemma enable_core:
  assumes "base (idev s) = off"
  shows "altr_i2c_core_enable (bus E) s =
    s\<lparr>hw := (hw s)\<lparr>core := (core (hw s))\<lparr>enable := True, fifo_level := 0\<rparr>\<rparr>\<rparr>"
  using assms by (cases s; cases "hw s"; cases "enable (core (hw s))")
    (simp_all add: altr_i2c_core_enable_def readl_core writel_core regs)

lemma disable_core:
  assumes "base (idev s) = off"
  shows "altr_i2c_core_disable (bus E) s = s\<lparr>hw := (hw s)\<lparr>core := (core (hw s))\<lparr>enable := False\<rparr>\<rparr>\<rparr>"
  using assms by (cases s; cases "hw s"; cases "enable (core (hw s))")
    (simp_all add: altr_i2c_core_disable_def readl_core writel_core regs)

lemma addr_start:
  "ucast (0x200 OR ucast (addr8 E m) :: u32) AND (1 :: u64) = (if m_rd m then 1 else 0)"
proof -
  have "bit (ucast (0x200 OR ucast (addr8 E m) :: u32) :: u64) 0 \<longleftrightarrow> m_rd m"
    using addr8_dir [of m] by (simp add: bit_simps del: bit_0)
  then show ?thesis by (auto simp: and_one_eq mod2_eq_if bit_0)
qed

lemma start_core:
  assumes "base (idev s) = off"
  shows "writel (bus E) (ALTR_I2C_TFR_CMD_STA OR ucast (addr8 E m)) ALTR_I2C_TFR_CMD s
    = s\<lparr>hw := (hw s)\<lparr>core := (core (hw s))\<lparr>is_writing := \<not> m_rd m\<rparr>\<rparr>\<rparr>"
proof -
  have "bit (ucast (0x200 OR ucast (addr8 E m) :: u32) AND (0x200 :: u64)) 9"
    by (simp add: bit_simps)
  then have "ucast (0x200 OR ucast (addr8 E m) :: u32) AND (0x200 :: u64) \<noteq> 0"
    by force
  then show ?thesis
    using assms by (cases "hw s") (simp add: writel_core i2c_write_tx regs addr_start)
qed

text \<open>The end of a transfer: interrupts off, the core disabled.\<close>

lemma end_core:
  assumes "base (idev s) = off" and "left \<noteq> 0"
    and "\<not> rx_intr (core (hw s))" and "\<not> tx_intr (core (hw s))"
  shows "xfer_end (bus E) imask left s =
    (msg_err (idev s), s\<lparr>idev := (idev s)\<lparr>isr_mask := 0\<rparr>,
       hw := (hw s)\<lparr>core := (core (hw s))\<lparr>enable := False, rx_intr := False, tx_intr := False\<rparr>\<rparr>\<rparr>)"
  using assms by (cases "hw s")
    (simp add: xfer_end_def altr_i2c_int_enable_def readl_core writel_core disable_core regs)

lemma xfer_msg_read:
  assumes i: "i2c_idle off s" and rd: "m_rd m" and wf: "wf_msg m"
  defines "c \<equiv> core (hw s)"
  shows "\<exists>t. altr_i2c_xfer_msg E m s = Some (Inr (0, t)) \<and> i2c_idle off t
    \<and> msg (idev t) = Some (m\<lparr>m_buf := eeprom c (read_off c) (length (m_buf m))\<rparr>)
    \<and> data (core (hw t)) = data c \<and> read_off (core (hw t)) = read_off c + of_nat (length (m_buf m))"
proof -
  let ?n = "length (m_buf m)"
  have len: "0 < ?n" "m_len m = of_nat ?n" "?n < 2 ^ 16" using wf by (simp_all add: wf_msg_def)
  let ?s1 = "(xfer_setup m s)\<lparr>hw := (hw s)\<lparr>core := c\<lparr>enable := True, fifo_level := 0\<rparr>\<rparr>\<rparr>"
  have b: "base (idev (xfer_setup m s)) = off" "hw (xfer_setup m s) = hw s"
    using i by (simp_all add: i2c_idle_def xfer_setup_def)
  have s1: "altr_i2c_core_enable (bus E) (xfer_setup m s) = ?s1"
    using b by (simp add: enable_core c_def)
  have dr: "rx_drain (bus E) ?s1 = Some ?s1"
    using b by (intro drain_empty) simp_all
  have ml: "(ucast (of_nat ?n :: u16) :: u64) = of_nat ?n"
    using len(3) by (simp add: word_unat_eq_iff unat_of_nat_small)
  have nz: "(of_nat ?n :: u64) \<noteq> 0"
    using len by (subst of_nat_eq_0_small) auto
  have c: "\<not> rx_intr c" "\<not> tx_intr c" using i by (simp_all add: i2c_idle_def c_def)
  let ?s2 = "?s1\<lparr>hw := (hw s)\<lparr>core := c\<lparr>enable := True, fifo_level := 0, is_writing := False\<rparr>\<rparr>\<rparr>"
  let ?c3 = "c\<lparr>enable := True, fifo_level := 0, is_writing := False, rx_intr := True, tx_intr := False\<rparr>"
  let ?s3 = "?s1\<lparr>idev := (idev ?s1)\<lparr>isr_mask := 0x1E\<rparr>, hw := (hw s)\<lparr>core := ?c3\<rparr>\<rparr>"
  let ?k = "?s3\<lparr>hw := (hw s)\<lparr>core := rx_core c 0, irq_pending := True\<rparr>\<rparr>"
  have s2: "writel (bus E) (ALTR_I2C_TFR_CMD_STA OR ucast (addr8 E m)) ALTR_I2C_TFR_CMD ?s1 = ?s2"
    using b rd by (simp add: start_core)
  have s3: "altr_i2c_int_enable (bus E) 0x1E True ?s2 = ?s3"
    using b c by (cases "hw s") (simp add: altr_i2c_int_enable_def readl_core writel_core regs)
  have c3: "?c3 = (rx_core c 0)\<lparr>fifo_level := 0\<rparr>" by (simp add: rx_core_def)
  have k: "altr_i2c_transfer (bus E) 0 ?s3 = ?k"
    using b nz by (subst transfer_rx [where c = c and i = 0]) (simp_all add: c3 xfer_setup_def len(2) ml)
  have kick: "xfer_kick E m (ALTR_I2C_ISR_RXOF OR ALTR_I2C_ISR_ARB OR ALTR_I2C_ISR_NACK) ?s1 = Inr (0x1E, ?k)"
    unfolding xfer_kick_def s2 Let_def using rd s3 k by (simp add: regs)
  have ready: "rx_ready off c m 0 ?k"
    using i by (simp add: rx_ready_def xfer_setup_def len(2) ml i2c_idle_def eeprom_def)
  obtain u where u: "serves E ?k u"
    "xfer_done off (m\<lparr>m_buf := eeprom c (read_off c) ?n\<rparr>) ((rx_core c ?n)\<lparr>fifo_level := 0, rx_intr := False\<rparr>) u"
    using rx_serves [OF ready len(1,3) rd] by blast
  obtain left where w: "left \<noteq> 0" "wait_completion E ?k = Inr (left, u)"
    using wait [OF u(1)] by blast
  let ?t = "snd (xfer_end (bus E) 0x1E left u)"
  have e: "xfer_end (bus E) 0x1E left u = (0, ?t)"
    using u(2) w(1) by (subst (1 2) end_core) (simp_all add: xfer_done_def rx_core_def)
  have "altr_i2c_xfer_msg E m s = Some (Inr (0, ?t))"
    using s1 dr kick w(2) e by (simp add: altr_i2c_xfer_msg_def Let_def)
  moreover have "i2c_idle off ?t \<and> msg (idev ?t) = Some (m\<lparr>m_buf := eeprom c (read_off c) ?n\<rparr>)
    \<and> data (core (hw ?t)) = data c \<and> read_off (core (hw ?t)) = read_off c + of_nat ?n"
    using u(2) w(1) by (subst end_core) (simp_all add: xfer_done_def rx_core_def i2c_idle_def end_core)
  ultimately show ?thesis by blast
qed

section \<open>Writes\<close>

lemma transfer_tx:
  assumes "base (idev s) = off" and "core (hw s) = tx_core c p" and "msg_len (idev s) \<noteq> 0"
  shows "altr_i2c_transfer (bus E) (ucast (v :: u8)) s = s\<lparr>hw := (hw s)\<lparr>core := tx_core c v, irq_pending := True\<rparr>\<rparr>"
  using assms
  by (simp add: altr_i2c_transfer_def writel_core i2c_write_tx tx_core_def regs word_pos_iff Let_def)

lemma tx_bytes:
  assumes "base (idev s) = off" and "msg (idev s) = Some m" and "bufp (idev s) = i"
    and "msg_len (idev s) = of_nat (length (m_buf m) - i)"
    and "core (hw s) = tx_core c (ptr_after c (m_buf m) i)"
    and "i + k \<le> length (m_buf m)" and "length (m_buf m) < 2 ^ 16"
  shows "tx_loop (bus E) k s = Inr (s\<lparr>idev := (idev s)\<lparr>bufp := i + k, msg_len := of_nat (length (m_buf m) - (i + k))\<rparr>,
      hw := (hw s)\<lparr>core := tx_core c (ptr_after c (m_buf m) (i + k)), irq_pending := irq_pending (hw s) \<or> 0 < k\<rparr>\<rparr>)"
  using assms
proof (induction k arbitrary: i s)
  case 0
  then show ?case by (cases s; cases "idev s"; cases "hw s") simp
next
  case (Suc k)
  let ?n = "length (m_buf m)" and ?v = "m_buf m ! i"
  let ?s1 = "s\<lparr>idev := (idev s)\<lparr>bufp := i + 1\<rparr>\<rparr>"
  let ?s2 = "?s1\<lparr>hw := (hw s)\<lparr>core := tx_core c ?v, irq_pending := True\<rparr>\<rparr>"
  have i: "i < ?n" using Suc.prems by simp
  have nz: "(of_nat (?n - i) :: u64) \<noteq> 0"
    using i Suc.prems(7) by (subst of_nat_eq_0_small) auto
  have ld: "buf_load s = Inr (?v, ?s1)"
    using Suc.prems i by (simp add: buf_load_def)
  have "altr_i2c_transfer (bus E) (ucast ?v) ?s1 = ?s2"
    using Suc.prems nz by (subst transfer_tx [where c = c and p = "ptr_after c (m_buf m) i"]) simp_all
  then have half: "tx_half (bus E) s = Inr ?s2"
    by (simp add: tx_half_def ld)
  let ?s3 = "dec_len ?s2"
  have len: "msg_len (idev ?s3) = of_nat (?n - Suc i)"
    using Suc.prems of_nat_diff_Suc [OF i] by (simp add: dec_len_def)
  have "tx_loop (bus E) k ?s3 = Inr (?s3\<lparr>idev := (idev ?s3)\<lparr>bufp := Suc i + k, msg_len := of_nat (?n - (Suc i + k))\<rparr>,
      hw := (hw ?s3)\<lparr>core := tx_core c (ptr_after c (m_buf m) (Suc i + k)), irq_pending := irq_pending (hw ?s3) \<or> 0 < k\<rparr>\<rparr>)"
    by (rule Suc.IH) (use Suc.prems len in \<open>simp_all add: dec_len_def ptr_after_def\<close>)
  then show ?case by (simp add: half dec_len_def)
qed

lemma fill_core:
  assumes "base (idev s) = off" and "msg (idev s) = Some m" and "bufp (idev s) = i"
    and "msg_len (idev s) = of_nat (length (m_buf m) - i)" and "fifo_size (idev s) = 64"
    and "core (hw s) = tx_core c (ptr_after c (m_buf m) i)"
    and "i < length (m_buf m)" and "length (m_buf m) < 2 ^ 16"
  defines "j \<equiv> min (i + 64) (length (m_buf m))"
  shows "\<exists>r. altr_i2c_fill_tx_fifo (bus E) s = Inr (r, s\<lparr>idev := (idev s)\<lparr>bufp := j, msg_len := of_nat (length (m_buf m) - j)\<rparr>,
      hw := (hw s)\<lparr>core := tx_core c (ptr_after c (m_buf m) j), irq_pending := True\<rparr>\<rparr>)"
proof -
  let ?n = "length (m_buf m)"
  have lvl: "readl (bus E) ALTR_I2C_TC_FIFO_LVL s = (0, s)"
    using assms(1) by (cases s; cases "hw s") (simp add: readl_core regs)
  have "unat (of_nat (?n - i) :: u64) = ?n - i"
    using assms(8) by (intro unat_of_nat_small) simp
  then have cnt: "int_count (min 64 (of_nat (?n - i))) = j - i"
    using assms(7,8) by (subst int_count_min) (auto simp: j_def min_def)
  have "tx_loop (bus E) (j - i) s = Inr (s\<lparr>idev := (idev s)\<lparr>bufp := i + (j - i), msg_len := of_nat (?n - (i + (j - i)))\<rparr>,
      hw := (hw s)\<lparr>core := tx_core c (ptr_after c (m_buf m) (i + (j - i))), irq_pending := irq_pending (hw s) \<or> 0 < j - i\<rparr>\<rparr>)"
    by (rule tx_bytes) (use assms in auto)
  moreover have "i + (j - i) = j" "0 < j - i" using assms(7) by (auto simp: j_def)
  ultimately show ?thesis
    by (simp add: altr_i2c_fill_tx_fifo_def lvl assms(4,5) cnt Let_def)
qed

text \<open>One interrupt of a write: the next bytes, or, when none is left, the end of the transfer.\<close>

lemma tx_round:
  assumes r: "tx_ready off c m i s" and i: "i \<le> length (m_buf m)" "length (m_buf m) < 2 ^ 16"
    and wr: "\<not> m_rd m"
  shows "\<exists>t. irq_round E (irq_ack s) = Inr t \<and>
    (if i < length (m_buf m) then tx_ready off c m (min (i + 64) (length (m_buf m))) t \<and> irq_pending (hw t)
     else xfer_done off m ((tx_core c (ptr_after c (m_buf m) i))\<lparr>tx_intr := False\<rparr>) t)"
proof -
  let ?n = "length (m_buf m)"
  let ?q = "(irq_ack s)\<lparr>idev := (idev s)\<lparr>isr_status := 1\<rparr>\<rparr>"
  have q: "altr_i2c_isr_quick (bus E) (irq_ack s) = (IRQ_WAKE_THREAD, ?q)"
    using r by (simp add: altr_i2c_isr_quick_def readl_core tx_ready_def tx_core_def regs irq_ack_def)
  have mq: "msg (idev ?q) = Some m" and bq: "base (idev ?q) = off"
    using r by (simp_all add: tx_ready_def)
  have z: "(of_nat (?n - i) :: u64) = 0 \<longleftrightarrow> \<not> i < ?n"
    using i by (subst of_nat_len_0) auto
  have lq: "msg_len (idev ?q) = of_nat (?n - i)" using r by (simp add: tx_ready_def)
  show ?thesis
  proof (cases "i < ?n")
    case True
    let ?j = "min (i + 64) ?n"
    let ?u = "?q\<lparr>idev := (idev ?q)\<lparr>bufp := ?j, msg_len := of_nat (?n - ?j)\<rparr>,
      hw := (hw ?q)\<lparr>core := tx_core c (ptr_after c (m_buf m) ?j), irq_pending := True\<rparr>\<rparr>"
    obtain x where "altr_i2c_fill_tx_fifo (bus E) ?q = Inr (x, ?u)"
      using fill_core [of ?q m i c] r True i(2) by (auto simp: tx_ready_def)
    then have sv: "isr_service (bus E) (m_rd m) (isr_status (idev ?q)) ?q = Inr (False, ?u)"
      using True z lq bq wr by (simp add: isr_service_def int_clear_core regs Let_def word_pos_iff)
    have "tx_ready off c m ?j ?u" using r by (simp add: tx_ready_def)
    then show ?thesis
      using True isr_live [OF mq sv] q by (simp add: irq_round_def)
  next
    case False
    then have sv: "isr_service (bus E) (m_rd m) (isr_status (idev ?q)) ?q = Inr (True, ?q)"
      using z lq bq wr by (simp add: isr_service_def int_clear_core regs Let_def)
    have "xfer_done off m ((tx_core c (ptr_after c (m_buf m) i))\<lparr>tx_intr := False\<rparr>) (isr_finish E ?q)"
      using r bq by (simp add: finish_core xfer_done_def tx_ready_def tx_core_def)
    then show ?thesis
      using False isr_live [OF mq sv] q by (simp add: irq_round_def)
  qed
qed

lemma tx_serves:
  assumes "tx_ready off c m i s" and "irq_pending (hw s)" and "i \<le> length (m_buf m)"
    and "length (m_buf m) < 2 ^ 16" and "\<not> m_rd m"
  shows "\<exists>u. serves E s u
    \<and> xfer_done off m ((tx_core c (ptr_after c (m_buf m) (length (m_buf m))))\<lparr>tx_intr := False\<rparr>) u"
  using assms(1-3)
proof (induction "length (m_buf m) - i" arbitrary: i s rule: less_induct)
  case less
  obtain t where t: "irq_round E (irq_ack s) = Inr t"
    "if i < length (m_buf m) then tx_ready off c m (min (i + 64) (length (m_buf m))) t \<and> irq_pending (hw t)
     else xfer_done off m ((tx_core c (ptr_after c (m_buf m) i))\<lparr>tx_intr := False\<rparr>) t"
    using tx_round [OF less.prems(1,3) assms(4,5)] by blast
  have s: "\<not> msg_complete (idev s)" using less.prems(1) by (simp add: tx_ready_def)
  show ?case
  proof (cases "i < length (m_buf m)")
    case True
    then have "length (m_buf m) - min (i + 64) (length (m_buf m)) < length (m_buf m) - i" by auto
    then show ?thesis
      using less.hyps [of "min (i + 64) (length (m_buf m))" t] True t s less.prems(2) by (auto intro: serve)
  next
    case False
    then have "i = length (m_buf m)" using less.prems(3) by simp
    moreover have "serves E t t" using False t by (intro served) (simp add: xfer_done_def)
    ultimately show ?thesis using False t s less.prems(2) by (auto intro: serve)
  qed
qed

lemma xfer_msg_write:
  assumes i: "i2c_idle off s" and wr: "\<not> m_rd m" and wf: "wf_msg m"
  shows "\<exists>t. altr_i2c_xfer_msg E m s = Some (Inr (0, t)) \<and> i2c_idle off t
    \<and> msg (idev t) = Some m
    \<and> data (core (hw t)) = data (core (hw s)) \<and> read_off (core (hw t)) = last (m_buf m)"
proof -
  let ?n = "length (m_buf m)"
  have len: "0 < ?n" "m_len m = of_nat ?n" "?n < 2 ^ 16" using wf by (simp_all add: wf_msg_def)
  define c where "c = core (hw s)"
  let ?s1 = "(xfer_setup m s)\<lparr>hw := (hw s)\<lparr>core := c\<lparr>enable := True, fifo_level := 0\<rparr>\<rparr>\<rparr>"
  have b: "base (idev (xfer_setup m s)) = off" "hw (xfer_setup m s) = hw s"
    using i by (simp_all add: i2c_idle_def xfer_setup_def)
  have s1: "altr_i2c_core_enable (bus E) (xfer_setup m s) = ?s1"
    using b by (simp add: enable_core c_def)
  have dr: "rx_drain (bus E) ?s1 = Some ?s1"
    using b by (intro drain_empty) simp_all
  have ml: "(ucast (of_nat ?n :: u16) :: u64) = of_nat ?n"
    using len(3) by (simp add: word_unat_eq_iff unat_of_nat_small)
  have c: "\<not> rx_intr c" "\<not> tx_intr c" using i by (simp_all add: i2c_idle_def c_def)
  let ?s2 = "?s1\<lparr>hw := (hw s)\<lparr>core := c\<lparr>enable := True, fifo_level := 0, is_writing := True\<rparr>\<rparr>\<rparr>"
  let ?s3 = "?s1\<lparr>idev := (idev ?s1)\<lparr>isr_mask := 0x1D\<rparr>, hw := (hw s)\<lparr>core := tx_core c (read_off c)\<rparr>\<rparr>"
  have s2: "writel (bus E) (ALTR_I2C_TFR_CMD_STA OR ucast (addr8 E m)) ALTR_I2C_TFR_CMD ?s1 = ?s2"
    using b wr by (simp add: start_core)
  have s3: "altr_i2c_int_enable (bus E) 0x1D True ?s2 = ?s3"
    using b c by (cases "hw s") (simp add: altr_i2c_int_enable_def readl_core writel_core regs tx_core_def)
  have r3: "tx_ready off c m 0 ?s3"
    using i by (simp add: tx_ready_def xfer_setup_def len(2) ml i2c_idle_def ptr_after_def)
  let ?j = "min 64 ?n"
  let ?k = "?s3\<lparr>idev := (idev ?s3)\<lparr>bufp := ?j, msg_len := of_nat (?n - ?j)\<rparr>,
      hw := (hw ?s3)\<lparr>core := tx_core c (ptr_after c (m_buf m) ?j), irq_pending := True\<rparr>\<rparr>"
  obtain x where f: "altr_i2c_fill_tx_fifo (bus E) ?s3 = Inr (x, ?k)"
    using fill_core [of ?s3 m 0 c] r3 len by (auto simp: tx_ready_def)
  have kick: "xfer_kick E m (ALTR_I2C_ISR_RXOF OR ALTR_I2C_ISR_ARB OR ALTR_I2C_ISR_NACK) ?s1 = Inr (0x1D, ?k)"
    unfolding xfer_kick_def s2 Let_def using wr s3 f by (simp add: regs)
  have ready: "tx_ready off c m ?j ?k" using r3 by (simp add: tx_ready_def)
  obtain u where u: "serves E ?k u"
    "xfer_done off m ((tx_core c (ptr_after c (m_buf m) ?n))\<lparr>tx_intr := False\<rparr>) u"
    using tx_serves [OF ready _ _ len(3) wr] by auto
  obtain left where w: "left \<noteq> 0" "wait_completion E ?k = Inr (left, u)"
    using wait [OF u(1)] by blast
  let ?t = "snd (xfer_end (bus E) 0x1D left u)"
  have e: "xfer_end (bus E) 0x1D left u = (0, ?t)"
    using u(2) w(1) by (subst (1 2) end_core) (simp_all add: xfer_done_def tx_core_def)
  have "altr_i2c_xfer_msg E m s = Some (Inr (0, ?t))"
    using s1 dr kick w(2) e by (simp add: altr_i2c_xfer_msg_def Let_def)
  moreover have "i2c_idle off ?t \<and> msg (idev ?t) = Some m \<and> data (core (hw ?t)) = data c
      \<and> read_off (core (hw ?t)) = last (m_buf m)"
    using u(2) w(1) len(1)
    by (subst end_core) (auto simp: xfer_done_def tx_core_def i2c_idle_def end_core ptr_after_def last_conv_nth)
  ultimately show ?thesis unfolding c_def by blast
qed

section \<open>Message lists\<close>

lemma xfer_msg_spec:
  assumes "i2c_idle off s" and "wf_msg m"
  shows "\<exists>t m'. altr_i2c_xfer_msg E m s = Some (Inr (0, t)) \<and> i2c_idle off t \<and> msg (idev t) = Some m'
    \<and> data (core (hw t)) = data (core (hw s))
    \<and> (m', read_off (core (hw t))) =
       (if m_rd m then (m\<lparr>m_buf := eeprom (core (hw s)) (read_off (core (hw s))) (length (m_buf m))\<rparr>,
                        read_off (core (hw s)) + of_nat (length (m_buf m)))
        else (m, last (m_buf m)))"
  using xfer_msg_read [OF assms(1) _ assms(2)] xfer_msg_write [OF assms(1) _ assms(2)]
  by (cases "m_rd m") fastforce+

lemma xfer_loop_spec:
  assumes "i2c_idle off s" and "\<forall>m \<in> set ms. wf_msg m"
  shows "\<exists>t. xfer_loop E ms s = Some (Inr (0, fst (eeprom_xfer (core (hw s)) (read_off (core (hw s))) ms), t))
    \<and> i2c_idle off t \<and> data (core (hw t)) = data (core (hw s))
    \<and> read_off (core (hw t)) = snd (eeprom_xfer (core (hw s)) (read_off (core (hw s))) ms)"
  using assms
proof (induction ms arbitrary: s)
  case Nil
  then show ?case by simp
next
  case (Cons m ms)
  obtain t m' where t: "altr_i2c_xfer_msg E m s = Some (Inr (0, t))" "i2c_idle off t" "msg (idev t) = Some m'"
    "data (core (hw t)) = data (core (hw s))"
    and m': "(m', read_off (core (hw t))) =
       (if m_rd m then (m\<lparr>m_buf := eeprom (core (hw s)) (read_off (core (hw s))) (length (m_buf m))\<rparr>,
                        read_off (core (hw s)) + of_nat (length (m_buf m)))
        else (m, last (m_buf m)))"
    using xfer_msg_spec [OF Cons.prems(1), of m] Cons.prems(2) by (metis list.set_intros(1))
  obtain u where u: "xfer_loop E ms t = Some (Inr (0, fst (eeprom_xfer (core (hw t)) (read_off (core (hw t))) ms), u))"
    "i2c_idle off u" "data (core (hw u)) = data (core (hw t))"
    "read_off (core (hw u)) = snd (eeprom_xfer (core (hw t)) (read_off (core (hw t))) ms)"
    using Cons.IH [OF t(2)] Cons.prems(2) by auto
  show ?case
    using t u m' eeprom_xfer_cong [OF t(4)]
    by (auto simp: split_beta Let_def simp flip: m')
qed

end

section \<open>A host that meets the contract\<close>

text \<open>Pending interrupts are handled one after the other until the transfer is complete or none
  is pending.\<close>

partial_function (option) serve_pending ::
    "i2c_core i2c_env \<Rightarrow> i2c_core i2c_sys \<Rightarrow> (fault + i2c_core i2c_sys) option" where
  "serve_pending E s =
    (if msg_complete (idev s) \<or> \<not> irq_pending (hw s) then Some (Inr s)
     else (case irq_round E (irq_ack s) of Inl e \<Rightarrow> Some (Inl e) | Inr t \<Rightarrow> serve_pending E t))"

definition host_wait :: "i2c_core i2c_env \<Rightarrow> i2c_core i2c_sys \<Rightarrow> fault + u64 \<times> i2c_core i2c_sys" where
  "host_wait E s =
    (case serve_pending E s of
       None \<Rightarrow> Inr (0, s)
     | Some (Inl e) \<Rightarrow> Inl e
     | Some (Inr t) \<Rightarrow> Inr (if msg_complete (idev t) then 1 else 0, t))"

definition host_base :: "u32 \<Rightarrow> i2c_core i2c_env" where
  "host_base off = \<lparr>bus = core_bus off, poll_idle = (\<lambda>s. (False, s)),
     addr8 = (\<lambda>m. push_bit 1 (ucast (m_addr m)) OR of_bool (m_rd m)), wait_completion = (\<lambda>s. Inr (0, s))\<rparr>"

definition emulated_host :: "u32 \<Rightarrow> i2c_core i2c_env" where
  "emulated_host off = (host_base off)\<lparr>wait_completion := host_wait (host_base off)\<rparr>"

lemma irq_round_cong:
  assumes "bus E = bus E'" and "poll_idle E = poll_idle E'"
  shows "irq_round E = irq_round E'"
proof -
  have fin: "isr_finish E s = isr_finish E' s" for s
    unfolding isr_finish_def assms by (rule refl)
  have isr: "altr_i2c_isr E s = altr_i2c_isr E' s" for s
    unfolding altr_i2c_isr_def fin assms by (rule refl)
  show ?thesis
    unfolding irq_round_def [abs_def] isr assms by (rule refl)
qed

lemma serves_serve_pending: "serves E s u \<Longrightarrow> serve_pending E s = Some (Inr u) \<and> msg_complete (idev u)"
  by (induction rule: serves.induct) (simp_all add: serve_pending.simps)

lemma serves_cong:
  assumes "serves E s u" and "bus E = bus E'" and "poll_idle E = poll_idle E'"
  shows "serves E' s u"
  using assms(1) irq_round_cong [OF assms(2,3)]
  by (induction rule: serves.induct) (auto intro: serves.intros)

interpretation emulated: i2c_host "emulated_host off" off for off
proof
  show "bus (emulated_host off) = core_bus off"
    and "poll_idle (emulated_host off) s = (False, s)"
    and "bit (addr8 (emulated_host off) m) 0 \<longleftrightarrow> m_rd m" for s m
    by (simp_all add: emulated_host_def host_base_def bit_0 even_or_iff)
  show "\<exists>left. left \<noteq> 0 \<and> wait_completion (emulated_host off) s = Inr (left, u)"
    if "serves (emulated_host off) s u" for s u
  proof -
    have "serves (host_base off) s u"
      by (rule serves_cong [OF that]) (simp_all add: emulated_host_def)
    from serves_serve_pending [OF this] show ?thesis
      by (simp add: emulated_host_def host_wait_def)
  qed
qed

section \<open>The end-to-end theorem\<close>

text \<open>
  C1. I2C transfers return the EEPROM: under the host contract, for every list of non-empty
  messages, \<open>altr_i2c_xfer\<close> on the emulated core terminates without a fault, returns the number of
  messages, and the message buffers and the core's address pointer are those of the abstract
  EEPROM; the driver is idle again afterwards, with every interrupt source masked.
\<close>

theorem xfer_refines_eeprom:
  assumes "i2c_host E off" and "i2c_idle off s" and "\<forall>m \<in> set ms. wf_msg m"
  shows "\<exists>t. altr_i2c_xfer E ms s =
      Some (Inr (int (length ms), fst (eeprom_xfer (core (hw s)) (read_off (core (hw s))) ms), t))
    \<and> i2c_idle off t \<and> data (core (hw t)) = data (core (hw s))
    \<and> read_off (core (hw t)) = snd (eeprom_xfer (core (hw s)) (read_off (core (hw s))) ms)"
  using i2c_host.xfer_loop_spec [OF assms] by (auto simp: altr_i2c_xfer_def)

text \<open>The vendor name of the emulated SFP, read from offset 20 of its EEPROM.\<close>

definition sfp_image :: "u8 list" where
  "sfp_image = [3, 4] @ replicate 18 0
     @ [0x46, 0x45, 0x4A, 0x4B, 0x4F, 0x4E, 0x20, 0x54, 0x45, 0x53, 0x54] @ replicate 225 0"

definition demo_sys :: "i2c_core i2c_sys" where
  "demo_sys = \<lparr>idev = \<lparr>base = 0x140, irq = 3, msg = None, msg_len = 0, msg_err = 0, msg_complete = False,
       bus_clk_rate = 100000, bufp = 0, fifo_size = 64, isr_mask = 0, isr_status = 0\<rparr>,
     hw = \<lparr>core = \<lparr>i2c_name = ''sfp1'', enable = False, read_off = 0, fifo_level = 0, is_writing = False,
       rx_intr = False, tx_intr = False, data = sfp_image\<rparr>, irq_pending = False\<rparr>\<rparr>"

definition demo_msgs :: "i2c_msg list" where
  "demo_msgs = [\<lparr>m_addr = 0x50, m_rd = False, m_len = 1, m_buf = [20]\<rparr>,
                \<lparr>m_addr = 0x50, m_rd = True, m_len = 3, m_buf = [0, 0, 0]\<rparr>]"

lemma xfer_refines_eeprom_witness:
  "\<exists>t. altr_i2c_xfer (emulated_host 0x140) demo_msgs demo_sys =
      Some (Inr (2, [\<lparr>m_addr = 0x50, m_rd = False, m_len = 1, m_buf = [20]\<rparr>,
                     \<lparr>m_addr = 0x50, m_rd = True, m_len = 3, m_buf = [0x46, 0x45, 0x4A]\<rparr>], t))"
proof -
  have idle: "i2c_idle 0x140 demo_sys" by (simp add: i2c_idle_def demo_sys_def)
  have wf: "\<forall>m \<in> set demo_msgs. wf_msg m" by (simp add: demo_msgs_def wf_msg_def)
  have spec: "fst (eeprom_xfer (core (hw demo_sys)) (read_off (core (hw demo_sys))) demo_msgs)
    = [\<lparr>m_addr = 0x50, m_rd = False, m_len = 1, m_buf = [20]\<rparr>,
       \<lparr>m_addr = 0x50, m_rd = True, m_len = 3, m_buf = [0x46, 0x45, 0x4A]\<rparr>]"
    by (simp add: demo_sys_def demo_msgs_def eeprom_def sfp_image_def upt_rec nth_append)
  show ?thesis
    using xfer_refines_eeprom [OF emulated.i2c_host_axioms idle wf] unfolding spec
    by (auto simp: demo_msgs_def)
qed

end
