(* ===== verification/QemuCard.thy ===== *)
theory QemuCard
  imports Ring Registers QemuI2c
begin

text \<open>
  The emulated card of \<open>src/driver/qemu-device/fejkon.c\<close>: the two DMA rings, the register file
  behind BAR 0, the reception of a packet and one iteration of each of the three threads. A
  critical section under a mutex is one atomic operation of the model. Calls into QEMU are
  returned as events in the order of the calls; their results (\<open>msi_enabled\<close>, \<open>rand\<close>,
  \<open>pci_dma_read\<close>) are arguments.
\<close>

section \<open>State\<close>

record FejkonDmaBuf =
  db_start :: u64
  db_end :: u64
  db_write :: u64
  db_read :: u64

record FejkonState =
  sfp1_i2c :: avalon_i2c
  sfp2_i2c :: avalon_i2c
  stopping :: bool
  rx_buf :: FejkonDmaBuf
  tx_buf :: FejkonDmaBuf
  rx_buf_irq_enabled :: bool
  sfp1_tx_enabled :: bool
  sfp2_tx_enabled :: bool

datatype card_ev =
    MsiNotify nat
  | LogNoMsi nat
  | LogRdSize u64 nat
  | LogRdAddr u64
  | LogWrSize u64 nat
  | LogWrAddr u64
  | LogI2c i2c_ev
  | DmaWrite u64 "u8 list"

definition FRAME_SIZE :: u64 where
  "FRAME_SIZE = 4096"

section \<open>SFP interrupts and sensors\<close>

definition sfp1_i2c_intr :: "bool \<Rightarrow> card_ev list" where
  "sfp1_i2c_intr msi = (if \<not> msi then [LogNoMsi 1] else [MsiNotify 3])"

definition sfp2_i2c_intr :: "bool \<Rightarrow> card_ev list" where
  "sfp2_i2c_intr msi = (if \<not> msi then [LogNoMsi 2] else [MsiNotify 4])"

text \<open>The events of an I2C core, its callback bound to the handler of its port.\<close>

definition bind_intr :: "card_ev list \<Rightarrow> i2c_ev list \<Rightarrow> card_ev list" where
  "bind_intr intr evs = concat (map (\<lambda>e. case e of CallIntr \<Rightarrow> intr | _ \<Rightarrow> [LogI2c e]) evs)"

definition fejkon_temperature :: "u32 \<Rightarrow> u32" where
  "fejkon_temperature rand = (let local = 50 + rand mod 30 in push_bit 8 1 OR ((128 + local) AND 0xff))"

section \<open>BAR 0\<close>

definition fejkon_bar0_read ::
    "bool \<Rightarrow> u32 \<Rightarrow> FejkonState \<Rightarrow> u64 \<Rightarrow> nat \<Rightarrow> u64 \<times> FejkonState \<times> card_ev list" where
  "fejkon_bar0_read msi rand s addr sz =
    (if sz \<noteq> 4 then (0, s, [LogRdSize addr sz])
     else if 0x140 \<le> addr \<and> addr \<le> 0x168 then
       (let (v, i2c, evs) = avalon_i2c_read (sfp1_i2c s) (addr - 0x140)
        in (v, s\<lparr>sfp1_i2c := i2c\<rparr>, bind_intr (sfp1_i2c_intr msi) evs))
     else if 0x240 \<le> addr \<and> addr \<le> 0x268 then
       (let (v, i2c, evs) = avalon_i2c_read (sfp2_i2c s) (addr - 0x240)
        in (v, s\<lparr>sfp2_i2c := i2c\<rparr>, bind_intr (sfp2_i2c_intr msi) evs))
     else if addr = 0x00 then (0x22010de5, s, [])
     else if addr = 0x04 then (0xdeadbeef, s, [])
     else if addr = 0x10 then (ucast (fejkon_temperature rand), s, [])
     else if addr = 0x20 then (106249998, s, [])
     else if addr = 0x100 then (if sfp1_tx_enabled s then 0x1 else 0xb, s, [])
     else if addr = 0x200 then (if sfp2_tx_enabled s then 0x1 else 0xb, s, [])
     else if addr = 0x8AC then (db_write (rx_buf s), s, [])
     else if addr = 0x8CC then (db_read (tx_buf s), s, [])
     else if addr = 0x9000 then (if sfp1_tx_enabled s then 0 else 7, s, [])
     else if addr = 0xB000 then (if sfp2_tx_enabled s then 1 else 7, s, [])
     else (0, s, [LogRdAddr addr]))"

text \<open>The cast \<open>(uint32_t)val\<close> of a 64-bit value.\<close>

definition cast32 :: "u64 \<Rightarrow> u64" where
  "cast32 v = ucast (ucast v :: u32)"

definition fejkon_bar0_write ::
    "bool \<Rightarrow> FejkonState \<Rightarrow> u64 \<Rightarrow> u64 \<Rightarrow> nat \<Rightarrow> FejkonState \<times> card_ev list" where
  "fejkon_bar0_write msi s addr val sz =
    (if sz \<noteq> 4 then (s, [LogWrSize addr sz])
     else if 0x140 \<le> addr \<and> addr \<le> 0x168 then
       (let (i2c, evs) = avalon_i2c_write (sfp1_i2c s) (addr - 0x140) val
        in (s\<lparr>sfp1_i2c := i2c\<rparr>, bind_intr (sfp1_i2c_intr msi) evs))
     else if 0x240 \<le> addr \<and> addr \<le> 0x268 then
       (let (i2c, evs) = avalon_i2c_write (sfp2_i2c s) (addr - 0x240) val
        in (s\<lparr>sfp2_i2c := i2c\<rparr>, bind_intr (sfp2_i2c_intr msi) evs))
     else if addr = 0x100 then (s\<lparr>sfp1_tx_enabled := (val AND 0x8 = 0)\<rparr>, [])
     else if addr = 0x200 then (s\<lparr>sfp2_tx_enabled := (val AND 0x8 = 0)\<rparr>, [])
     else if addr = 0x8A0 then
       (s\<lparr>rx_buf := \<lparr>db_start = cast32 val, db_end = cast32 val, db_write = cast32 val, db_read = cast32 val\<rparr>\<rparr>, [])
     else if addr = 0x8A4 then (s\<lparr>rx_buf := (rx_buf s)\<lparr>db_end := cast32 val\<rparr>\<rparr>, [])
     else if addr = 0x8A8 then
       (s\<lparr>rx_buf := (rx_buf s)\<lparr>db_read := cast32 val\<rparr>, rx_buf_irq_enabled := True\<rparr>, [])
     else if addr = 0x8C0 then
       (s\<lparr>tx_buf := \<lparr>db_start = cast32 val, db_end = cast32 val, db_write = cast32 val, db_read = cast32 val\<rparr>\<rparr>, [])
     else if addr = 0x8C4 then (s\<lparr>tx_buf := (tx_buf s)\<lparr>db_end := cast32 val\<rparr>\<rparr>, [])
     else if addr = 0x8CC then (s\<lparr>tx_buf := (tx_buf s)\<lparr>db_write := cast32 val\<rparr>\<rparr>, [])
     else (s, [LogWrAddr addr]))"

section \<open>Packets\<close>

definition dma_incr :: "FejkonDmaBuf \<Rightarrow> u64 \<Rightarrow> u64 \<Rightarrow> u64" where
  "dma_incr b var x = (if var + x < db_end b then var + x else db_start b + ((var + x) - db_end b))"

definition rx_metadata :: "u32 \<Rightarrow> u32 \<Rightarrow> u32" where
  "rx_metadata port_id len = 4 OR push_bit 4 (len div 4) OR push_bit 14 port_id"

text \<open>\<open>dat\<close> is the packet buffer, of which the first \<open>length\<close> bytes are sent to the host.\<close>

definition fejkon_rx_pkt :: "FejkonState \<Rightarrow> u32 \<Rightarrow> u8 list \<Rightarrow> u32 \<Rightarrow> FejkonState \<times> card_ev list" where
  "fejkon_rx_pkt s port_id dat len =
    (let b = rx_buf s;
         writes = [DmaWrite (db_write b) (le32 (rx_metadata port_id len)),
                   DmaWrite (db_write b + 4) (take (unat len) dat)];
         new_write = dma_incr b (db_write b) FRAME_SIZE
     in if new_write = db_read b then (s, writes @ [MsiNotify 2])
        else (s\<lparr>rx_buf := b\<lparr>db_write := new_write\<rparr>\<rparr>, writes))"

section \<open>Threads\<close>

text \<open>The test packet of \<open>fejkon_rx_thread\<close>.\<close>

definition test_pkt :: "u8 list" where
  "test_pkt = [0xBC, 0xB5, 0x56, 0x56] @ replicate 64 0 @ [0xBC, 0x95, 0x75, 0x75]"

text \<open>One iteration of each loop, after the sleep.\<close>

definition rx_thread_iter :: "FejkonState \<Rightarrow> FejkonState \<times> card_ev list" where
  "rx_thread_iter s =
    (if db_start (rx_buf s) = db_end (rx_buf s) then (s, [])
     else fejkon_rx_pkt s 0 test_pkt 72)"

definition rx_irq_thread_iter :: "FejkonState \<Rightarrow> FejkonState \<times> card_ev list" where
  "rx_irq_thread_iter s =
    (if db_read (rx_buf s) \<noteq> db_write (rx_buf s) \<and> rx_buf_irq_enabled s
     then (s\<lparr>rx_buf_irq_enabled := False\<rparr>, [MsiNotify 1]) else (s, []))"

text \<open>
  \<open>dma_read a n\<close> are the \<open>n\<close> bytes that \<open>pci_dma_read\<close> fetches from \<open>a\<close>. The packet buffer on
  the stack has 2148 bytes: fetching more is a fault.
\<close>

definition word_of_bytes :: "u8 list \<Rightarrow> u32" where
  "word_of_bytes bs = ucast (bs ! 0) OR push_bit 8 (ucast (bs ! 1))
     OR push_bit 16 (ucast (bs ! 2)) OR push_bit 24 (ucast (bs ! 3))"

definition tx_port :: "u32 \<Rightarrow> u32" where "tx_port md = drop_bit 14 md AND 0x3"
definition tx_length :: "u32 \<Rightarrow> u32" where "tx_length md = (drop_bit 4 md AND 0x3ff) * 4"
definition tx_offset :: "u32 \<Rightarrow> u32" where "tx_offset md = md AND 0xf"

definition tx_thread_iter ::
    "(u64 \<Rightarrow> nat \<Rightarrow> u8 list) \<Rightarrow> FejkonState \<Rightarrow> fault + FejkonState \<times> card_ev list" where
  "tx_thread_iter dma_read s =
    (let b = tx_buf s in
     if db_read b = db_write b then Inr (s, [])
     else
      (let metadata = word_of_bytes (dma_read (db_read b) 4);
           port_id = tx_port metadata;
           len = tx_length metadata;
           offset = tx_offset metadata in
       if 2148 < unat len then Inl OutOfBounds
       else
        (let pkt = dma_read (db_read b + ucast offset) (unat len);
             (s, evs) = fejkon_rx_pkt s port_id pkt len
         in Inr (s\<lparr>tx_buf := (tx_buf s)\<lparr>db_read := dma_incr (tx_buf s) (db_read (tx_buf s)) FRAME_SIZE\<rparr>\<rparr>,
                 evs))))"

section \<open>Construction and removal\<close>

text \<open>
  The fields that \<open>pci_fejkon_realize\<close> sets in the card; the object itself starts out zeroed. The
  results of \<open>msi_init\<close>, \<open>pcie_endpoint_cap_init\<close> and \<open>pcie_aer_init\<close> are arguments; a failure
  ends in \<open>hw_error\<close>.
\<close>

definition strcpy_at :: "nat \<Rightarrow> u8 list \<Rightarrow> u8 list \<Rightarrow> u8 list" where
  "strcpy_at i str d = take i d @ str @ [0] @ drop (i + length str + 1) d"

definition fejkon_test_name :: "u8 list" where
  "fejkon_test_name = [0x46, 0x45, 0x4A, 0x4B, 0x4F, 0x4E, 0x20, 0x54, 0x45, 0x53, 0x54]"

definition pci_fejkon_realize :: "int \<Rightarrow> int \<Rightarrow> int \<Rightarrow> FejkonState \<Rightarrow> fault + FejkonState" where
  "pci_fejkon_realize msi_ret cap_ret aer_ret s =
    (if msi_ret \<noteq> 0 then Inl HwError
     else
      (let c1 = sfp1_i2c s;
           c1 = c1\<lparr>i2c_name := ''sfp1'', data := (data c1)[0 := 0x3, 1 := 0x4]\<rparr>;
           c1 = c1\<lparr>data := strcpy_at 20 fejkon_test_name (data c1)\<rparr>;
           c2 = (sfp2_i2c s)\<lparr>i2c_name := ''sfp2'', data := data c1\<rparr>
       in if cap_ret < 0 then Inl HwError
          else if aer_ret < 0 then Inl HwError
          else Inr (s\<lparr>sfp1_i2c := c1, sfp2_i2c := c2\<rparr>)))"

end
