(* ===== verification/QemuRing.thy ===== *)
theory QemuRing
  imports QemuCard PacketMeta Slots
begin

text \<open>
  The receive ring of the emulated card (\<open>dma_incr\<close> and \<open>fejkon_rx_pkt\<close> of
  \<open>src/driver/qemu-device/fejkon.c\<close>): \<open>dma_incr\<close> provides the ring contract, and
  \<open>fejkon_rx_pkt\<close> implements a bounded FIFO of packets on the memory of the host.
\<close>

section \<open>The ring that \<open>dma_incr\<close> walks\<close>

text \<open>Slots and cursors of a programmed ring, which lies below 4 GiB.\<close>

definition db_slots :: "FejkonDmaBuf \<Rightarrow> nat" where [ring_defs]:
  "db_slots b = slot_count (db_start b) (db_end b)"

definition db_idx :: "FejkonDmaBuf \<Rightarrow> u64 \<Rightarrow> nat" where [ring_defs]:
  "db_idx b = slot_idx (db_start b)"

definition db_ok :: "FejkonDmaBuf \<Rightarrow> u64 \<Rightarrow> bool" where
  "db_ok b p \<longleftrightarrow> slot_ok (db_start b) (db_end b) p \<and> unat (db_end b) < 2 ^ 32"

abbreviation frame_incr :: "FejkonDmaBuf \<Rightarrow> u64 \<Rightarrow> u64" where
  "frame_incr b p \<equiv> dma_incr b p FRAME_SIZE"

text \<open>On such a cursor \<open>dma_incr\<close> and the driver's wrap agree.\<close>

lemma frame_incr_slot_next:
  assumes "db_ok b p"
  shows "frame_incr b p = slot_next (db_start b) (db_end b) p"
proof -
  have ok: "slot_ok (db_start b) (db_end b) p" using assms by (simp add: db_ok_def)
  have "unat (p + 4096) = unat p + 4096"
    using slot_end [OF slot_room [OF ok]] by (subst unat_add_no_wrap) simp_all
  then have "p + 4096 < db_end b \<or> p + 4096 = db_end b"
    using slot_room [OF ok] by (auto simp: word_less_nat_alt word_unat_eq_iff)
  then show ?thesis by (auto simp: dma_incr_def slot_next_def FRAME_SIZE_def Let_def)
qed

lemma db_ok_pos:
  assumes "db_ok b p"
  shows "unat p = unat (db_start b) + 4096 * db_idx b p"
    and "unat (db_end b) = unat (db_start b) + 4096 * db_slots b"
    and "db_idx b p < db_slots b"
  using assms slot_pos unfolding db_ok_def db_idx_def db_slots_def by blast+

lemma db_ok_iff:
  "db_ok b p \<longleftrightarrow> (\<exists>i n. i < n \<and> unat p = unat (db_start b) + 4096 * i
     \<and> unat (db_end b) = unat (db_start b) + 4096 * n) \<and> unat (db_end b) < 2 ^ 32"
  by (simp add: db_ok_def slot_ok_iff)

interpretation dma: ring frame_incr db_idx db_slots db_ok
proof unfold_locales
  fix b p q
  assume ok: "db_ok b p"
  then have s: "slot_ok (db_start b) (db_end b) p" and e: "unat (db_end b) < 2 ^ 32"
    by (simp_all add: db_ok_def)
  note inc = frame_incr_slot_next [OF ok]
  show "db_ok b (frame_incr b p)" unfolding inc using slot_ok_next [OF s] e by (simp add: db_ok_def)
  show "db_idx b p < db_slots b" using ok by (rule db_ok_pos)
  show "db_idx b (frame_incr b p) = (if Suc (db_idx b p) = db_slots b then 0 else Suc (db_idx b p))"
    unfolding inc db_idx_def db_slots_def by (rule slot_idx_next [OF s])
  show "p = q" if "db_ok b q" "db_idx b p = db_idx b q"
    using slot_idx_inj [OF s] that by (simp add: db_ok_def db_idx_def)
qed

section \<open>Packets in host memory\<close>

text \<open>Only the DMA writes of the card reach the host's memory.\<close>

fun apply_ev :: "mem \<Rightarrow> card_ev \<Rightarrow> mem" where
  "apply_ev m (DmaWrite a bs) = mem_put m a bs"
| "apply_ev m _ = m"

definition apply_evs :: "mem \<Rightarrow> card_ev list \<Rightarrow> mem" where
  "apply_evs m evs = foldl apply_ev m evs"

lemma apply_evs_simps [simp]:
  "apply_evs m [] = m" "apply_evs m (e # es) = apply_evs (apply_ev m e) es"
  by (simp_all add: apply_evs_def)

text \<open>What a consumer finds in the slot at \<open>p\<close>, when it takes the data to follow the metadata
  word directly, as this card lays it out: the port and the payload.\<close>

definition slot_packet :: "mem \<Rightarrow> u64 \<Rightarrow> u32 \<times> u8 list" where
  "slot_packet m p = (let md = get32 m p in (tx_port md, mem_get m (p + 4) (unat (tx_length md))))"

text \<open>The packets pending between the read and the write cursor, oldest first.\<close>

definition ring_packets :: "mem \<Rightarrow> FejkonDmaBuf \<Rightarrow> (u32 \<times> u8 list) list" where
  "ring_packets m b = map (slot_packet m)
     (walk (frame_incr b) (db_read b) (ring_used (db_slots b) (db_idx b (db_read b)) (db_idx b (db_write b))))"

definition ring_ok :: "FejkonDmaBuf \<Rightarrow> bool" where
  "ring_ok b \<longleftrightarrow> db_ok b (db_read b) \<and> db_ok b (db_write b)"

lemmas md_defs = md_port_def md_quads_def md_off_def

lemma tx_fields_md: "tx_port md = md_port md" "tx_length md = md_quads md * 4" "tx_offset md = md_off md"
  by (simp_all add: tx_port_def tx_length_def tx_offset_def md_defs)

lemma rx_metadata_md:
  assumes "unat port < 4" and "unat len < 4096"
  shows "rx_metadata port len = md_word port (len div 4) 4"
proof -
  have "port AND 0x3 = port" "len div 4 AND 0x3ff = len div 4"
    using assms by (simp_all add: md_masks and_small)
  then show ?thesis by (simp add: rx_metadata_def md_word_def or.commute or.left_commute)
qed

lemma rx_metadata_fields:
  assumes "unat port < 4" and "unat len < 4096"
  shows "md_port (rx_metadata port len) = port" "md_quads (rx_metadata port len) = len div 4"
    "md_off (rx_metadata port len) = 4"
  using assms by (simp_all add: rx_metadata_md md_fields_small del: md_fields)

text \<open>
  C33. The metadata word that the card writes is read back by the field extractions of the code:
  the port, the length rounded down to a multiple of four, and the offset 4.
\<close>

theorem rx_metadata_roundtrip:
  assumes "unat port < 4" and "unat len < 4096"
  shows "tx_port (rx_metadata port len) = port
    \<and> unat (tx_length (rx_metadata port len)) = unat len - unat len mod 4
    \<and> tx_offset (rx_metadata port len) = 4"
  using rx_metadata_fields [OF assms] unat_quads_4 [of "rx_metadata port len"]
  by (simp add: tx_fields_md minus_mod_eq_mult_div mult.commute)

theorem rx_metadata_roundtrip_witness:
  "tx_port (rx_metadata 1 74) = 1 \<and> unat (tx_length (rx_metadata 1 74)) = 72 \<and> tx_offset (rx_metadata 1 74) = 4"
  using rx_metadata_roundtrip [of 1 74] by simp

section \<open>Reception as a bounded FIFO\<close>

abbreviation put_packet :: "mem \<Rightarrow> u64 \<Rightarrow> u32 \<Rightarrow> u8 list \<Rightarrow> mem" where
  "put_packet m q md bs \<equiv> put_frame m q md 4 bs"

lemma tx_length_le: "unat (tx_length md) \<le> 4092"
  using md_quads_le [of md] by (simp add: tx_fields_md unat_quads_4)

lemma put_packet_other:
  assumes "db_ok b p" and "db_ok b q" and "p \<noteq> q" and "length bs \<le> 4092"
  shows "slot_packet (put_packet m q md bs) p = slot_packet m p"
proof -
  have s: "slot_ok (db_start b) (db_end b) p" "slot_ok (db_start b) (db_end b) q"
    using assms by (simp_all add: db_ok_def)
  then show ?thesis
    using put_frame_get32_other [OF s assms(3)] put_frame_other [OF s assms(3), of 4 bs 4] tx_length_le assms(4)
    by (simp add: slot_packet_def Let_def)
qed

lemma put_packet_same:
  assumes "db_ok b q" and "length bs = unat (tx_length md)"
  shows "slot_packet (put_packet m q md bs) q = (tx_port md, bs)"
proof -
  have s: "slot_ok (db_start b) (db_end b) q" using assms by (simp add: db_ok_def)
  then show ?thesis
    using put_frame_same [OF s, of 4 bs m md] assms(2) tx_length_le [of md]
    by (simp add: slot_packet_def Let_def)
qed

lemma rx_pkt_effect:
  assumes "unat len = length dat"
  shows "apply_evs m (snd (fejkon_rx_pkt s port dat len))
      = put_packet m (db_write (rx_buf s)) (rx_metadata port len) dat"
    and "MsiNotify 2 \<in> set (snd (fejkon_rx_pkt s port dat len))
      \<longleftrightarrow> frame_incr (rx_buf s) (db_write (rx_buf s)) = db_read (rx_buf s)"
    and "fst (fejkon_rx_pkt s port dat len)
      = (if frame_incr (rx_buf s) (db_write (rx_buf s)) = db_read (rx_buf s) then s
         else s\<lparr>rx_buf := (rx_buf s)\<lparr>db_write := frame_incr (rx_buf s) (db_write (rx_buf s))\<rparr>\<rparr>)"
  using assms by (auto simp: fejkon_rx_pkt_def put_frame_def Let_def)

text \<open>The views do not depend on the cursors themselves.\<close>

lemma db_cursor_irrelevant [simp]:
  "db_slots (b\<lparr>db_write := w\<rparr>) = db_slots b" "db_slots (b\<lparr>db_read := r\<rparr>) = db_slots b"
  "db_idx (b\<lparr>db_write := w\<rparr>) = db_idx b" "db_idx (b\<lparr>db_read := r\<rparr>) = db_idx b"
  "db_ok (b\<lparr>db_write := w\<rparr>) = db_ok b" "db_ok (b\<lparr>db_read := r\<rparr>) = db_ok b"
  "dma_incr (b\<lparr>db_write := w\<rparr>) = dma_incr b" "dma_incr (b\<lparr>db_read := r\<rparr>) = dma_incr b"
  by (simp_all add: fun_eq_iff db_slots_def db_idx_def db_ok_def dma_incr_def)

lemma ring_packets_put:
  assumes "ring_ok b" and "length bs \<le> 4092"
  shows "ring_packets (put_packet m (db_write b) md bs) b = ring_packets m b"
  unfolding ring_packets_def
proof (rule map_cong [OF refl])
  fix p assume p: "p \<in> set (walk (frame_incr b) (db_read b)
    (ring_used (db_slots b) (db_idx b (db_read b)) (db_idx b (db_write b))))"
  have ok: "db_ok b (db_read b)" "db_ok b (db_write b)" using assms(1) by (simp_all add: ring_ok_def)
  then have "p \<noteq> db_write b" using p dma.write_slot_free by blast
  then show "slot_packet (put_packet m (db_write b) md bs) p = slot_packet m p"
    using put_packet_other [OF dma.walk_ok [OF ok(1) p] ok(2)] assms(2) by blast
qed

text \<open>
  C4. \<open>fejkon_rx_pkt\<close> implements a bounded FIFO on the host's memory. With the ring programmed and
  both cursors in it, a packet of up to 4092 bytes (a multiple of four) is appended to the pending
  packets when fewer than slots - 1 are pending; otherwise the pending packets are unchanged and
  the overflow vector 2 is signalled, and only then. The cursors stay in the ring.
\<close>

theorem rx_pkt_bounded_fifo:
  assumes "ring_ok (rx_buf s)" and "unat port < 4"
    and "unat len = length dat" and "length dat \<le> 4092" and "length dat mod 4 = 0"
  defines "s' \<equiv> fst (fejkon_rx_pkt s port dat len)" and "evs \<equiv> snd (fejkon_rx_pkt s port dat len)"
    and "cap \<equiv> db_slots (rx_buf s) - 1"
  shows "ring_packets (apply_evs m evs) (rx_buf s') = fifo_enq cap (port, dat) (ring_packets m (rx_buf s))
    \<and> (MsiNotify 2 \<in> set evs \<longleftrightarrow> length (ring_packets m (rx_buf s)) = cap)
    \<and> length (ring_packets m (rx_buf s)) \<le> cap \<and> ring_ok (rx_buf s')"
proof -
  let ?b = "rx_buf s" and ?md = "rx_metadata port len"
  have ok: "db_ok ?b (db_read ?b)" "db_ok ?b (db_write ?b)"
    using assms(1) by (simp_all add: ring_ok_def)
  have md: "tx_port ?md = port" "unat (tx_length ?md) = length dat"
    using rx_metadata_fields [of port len] unat_quads_4 [of ?md] assms(2-5)
    by (simp_all add: tx_fields_md) presburger
  note pkt = rx_pkt_effect [OF assms(3), where s = s and port = port]
  have same: "slot_packet (put_packet m (db_write ?b) ?md dat) (db_write ?b) = (port, dat)"
    using put_packet_same [OF ok(2)] md by simp
  have keep: "ring_packets (put_packet m (db_write ?b) ?md dat) ?b = ring_packets m ?b"
    using ring_packets_put [OF assms(1,4)] .
  have bound: "length (ring_packets m ?b) \<le> cap"
    unfolding ring_packets_def cap_def using dma.occupancy_bound [OF ok(1)] by simp
  have full: "frame_incr ?b (db_write ?b) = db_read ?b \<longleftrightarrow> length (ring_packets m ?b) = cap"
    using dma.full_iff [OF ok] by (simp add: ring_packets_def cap_def)
  show ?thesis
  proof (cases "frame_incr ?b (db_write ?b) = db_read ?b")
    case True
    then show ?thesis
      using keep bound full assms(1) by (simp add: s'_def evs_def pkt fifo_enq_def)
  next
    case False
    have "ring_packets M (?b\<lparr>db_write := frame_incr ?b (db_write ?b)\<rparr>)
        = ring_packets M ?b @ [slot_packet M (db_write ?b)]" for M
      using dma.walk_enq [OF ok False] by (simp add: ring_packets_def)
    then show ?thesis
      using False keep bound full same ok dma.ok_adv [OF ok(2)]
      by (simp add: s'_def evs_def pkt fifo_enq_def ring_ok_def)
  qed
qed

theorem rx_pkt_bounded_fifo_witness:
  "\<exists>s' evs. fejkon_rx_pkt \<lparr>sfp1_i2c = undefined, sfp2_i2c = undefined, stopping = False,
      rx_buf = \<lparr>db_start = 0x100000, db_end = 0x102000, db_write = 0x101000, db_read = 0x101000\<rparr>,
      tx_buf = undefined, rx_buf_irq_enabled = False, sfp1_tx_enabled = True, sfp2_tx_enabled = True\<rparr>
      1 [0xBC, 0xB5, 0x56, 0x56] 4 = (s', evs)
    \<and> ring_packets (apply_evs (\<lambda>_. 0) evs) (rx_buf s') = [(1, [0xBC, 0xB5, 0x56, 0x56])]"
  (is "\<exists>s' evs. fejkon_rx_pkt ?s _ _ _ = _ \<and> _")
proof -
  have "ring_ok (rx_buf ?s)" by (simp add: ring_ok_def db_ok_def slot_ok_def)
  from rx_pkt_bounded_fifo [OF this, of 1 4 "[0xBC, 0xB5, 0x56, 0x56]" "\<lambda>_. 0"]
  show ?thesis
    by (simp add: ring_packets_def ring_used_def ring_defs fifo_enq_def)
      (metis prod.collapse)
qed

end
