(* ===== verification/QemuThreads.thy ===== *)
theory QemuThreads
  imports QemuRing
begin

text \<open>
  The emulated card as a whole (\<open>src/driver/qemu-device/fejkon.c\<close>): guest accesses, the loops of
  the three threads and the removal of the device as one step relation, with the invariants of
  every run; the programming of the rings; and what one iteration of the transmit thread does.
\<close>

section \<open>Steps\<close>

text \<open>The card in a run: a thread that has left its loop is in \<open>ended\<close>; \<open>Joining i\<close> says that
  \<open>pci_fejkon_uninit\<close> waits for the thread number \<open>i\<close>, and \<open>Joining 3\<close> that it has returned.\<close>

datatype removal = Present | Joining nat

record card_run =
  card_st :: FejkonState
  ended :: "nat set"
  removal :: removal

datatype card_act = GuestRead u64 nat | GuestWrite u64 u64 nat | ThreadIter nat | ThreadEnd nat
  | Uninit

text \<open>\<open>pci_fejkon_uninit\<close>, up to the next join: it is called, or the thread it waits for has ended;
  otherwise it blocks.\<close>

definition pci_fejkon_uninit :: "card_run \<Rightarrow> card_run option" where
  "pci_fejkon_uninit r =
    (case removal r of
       Present \<Rightarrow> Some (r\<lparr>removal := Joining 0\<rparr>)
     | Joining i \<Rightarrow> (if i < 3 \<and> i \<in> ended r then Some (r\<lparr>removal := Joining (Suc i)\<rparr>) else None))"

inductive card_step :: "card_run \<Rightarrow> card_act \<Rightarrow> card_ev list \<Rightarrow> card_run \<Rightarrow> bool" where
  guest_read: "fejkon_bar0_read msi rand (card_st r) addr sz = (v, s', evs) \<Longrightarrow>
    card_step r (GuestRead addr sz) evs (r\<lparr>card_st := s'\<rparr>)"
| guest_write: "fejkon_bar0_write msi (card_st r) addr val sz = (s', evs) \<Longrightarrow>
    card_step r (GuestWrite addr val sz) evs (r\<lparr>card_st := s'\<rparr>)"
| rx_iter: "0 \<notin> ended r \<Longrightarrow> \<not> stopping (card_st r) \<Longrightarrow> rx_thread_iter (card_st r) = (s', evs) \<Longrightarrow>
    card_step r (ThreadIter 0) evs (r\<lparr>card_st := s'\<rparr>)"
| irq_iter: "1 \<notin> ended r \<Longrightarrow> \<not> stopping (card_st r) \<Longrightarrow> rx_irq_thread_iter (card_st r) = (s', evs) \<Longrightarrow>
    card_step r (ThreadIter 1) evs (r\<lparr>card_st := s'\<rparr>)"
| tx_iter: "2 \<notin> ended r \<Longrightarrow> \<not> stopping (card_st r) \<Longrightarrow> tx_thread_iter dma_read (card_st r) = Inr (s', evs) \<Longrightarrow>
    card_step r (ThreadIter 2) evs (r\<lparr>card_st := s'\<rparr>)"
| thread_end: "i < 3 \<Longrightarrow> stopping (card_st r) \<Longrightarrow> card_step r (ThreadEnd i) [] (r\<lparr>ended := insert i (ended r)\<rparr>)"
| uninit: "pci_fejkon_uninit r = Some r' \<Longrightarrow> card_step r Uninit [] r'"

inductive_cases card_stepE: "card_step r a evs r'"

inductive card_runs :: "card_run \<Rightarrow> card_act list \<Rightarrow> card_ev list \<Rightarrow> card_run \<Rightarrow> bool" where
  runs_nil: "card_runs r [] [] r"
| runs_snoc: "card_runs r acts evs r' \<Longrightarrow> card_step r' a es r'' \<Longrightarrow> card_runs r (acts @ [a]) (evs @ es) r''"

text \<open>The card after \<open>pci_fejkon_realize\<close> on a zeroed object: the threads have been started.\<close>

definition zeroed_i2c :: avalon_i2c where
  "zeroed_i2c = \<lparr>i2c_name = [], enable = False, read_off = 0, fifo_level = 0, is_writing = False,
     rx_intr = False, tx_intr = False, data = replicate 256 0\<rparr>"

definition zeroed_card :: FejkonState where
  "zeroed_card = \<lparr>sfp1_i2c = zeroed_i2c, sfp2_i2c = zeroed_i2c, stopping = False,
     rx_buf = \<lparr>db_start = 0, db_end = 0, db_write = 0, db_read = 0\<rparr>,
     tx_buf = \<lparr>db_start = 0, db_end = 0, db_write = 0, db_read = 0\<rparr>,
     rx_buf_irq_enabled = False, sfp1_tx_enabled = False, sfp2_tx_enabled = False\<rparr>"

definition card_start :: "card_run \<Rightarrow> bool" where
  "card_start r \<longleftrightarrow> pci_fejkon_realize 0 0 0 zeroed_card = Inr (card_st r) \<and> ended r = {} \<and> removal r = Present"

section \<open>Invariants of every run\<close>

definition card_inv :: "FejkonState \<Rightarrow> bool" where
  "card_inv s \<longleftrightarrow> i2c_ok (sfp1_i2c s) \<and> i2c_ok (sfp2_i2c s) \<and> \<not> stopping s"

lemma bar0_read_inv:
  assumes "card_inv s" and "fejkon_bar0_read msi rand s addr sz = (v, s', evs)"
  shows "card_inv s'"
  using assms i2c_ok_read [of "sfp1_i2c s" "addr - 0x140"] i2c_ok_read [of "sfp2_i2c s" "addr - 0x240"]
  by (simp add: fejkon_bar0_read_def card_inv_def Let_def split_beta split: if_splits) auto

lemma bar0_write_inv:
  assumes "card_inv s" and "fejkon_bar0_write msi s addr val sz = (s', evs)"
  shows "card_inv s'"
  using assms i2c_ok_write [of "sfp1_i2c s" "addr - 0x140" val] i2c_ok_write [of "sfp2_i2c s" "addr - 0x240" val]
  by (simp add: fejkon_bar0_write_def card_inv_def Let_def split_beta split: if_splits) auto

lemma rx_pkt_frame:
  "sfp1_i2c (fst (fejkon_rx_pkt s port dat len)) = sfp1_i2c s"
  "sfp2_i2c (fst (fejkon_rx_pkt s port dat len)) = sfp2_i2c s"
  "stopping (fst (fejkon_rx_pkt s port dat len)) = stopping s"
  "tx_buf (fst (fejkon_rx_pkt s port dat len)) = tx_buf s"
  "rx_buf_irq_enabled (fst (fejkon_rx_pkt s port dat len)) = rx_buf_irq_enabled s"
  by (simp_all add: fejkon_rx_pkt_def Let_def)

lemma rx_pkt_inv: "card_inv s \<Longrightarrow> card_inv (fst (fejkon_rx_pkt s port dat len))"
  by (simp add: card_inv_def rx_pkt_frame)

lemma thread_inv:
  "card_inv s \<Longrightarrow> rx_thread_iter s = (s', evs) \<Longrightarrow> card_inv s'"
  "card_inv s \<Longrightarrow> rx_irq_thread_iter s = (s', evs) \<Longrightarrow> card_inv s'"
  "card_inv s \<Longrightarrow> tx_thread_iter rd s = Inr (s', evs) \<Longrightarrow> card_inv s'"
proof -
  show "card_inv s \<Longrightarrow> rx_thread_iter s = (s', evs) \<Longrightarrow> card_inv s'"
    using rx_pkt_inv [of s 0 test_pkt 72] by (auto simp: rx_thread_iter_def split: if_splits)
  show "card_inv s \<Longrightarrow> rx_irq_thread_iter s = (s', evs) \<Longrightarrow> card_inv s'"
    by (auto simp: rx_irq_thread_iter_def card_inv_def split: if_splits)
  show "card_inv s \<Longrightarrow> tx_thread_iter rd s = Inr (s', evs) \<Longrightarrow> card_inv s'"
    by (auto simp: tx_thread_iter_def card_inv_def Let_def split_beta rx_pkt_frame split: if_splits)
qed

lemma realize_inv: "card_start r \<Longrightarrow> card_inv (card_st r)"
proof -
  assume "card_start r"
  then have "Inr (card_st r) = pci_fejkon_realize 0 0 0 zeroed_card" by (simp add: card_start_def)
  then show ?thesis
    by (simp add: pci_fejkon_realize_def zeroed_card_def zeroed_i2c_def card_inv_def
        i2c_ok_def strcpy_at_def fejkon_test_name_def)
qed

definition run_inv :: "card_run \<Rightarrow> bool" where
  "run_inv r \<longleftrightarrow> card_inv (card_st r) \<and> ended r = {} \<and> removal r \<in> {Present, Joining 0}"

lemma card_inv_running: "card_inv s \<Longrightarrow> \<not> stopping s"
  by (simp add: card_inv_def)

lemma step_inv: "card_step r a evs r' \<Longrightarrow> run_inv r \<Longrightarrow> run_inv r'"
  by (erule card_stepE)
    (auto simp: run_inv_def pci_fejkon_uninit_def split: removal.splits if_splits dest: bar0_read_inv bar0_write_inv thread_inv card_inv_running)

text \<open>
  C28. In every run from \<open>pci_fejkon_realize\<close>, whatever the guest and the threads do, both EEPROM
  arrays keep their 256 bytes. But nothing ever sets \<open>stopping\<close>: no
  thread leaves its loop, and \<open>pci_fejkon_uninit\<close>, once called, waits for the first thread for
  ever.
\<close>

theorem uninit_never_returns:
  assumes "card_start r" and "card_runs r acts evs r'"
  shows "i2c_ok (sfp1_i2c (card_st r')) \<and> i2c_ok (sfp2_i2c (card_st r'))
    \<and> \<not> stopping (card_st r') \<and> ended r' = {} \<and> (\<forall>i. removal r' = Joining i \<longrightarrow> i = 0)"
proof -
  have "run_inv r" using assms(1) realize_inv by (simp add: run_inv_def card_start_def)
  with assms(2) have "run_inv r'"
    by (induction rule: card_runs.induct) (auto intro: step_inv)
  then show ?thesis by (auto simp: run_inv_def card_inv_def)
qed

text \<open>The start state exists, and a run with a removal request in it.\<close>

definition started :: card_run where
  "started = \<lparr>card_st = (case pci_fejkon_realize 0 0 0 zeroed_card of Inr s \<Rightarrow> s), ended = {}, removal = Present\<rparr>"

lemma card_start_started: "card_start started"
  by (simp add: card_start_def started_def pci_fejkon_realize_def Let_def)

lemma card_runs_one: "card_step r a es r' \<Longrightarrow> card_runs r [a] es r'"
  using runs_snoc [OF runs_nil] by fastforce

theorem uninit_never_returns_witness:
  "\<exists>r'. card_runs started [Uninit] [] r' \<and> removal r' = Joining 0 \<and> ended r' = {}"
proof (intro exI conjI)
  have step: "card_step started Uninit [] (started\<lparr>removal := Joining 0\<rparr>)"
    by (rule uninit) (simp add: started_def pci_fejkon_uninit_def)
  show run: "card_runs started [Uninit] [] (started\<lparr>removal := Joining 0\<rparr>)"
    by (rule card_runs_one [OF step])
  show "removal (started\<lparr>removal := Joining 0\<rparr>) = Joining 0" by simp
  show "ended (started\<lparr>removal := Joining 0\<rparr>) = {}"
    using uninit_never_returns [OF card_start_started run] by blast
qed

section \<open>The receive interrupt\<close>

definition msi_count :: "nat \<Rightarrow> card_ev list \<Rightarrow> nat" where
  "msi_count n evs = length (filter (\<lambda>e. e = MsiNotify n) evs)"

definition rearms :: "card_act list \<Rightarrow> nat" where
  "rearms acts = length (filter (\<lambda>a. case a of GuestWrite ad v sz \<Rightarrow> ad = 0x8A8 \<and> sz = 4 | _ \<Rightarrow> False) acts)"

lemma msi_count_simps [simp]:
  "msi_count n [] = 0" "msi_count n (xs @ ys) = msi_count n xs + msi_count n ys"
  "msi_count n (e # es) = (if e = MsiNotify n then 1 else 0) + msi_count n es"
  by (simp_all add: msi_count_def)

lemma rearms_simps [simp]:
  "rearms [] = 0" "rearms (xs @ ys) = rearms xs + rearms ys"
  by (simp_all add: rearms_def)

lemma bind_intr_no_rx:
  "msi_count (Suc 0) (bind_intr (sfp1_i2c_intr msi) es) = 0" "msi_count (Suc 0) (bind_intr (sfp2_i2c_intr msi) es) = 0"
  by (induction es) (auto simp: bind_intr_def sfp1_i2c_intr_def sfp2_i2c_intr_def split: i2c_ev.splits)

lemma bar0_read_no_rx:
  "fejkon_bar0_read msi rand s addr sz = (v, s', evs) \<Longrightarrow>
    msi_count (Suc 0) evs = 0 \<and> rx_buf_irq_enabled s' = rx_buf_irq_enabled s"
  by (simp add: fejkon_bar0_read_def Let_def split_beta split: if_splits) (auto simp: bind_intr_no_rx)

lemma bar0_write_no_rx:
  "fejkon_bar0_write msi s addr val sz = (s', evs) \<Longrightarrow>
    msi_count (Suc 0) evs = 0 \<and> (rx_buf_irq_enabled s' \<longrightarrow> rx_buf_irq_enabled s \<or> addr = 0x8A8 \<and> sz = 4)"
  by (simp add: fejkon_bar0_write_def Let_def split_beta split: if_splits) (auto simp: bind_intr_no_rx)

lemma rx_pkt_no_rx: "msi_count (Suc 0) (snd (fejkon_rx_pkt s port dat len)) = 0"
  by (simp add: fejkon_rx_pkt_def Let_def)

lemma thread_no_rx:
  "rx_thread_iter s = (s', evs) \<Longrightarrow> msi_count (Suc 0) evs = 0 \<and> rx_buf_irq_enabled s' = rx_buf_irq_enabled s"
  "tx_thread_iter rd s = Inr (s', evs) \<Longrightarrow> msi_count (Suc 0) evs = 0 \<and> rx_buf_irq_enabled s' = rx_buf_irq_enabled s"
  "rx_irq_thread_iter s = (s', evs) \<Longrightarrow>
    msi_count (Suc 0) evs + of_bool (rx_buf_irq_enabled s') = of_bool (rx_buf_irq_enabled s)"
proof -
  show "rx_thread_iter s = (s', evs) \<Longrightarrow> msi_count (Suc 0) evs = 0 \<and> rx_buf_irq_enabled s' = rx_buf_irq_enabled s"
    using rx_pkt_no_rx [of s 0 test_pkt 72] rx_pkt_frame(5) [of s 0 test_pkt 72]
    by (auto simp: rx_thread_iter_def split: if_splits)
  show "tx_thread_iter rd s = Inr (s', evs) \<Longrightarrow> msi_count (Suc 0) evs = 0 \<and> rx_buf_irq_enabled s' = rx_buf_irq_enabled s"
    by (auto simp: tx_thread_iter_def Let_def split_beta rx_pkt_frame rx_pkt_no_rx split: if_splits)
  show "rx_irq_thread_iter s = (s', evs) \<Longrightarrow>
      msi_count (Suc 0) evs + of_bool (rx_buf_irq_enabled s') = of_bool (rx_buf_irq_enabled s)"
    by (auto simp: rx_irq_thread_iter_def split: if_splits)
qed

lemma step_rx_irq:
  assumes "card_step r a evs r'"
  shows "msi_count (Suc 0) evs + of_bool (rx_buf_irq_enabled (card_st r'))
    \<le> rearms [a] + of_bool (rx_buf_irq_enabled (card_st r))"
  using assms
proof cases
  case (irq_iter s')
  then show ?thesis using thread_no_rx(3) [OF irq_iter(5)] irq_iter(2) by simp
next
  case (guest_write msi addr val sz s')
  then show ?thesis using bar0_write_no_rx [OF guest_write(3)] by (auto simp: rearms_def)
qed (auto simp: rearms_def pci_fejkon_uninit_def split: removal.splits if_splits dest: bar0_read_no_rx thread_no_rx(1,2))

lemma runs_rx_irq:
  "card_runs r acts evs r' \<Longrightarrow> msi_count (Suc 0) evs + of_bool (rx_buf_irq_enabled (card_st r'))
    \<le> rearms acts + of_bool (rx_buf_irq_enabled (card_st r))"
proof (induction rule: card_runs.induct)
  case (runs_snoc r acts evs r' a es r'')
  then show ?case using step_rx_irq [OF runs_snoc(2)] by simp
qed simp

text \<open>
  C12. Interrupt moderation: in every run, the card raises the receive interrupt (vector 1) at most
  once for each time the driver has acknowledged by writing its read pointer to 0x8A8.
\<close>

theorem rx_irq_moderated:
  assumes "card_start r" and "card_runs r acts evs r'"
  shows "msi_count 1 evs \<le> rearms acts"
proof -
  have "\<not> rx_buf_irq_enabled (card_st r)"
  proof -
    have "Inr (card_st r) = pci_fejkon_realize 0 0 0 zeroed_card" using assms(1) by (simp add: card_start_def)
    then show ?thesis by (simp add: pci_fejkon_realize_def zeroed_card_def Let_def)
  qed
  then show ?thesis using runs_rx_irq [OF assms(2)] by simp
qed

theorem rx_irq_moderated_witness:
  "\<exists>r'. card_runs started [GuestWrite 0x8A8 0x1000 4, ThreadIter 1] [MsiNotify 1] r'
    \<and> msi_count 1 [MsiNotify 1] \<le> rearms [GuestWrite 0x8A8 0x1000 4, ThreadIter 1]"
proof -
  let ?r1 = "started\<lparr>card_st := fst (fejkon_bar0_write True (card_st started) 0x8A8 0x1000 4)\<rparr>"
  let ?r2 = "?r1\<lparr>card_st := fst (rx_irq_thread_iter (card_st ?r1))\<rparr>"
  have st: "\<not> stopping (card_st started)" "db_write (rx_buf (card_st started)) = 0"
    by (simp_all add: started_def pci_fejkon_realize_def zeroed_card_def Let_def)
  have "card_step started (GuestWrite 0x8A8 0x1000 4) [] ?r1"
    by (rule guest_write [of True]) (simp add: fejkon_bar0_write_def)
  then have "card_runs started [GuestWrite 0x8A8 0x1000 4] [] ?r1" by (rule card_runs_one)
  moreover have "card_step ?r1 (ThreadIter 1) [MsiNotify 1] ?r2"
    by (rule irq_iter)
      (use st in \<open>simp_all add: rx_irq_thread_iter_def fejkon_bar0_write_def cast32_def started_def\<close>)
  ultimately have run: "card_runs started [GuestWrite 0x8A8 0x1000 4, ThreadIter 1] [MsiNotify 1] ?r2"
    using runs_snoc by fastforce
  then show ?thesis using rx_irq_moderated [OF card_start_started run] by blast
qed

section \<open>The transmit thread\<close>

definition pending :: "FejkonDmaBuf \<Rightarrow> nat" where
  "pending b = ring_used (db_slots b) (db_idx b (db_read b)) (db_idx b (db_write b))"

lemma word_of_bytes_get32: "word_of_bytes (mem_get m a 4) = get32 m a"
  by (simp add: word_of_bytes_def get32_def)

lemma tx_length_mod_4: "unat (tx_length md) mod 4 = 0"
  by (simp add: tx_fields_md unat_quads_4)

text \<open>
  C9. One iteration of the transmit thread with a frame of at most 2148 bytes pending consumes
  exactly that frame and loops it back: the bytes found at its offset are enqueued, with its port,
  in the receive ring (dropped if that is full), and both rings stay consistent.
\<close>

theorem tx_iter_loopback:
  fixes m :: mem and s :: FejkonState
  assumes "ring_ok (tx_buf s)" and "ring_ok (rx_buf s)" and "db_read (tx_buf s) \<noteq> db_write (tx_buf s)"
  defines "md \<equiv> get32 m (db_read (tx_buf s))"
  assumes "unat (tx_length md) \<le> 2148"
  shows "\<exists>s' evs. tx_thread_iter (mem_get m) s = Inr (s', evs)
    \<and> ring_ok (tx_buf s') \<and> ring_ok (rx_buf s') \<and> Suc (pending (tx_buf s')) = pending (tx_buf s)
    \<and> ring_packets (apply_evs m evs) (rx_buf s') =
        fifo_enq (db_slots (rx_buf s) - 1)
          (tx_port md, mem_get m (db_read (tx_buf s) + ucast (tx_offset md)) (unat (tx_length md)))
          (ring_packets m (rx_buf s))"
proof -
  let ?pkt = "mem_get m (db_read (tx_buf s) + ucast (tx_offset md)) (unat (tx_length md))"
  let ?p = "fejkon_rx_pkt s (tx_port md) ?pkt (tx_length md)"
  let ?b = "tx_buf s"
  let ?s' = "(fst ?p)\<lparr>tx_buf := ?b\<lparr>db_read := frame_incr ?b (db_read ?b)\<rparr>\<rparr>"
  have iter: "tx_thread_iter (mem_get m) s = Inr (?s', snd ?p)"
    using assms(3,5) by (simp add: tx_thread_iter_def Let_def word_of_bytes_get32 md_def split_beta rx_pkt_frame)
  have "unat (tx_port md) < 4" by (simp add: tx_fields_md md_port_le)
  with assms(2) have rx: "ring_packets (apply_evs m (snd ?p)) (rx_buf (fst ?p)) =
      fifo_enq (db_slots (rx_buf s) - 1) (tx_port md, ?pkt) (ring_packets m (rx_buf s))"
      "ring_ok (rx_buf (fst ?p))"
    using rx_pkt_bounded_fifo [of s "tx_port md" "tx_length md" ?pkt m] tx_length_le tx_length_mod_4
    by simp_all
  have ok: "db_ok ?b (db_read ?b)" "db_ok ?b (db_write ?b)"
    using assms(1) by (simp_all add: ring_ok_def)
  have "ring_ok (tx_buf ?s')" using ok dma.ok_adv by (simp add: ring_ok_def)
  moreover have "Suc (pending (tx_buf ?s')) = pending ?b"
    using dma.used_deq [OF ok assms(3)] by (simp add: pending_def)
  moreover have "rx_buf ?s' = rx_buf (fst ?p)" by simp
  ultimately show ?thesis
    using iter rx by (intro exI [of _ ?s'] exI [of _ "snd ?p"] conjI) simp_all
qed

text \<open>A card with two-slot rings, a frame of \<open>n\<close> words for port 1 pending, and its memory.\<close>

definition demo_card :: FejkonState where
  "demo_card = zeroed_card\<lparr>
     rx_buf := \<lparr>db_start = 0x100000, db_end = 0x102000, db_write = 0x100000, db_read = 0x100000\<rparr>,
     tx_buf := \<lparr>db_start = 0x200000, db_end = 0x202000, db_write = 0x201000, db_read = 0x200000\<rparr>\<rparr>"

definition demo_tx_mem :: "u32 \<Rightarrow> mem" where
  "demo_tx_mem n = mem_put (\<lambda>_. 0x42) 0x200000 (le32 (rx_metadata 1 n))"

lemma demo_tx_md: "get32 (demo_tx_mem n) 0x200000 = rx_metadata 1 n"
  by (simp add: demo_tx_mem_def get32_put_le32)

theorem tx_iter_loopback_witness:
  "\<exists>s' evs. tx_thread_iter (mem_get (demo_tx_mem 8)) demo_card = Inr (s', evs)
    \<and> ring_packets (apply_evs (demo_tx_mem 8) evs) (rx_buf s') = [(1, replicate 8 0x42)]"
proof -
  have ok: "ring_ok (tx_buf demo_card)" "ring_ok (rx_buf demo_card)"
    "db_read (tx_buf demo_card) \<noteq> db_write (tx_buf demo_card)"
    by (simp_all add: demo_card_def ring_ok_def db_ok_def slot_ok_def)
  have rd: "db_read (tx_buf demo_card) = 0x200000" by (simp add: demo_card_def)
  have md: "tx_port (rx_metadata 1 8) = 1" "unat (tx_length (rx_metadata 1 8)) = 8" "tx_offset (rx_metadata 1 8) = 4"
    using rx_metadata_fields [of 1 8] unat_quads_4 [of "rx_metadata 1 8"] by (simp_all add: tx_fields_md)
  have rx: "ring_packets M (rx_buf demo_card) = []" "db_slots (rx_buf demo_card) = 2" for M
    by (simp_all add: demo_card_def ring_packets_def ring_used_def ring_defs)
  have "mem_get (demo_tx_mem 8) 0x200004 8 = replicate 8 0x42"
  proof (rule nth_equalityI)
    fix i assume "i < length (mem_get (demo_tx_mem 8) 0x200004 8)"
    then have "i < 8" by simp
    then have "unat (0x200004 + of_nat i - 0x200000 :: u64) = 4 + i"
      by (simp add: unat_word_ariths unat_of_nat_small)
    then show "mem_get (demo_tx_mem 8) 0x200004 8 ! i = replicate 8 0x42 ! i"
      using \<open>i < 8\<close> by (simp add: demo_tx_mem_def mem_put_out)
  qed simp
  then show ?thesis
    using tx_iter_loopback [of demo_card "demo_tx_mem 8", OF ok] unfolding rd demo_tx_md md rx
    by (auto simp: fifo_enq_def)
qed

section \<open>Programming the rings\<close>

lemma cast32_small: "unat v < 2 ^ 32 \<Longrightarrow> cast32 v = v"
proof -
  assume "unat v < 2 ^ 32"
  then have "unat (ucast v :: u32) = unat v" by (intro unat_ucast_small) simp
  then show ?thesis unfolding cast32_def by (simp add: word_unat_eq_iff)
qed

text \<open>\<open>guest_writes\<close>: a list of 32-bit writes to BAR 0.\<close>

definition guest_writes :: "bool \<Rightarrow> (u64 \<times> u64) list \<Rightarrow> FejkonState \<Rightarrow> FejkonState" where
  "guest_writes msi ws s = foldl (\<lambda>s (a, v). fst (fejkon_bar0_write msi s a v 4)) s ws"

lemma db_ok_start: "0 < n \<Longrightarrow> unat (db_start b) + 4096 * n < 2 ^ 32 \<Longrightarrow>
    unat (db_end b) = unat (db_start b) + 4096 * n \<Longrightarrow> db_ok b (db_start b)"
  by (auto simp: db_ok_iff)

text \<open>
  The sequence of register writes with which the driver sets up its buffers gives, for any start
  addresses and ring sizes below 4 GiB, two well-formed rings with that many slots, both empty, with
  the receive interrupt armed. Writing 0 to the start register afterwards makes the receive thread
  idle again.
\<close>

lemma programmed_rings:
  fixes rx tx :: u64 and s :: FejkonState and msi :: bool
  assumes "0 < n" and "unat rx + 4096 * n < 2 ^ 32" and "unat tx + 4096 * n < 2 ^ 32"
  defines "s' \<equiv> guest_writes msi [(0x8A0, rx), (0x8A4, rx + 4096 * of_nat n), (0x8C0, tx),
      (0x8C4, tx + 4096 * of_nat n), (0x8A8, rx)] s"
  shows "ring_ok (rx_buf s') \<and> ring_ok (tx_buf s') \<and> db_slots (rx_buf s') = n \<and> db_slots (tx_buf s') = n
    \<and> pending (rx_buf s') = 0 \<and> pending (tx_buf s') = 0 \<and> rx_buf_irq_enabled s'
    \<and> rx_thread_iter (guest_writes msi [(0x8A0, 0)] s') = (guest_writes msi [(0x8A0, 0)] s', [])"
proof -
  have u: "unat (a + 4096 * of_nat n :: u64) = unat a + 4096 * n" if "unat a + 4096 * n < 2 ^ 32" for a :: u64
  proof -
    have "unat (4096 * of_nat n :: u64) = 4096 * n"
      using that by (simp add: unat_word_ariths unat_of_nat_small)
    then show ?thesis using that by (subst unat_add_no_wrap) simp_all
  qed
  have cast: "cast32 a = a" "cast32 (a + 4096 * of_nat n) = a + 4096 * of_nat n"
    if "unat a + 4096 * n < 2 ^ 32" for a :: u64
    using that u [OF that] by (simp_all add: cast32_small)
  have s': "rx_buf s' = \<lparr>db_start = rx, db_end = rx + 4096 * of_nat n, db_write = rx, db_read = rx\<rparr>"
    "tx_buf s' = \<lparr>db_start = tx, db_end = tx + 4096 * of_nat n, db_write = tx, db_read = tx\<rparr>"
    "rx_buf_irq_enabled s'"
    by (simp_all add: s'_def guest_writes_def fejkon_bar0_write_def cast [OF assms(2)] cast [OF assms(3)])
  have "ring_ok (rx_buf s')" "ring_ok (tx_buf s')"
    using assms(1-3) u by (auto simp: s' ring_ok_def db_ok_iff)
  moreover have "4096 * db_slots (rx_buf s') = 4096 * n" "4096 * db_slots (tx_buf s') = 4096 * n"
    using db_ok_pos(2) [of "rx_buf s'" rx] db_ok_pos(2) [of "tx_buf s'" tx] calculation u assms(2,3)
    by (simp_all add: s' ring_ok_def)
  moreover have "pending (rx_buf s') = 0" "pending (tx_buf s') = 0"
    by (simp_all add: s' pending_def ring_used_def)
  moreover have "rx_thread_iter (guest_writes msi [(0x8A0, 0)] s') = (guest_writes msi [(0x8A0, 0)] s', [])"
    by (simp add: guest_writes_def fejkon_bar0_write_def rx_thread_iter_def)
  ultimately show ?thesis using s'(3) by simp
qed

end
