(* ===== verification/System.thy ===== *)
theory System
  imports DrvLife DrvRx I2cSystem QemuThreads
begin

text \<open>
  The driver (\<open>src/driver/src\<close>) on the emulated card (\<open>src/driver/qemu-device\<close>): the driver's
  register accesses go to BAR 0 of the card model. Link state, the I2C windows, probing, the rings
  after \<open>setup_buffers\<close>, and how each side reads the frames of the other. The whole path of a packet
  is in \<open>PacketPath\<close>.
\<close>

section \<open>The card as a device\<close>

text \<open>The device state carries the events of the card, oldest first. \<open>rand\<close> is what the sensor's
  \<open>rand()\<close> returns; message-signalled interrupts are enabled.\<close>

record card_dev =
  fcard :: FejkonState
  events :: "card_ev list"

definition card_read :: "u32 \<Rightarrow> card_dev \<Rightarrow> u32 \<Rightarrow> u32 \<times> card_dev" where
  "card_read rand d a =
    (let (v, s, evs) = fejkon_bar0_read True rand (fcard d) (ucast a) 4
     in (ucast v, d\<lparr>fcard := s, events := events d @ evs\<rparr>))"

definition card_write :: "card_dev \<Rightarrow> u32 \<Rightarrow> u32 \<Rightarrow> card_dev" where
  "card_write d a v =
    (let (s, evs) = fejkon_bar0_write True (fcard d) (ucast a) (ucast v) 4
     in d\<lparr>fcard := s, events := events d @ evs\<rparr>)"

definition card_mmio :: "u32 \<Rightarrow> card_dev mmio" where
  "card_mmio rand = \<lparr>ioread = card_read rand, iowrite = card_write\<rparr>"

lemma card_mmio_sel [simp]: "ioread (card_mmio r) = card_read r" "iowrite (card_mmio r) = card_write"
  by (simp_all add: card_mmio_def)

lemma card_read_simps [simp]:
  "card_read r d 0x0 = (0x22010de5, d)" "card_read r d 0x4 = (0xdeadbeef, d)" "card_read r d 0x20 = (106249998, d)"
  "card_read r d 0x100 = (if sfp1_tx_enabled (fcard d) then 1 else 0xb, d)"
  "card_read r d 0x200 = (if sfp2_tx_enabled (fcard d) then 1 else 0xb, d)"
  "card_read r d 0x9000 = (if sfp1_tx_enabled (fcard d) then 0 else 7, d)"
  "card_read r d 0xB000 = (if sfp2_tx_enabled (fcard d) then 1 else 7, d)"
  "card_read r d 0x8AC = (ucast (db_write (rx_buf (fcard d))), d)"
  "card_read r d 0x8CC = (ucast (db_read (tx_buf (fcard d))), d)"
  by (simp_all add: card_read_def fejkon_bar0_read_def)

section \<open>Link state\<close>

lemma card_write_status [simp]:
  "card_write d 0x100 v = d\<lparr>fcard := (fcard d)\<lparr>sfp1_tx_enabled := (ucast v AND (0x8 :: u64) = 0)\<rparr>\<rparr>"
  "card_write d 0x200 v = d\<lparr>fcard := (fcard d)\<lparr>sfp2_tx_enabled := (ucast v AND (0x8 :: u64) = 0)\<rparr>\<rparr>"
  by (simp_all add: card_write_def fejkon_bar0_write_def)

text \<open>
  C13. Bringing an interface up and down on the emulated card, from any state: after \<open>net_open\<close> the
  next run of the poller finds a carrier on both ports, active on port 0 and dormant on port 1;
  after \<open>net_stop\<close> it finds no carrier.
\<close>

theorem link_follows_open_and_stop:
  assumes "port_id p = of_nat i" and "i < 2"
  shows "\<exists>p1 s1 p2 s2 s3 p4 s4 e2 e4. net_open (card_mmio r) t p s = (0, p1, s1)
    \<and> port_refresh_status (card_mmio r) t' dt p1 s1 = (e2, p2, s2)
    \<and> carrier (net p2) \<and> dormant (net p2) = (i = 1)
    \<and> net_stop (card_mmio r) p2 s2 = (0, s3)
    \<and> port_refresh_status (card_mmio r) t'' dt p2 s3 = (e4, p4, s4)
    \<and> \<not> carrier (net p4) \<and> \<not> dormant (net p4)"
proof -
  have "i = 0 \<or> i = 1" using assms(2) by linarith
  then show ?thesis
    using assms(1)
    by (elim disjE) (simp_all add: net_open_def net_stop_def port_refresh_status_def ioread32_def iowrite32_def
        mod_timer_def netif_carrier_off_def netif_carrier_on_def netif_dormant_off_def netif_dormant_on_def
        split_beta Let_def regs)
qed

theorem link_follows_open_and_stop_witness:
  "\<exists>p1 s1 e2 p2 s2. net_open (card_mmio 0) 0 (demo_port 1) \<lparr>the_card = the_card (demo_drv 0 0),
      dev = \<lparr>fcard = zeroed_card, events = []\<rparr>, ram = (\<lambda>_. 0), napi_scheduled = False, delivered = []\<rparr> = (0, p1, s1)
    \<and> port_refresh_status (card_mmio 0) 1 25 p1 s1 = (e2, p2, s2) \<and> dormant (net p2)"
  using link_follows_open_and_stop [of "demo_port 1" 1 0 0 "\<lparr>the_card = the_card (demo_drv 0 0),
      dev = \<lparr>fcard = zeroed_card, events = []\<rparr>, ram = (\<lambda>_. 0), napi_scheduled = False, delivered = []\<rparr>" 1 25 2]
  by (auto simp: demo_port_def)

section \<open>The I2C windows\<close>

text \<open>The core of a port, and the card seen from the I2C driver of that port: an interrupt is pending
  when its vector has been notified.\<close>

definition sfp_core :: "nat \<Rightarrow> FejkonState \<Rightarrow> avalon_i2c" where
  "sfp_core i s = (if i = 0 then sfp1_i2c s else sfp2_i2c s)"

definition core_view :: "nat \<Rightarrow> card_dev \<Rightarrow> i2c_core" where
  "core_view i d = \<lparr>core = sfp_core i (fcard d), irq_pending = MsiNotify (3 + i) \<in> set (events d)\<rparr>"

lemma bind_intr_vectors [simp]:
  "MsiNotify 3 \<in> set (bind_intr (sfp1_i2c_intr True) es) \<longleftrightarrow> CallIntr \<in> set es"
  "MsiNotify 4 \<in> set (bind_intr (sfp2_i2c_intr True) es) \<longleftrightarrow> CallIntr \<in> set es"
  "MsiNotify 4 \<notin> set (bind_intr (sfp1_i2c_intr True) es)" "MsiNotify 3 \<notin> set (bind_intr (sfp2_i2c_intr True) es)"
  by (induction es) (auto simp: bind_intr_def sfp1_i2c_intr_def sfp2_i2c_intr_def split: i2c_ev.splits)

lemma window_address:
  assumes "unat (r :: u32) \<le> 0x28" and "unat (off :: u32) < 2 ^ 31"
  shows "(ucast (off + r) :: u64) = ucast off + ucast r"
proof (rule unsigned_word_eqI)
  have "unat (off + r) = unat off + unat r" using assms by (intro unat_add_no_wrap) simp
  moreover have "unat (ucast off + ucast r :: u64) = unat off + unat r"
    using assms by (subst unat_add_no_wrap) simp_all
  ultimately show "unat (ucast (off + r) :: u64) = unat (ucast off + ucast r :: u64)" by simp
qed

lemma window_range:
  assumes "unat (r :: u32) \<le> 0x28"
  shows "(0x140 :: u64) \<le> 0x140 + ucast r" "(0x140 :: u64) + ucast r \<le> 0x168"
    "(0x240 :: u64) \<le> 0x240 + ucast r" "(0x240 :: u64) + ucast r \<le> 0x268"
    "\<not> (0x240 :: u64) + ucast r \<le> 0x168" "\<not> (0x240 :: u64) \<le> 0x140 + ucast r"
proof -
  have u: "unat (0x140 + ucast r :: u64) = 0x140 + unat r" "unat (0x240 + ucast r :: u64) = 0x240 + unat r"
    using assms by (simp_all add: unat_add_no_wrap)
  show "(0x140 :: u64) \<le> 0x140 + ucast r" "(0x140 :: u64) + ucast r \<le> 0x168"
    "(0x240 :: u64) \<le> 0x240 + ucast r" "(0x240 :: u64) + ucast r \<le> 0x268"
    "\<not> (0x240 :: u64) + ucast r \<le> 0x168" "\<not> (0x240 :: u64) \<le> 0x140 + ucast r"
    using assms unfolding word_le_nat_alt u by simp_all
qed

text \<open>
  C10. The window of a port refines its I2C core: every register access that the I2C driver makes
  through BAR 0 of the card is the access to the core behind the window, with its interrupt on the
  vector of that port, and leaves the other port's core and its interrupt alone.
\<close>

theorem i2c_window_refines:
  assumes "i < 2" and "unat r \<le> 0x28"
  defines "off \<equiv> BAR0_SFP_I2C_OFFSET (of_nat i)"
  shows "core_view i (card_write d (off + r) v) = core_write off (core_view i d) (off + r) v
    \<and> fst (card_read rand d (off + r)) = fst (core_read off (core_view i d) (off + r))
    \<and> core_view i (snd (card_read rand d (off + r))) = snd (core_read off (core_view i d) (off + r))
    \<and> core_view (1 - i) (card_write d (off + r) v) = core_view (1 - i) d
    \<and> core_view (1 - i) (snd (card_read rand d (off + r))) = core_view (1 - i) d"
proof -
  note w = window_range [OF assms(2)]
  have a: "(ucast (0x140 + r) :: u64) = 0x140 + ucast r" "(ucast (0x240 + r) :: u64) = 0x240 + ucast r"
    using window_address [OF assms(2), of "0x140"] window_address [OF assms(2), of "0x240"] by simp_all
  have "i = 0 \<or> i = 1" using assms(1) by linarith
  then consider "i = 0" "off = 0x140" | "i = 1" "off = 0x240" by (auto simp: off_def)
  then show ?thesis
    by cases (simp_all add: core_view_def sfp_core_def card_write_def card_read_def core_write_def core_read_def
        fejkon_bar0_write_def fejkon_bar0_read_def a w split_beta Let_def)
qed

theorem i2c_window_refines_witness:
  "core_view 1 (card_write \<lparr>fcard = zeroed_card, events = []\<rparr> (BAR0_SFP_I2C_OFFSET (of_nat 1) + 8) 1)
    = core_write (BAR0_SFP_I2C_OFFSET (of_nat 1)) (core_view 1 \<lparr>fcard = zeroed_card, events = []\<rparr>)
        (BAR0_SFP_I2C_OFFSET (of_nat 1) + 8) 1"
  using i2c_window_refines [of 1 8 "\<lparr>fcard = zeroed_card, events = []\<rparr>" 1 0] by simp

section \<open>The EEPROM of the emulated module\<close>

text \<open>
  C17. Reading the vendor name: on the I2C core of either port of a realized card, in whatever state
  the address pointer is, writing the offset 20 and reading 11 bytes with \<open>altr_i2c_xfer\<close> returns
  the name that \<open>pci_fejkon_realize\<close> has put there, \<open>FEJKON TEST\<close>.
\<close>

theorem module_name_readable:
  assumes "i2c_host E off" and "i2c_idle off s"
    and "pci_fejkon_realize 0 0 0 zeroed_card = Inr c" and "data (core (hw s)) = data (sfp_core i c)"
  defines "wr \<equiv> \<lparr>m_addr = 0x50, m_rd = False, m_len = 1, m_buf = [20]\<rparr>"
    and "rd \<equiv> \<lparr>m_addr = 0x50, m_rd = True, m_len = 11, m_buf = replicate 11 0\<rparr>"
  shows "\<exists>t. altr_i2c_xfer E [wr, rd] s = Some (Inr (2, [wr, rd\<lparr>m_buf := fejkon_test_name\<rparr>], t))"
proof -
  have "data (core (hw s)) = data (sfp1_i2c c)"
    using assms(3,4) by (auto simp: sfp_core_def pci_fejkon_realize_def Let_def)
  also have "\<dots> = strcpy_at 20 fejkon_test_name ((replicate 256 0)[0 := 0x3, 1 := 0x4])"
    using assms(3) by (auto simp: pci_fejkon_realize_def Let_def zeroed_card_def zeroed_i2c_def)
  finally have dat: "data (core (hw s)) = strcpy_at 20 fejkon_test_name ((replicate 256 0)[0 := 0x3, 1 := 0x4])" .
  have name: "eeprom (core (hw s)) 20 11 = fejkon_test_name"
    unfolding eeprom_def dat by (simp add: strcpy_at_def fejkon_test_name_def upt_rec nth_append)
  have wf: "\<forall>m \<in> set [wr, rd]. wf_msg m" by (simp add: wr_def rd_def wf_msg_def)
  have "fst (eeprom_xfer (core (hw s)) (read_off (core (hw s))) [wr, rd]) = [wr, rd\<lparr>m_buf := fejkon_test_name\<rparr>]"
    using name by (simp add: wr_def rd_def Let_def)
  then show ?thesis
    using i2c_host.xfer_loop_spec [OF assms(1,2) wf] by (auto simp: altr_i2c_xfer_def)
qed

theorem module_name_readable_witness:
  "\<exists>t. altr_i2c_xfer (emulated_host 0x140)
      [\<lparr>m_addr = 0x50, m_rd = False, m_len = 1, m_buf = [20]\<rparr>,
       \<lparr>m_addr = 0x50, m_rd = True, m_len = 11, m_buf = replicate 11 0\<rparr>]
      \<lparr>idev = i2c_dev_new 0x140 3, hw = core_view 0 \<lparr>fcard = card_st started, events = []\<rparr>\<rparr>
    = Some (Inr (2, [\<lparr>m_addr = 0x50, m_rd = False, m_len = 1, m_buf = [20]\<rparr>,
       \<lparr>m_addr = 0x50, m_rd = True, m_len = 11, m_buf = fejkon_test_name\<rparr>], t))"
proof -
  let ?s = "\<lparr>idev = i2c_dev_new 0x140 3, hw = core_view 0 \<lparr>fcard = card_st started, events = []\<rparr>\<rparr>"
  have c: "pci_fejkon_realize 0 0 0 zeroed_card = Inr (card_st started)"
    using card_start_started by (simp add: card_start_def)
  have "i2c_idle 0x140 ?s"
    by (simp add: i2c_idle_def i2c_dev_new_def core_view_def sfp_core_def started_def pci_fejkon_realize_def
        zeroed_card_def zeroed_i2c_def Let_def)
  moreover have "data (core (hw ?s)) = data (sfp_core 0 (card_st started))" by (simp add: core_view_def)
  ultimately show ?thesis
    using module_name_readable [OF emulated.i2c_host_axioms _ c, of "0x140" ?s 0] by simp
qed

section \<open>Buffers on the card\<close>

text \<open>The CPU and bus addresses of the two buffers of 128 slots: inside the address spaces, the bus
  addresses below 4 GiB, and not the last 512 KiB of them.\<close>

definition dma_ok :: "kernel \<Rightarrow> bool" where
  "dma_ok K \<longleftrightarrow> unat (snd (k_dma_rx K)) + 0x80000 < 2 ^ 32 \<and> unat (snd (k_dma_tx K)) + 0x80000 < 2 ^ 32
     \<and> unat (fst (k_dma_rx K)) + 0x80000 < 2 ^ 64 \<and> unat (fst (k_dma_tx K)) + 0x80000 < 2 ^ 64"

lemma card_write_guest:
  assumes "events (card_write d a v) = events d"
  shows "card_write d a v = d\<lparr>fcard := fst (fejkon_bar0_write True (fcard d) (ucast a) (ucast v) 4)\<rparr>"
  using assms by (simp add: card_write_def split_beta Let_def)

lemma card_write_dma:
  assumes "a \<in> {0x8A0, 0x8A4, 0x8A8, 0x8C0, 0x8C4}"
  shows "card_write d a v = d\<lparr>fcard := fst (fejkon_bar0_write True (fcard d) (ucast a) (ucast v) 4)\<rparr>"
  using assms by (intro card_write_guest) (auto simp: card_write_def fejkon_bar0_write_def)

lemma ucast_low: "unat (w :: u64) < 2 ^ 32 \<Longrightarrow> ucast (ucast w :: u32) = w"
  using unat_ucast_small [of w, where ?'b = 32] by (simp add: word_unat_eq_iff)

lemma slot_ok_buffer:
  assumes "unat (st :: u64) + 0x80000 < 2 ^ 64"
  shows "slot_ok st (st + 4096 * 128) st"
proof -
  have "unat (st + 4096 * 128) = unat st + 0x80000" using assms by (subst unat_add_no_wrap) simp_all
  then show ?thesis by (simp add: slot_ok_def)
qed

lemma ptr_from_start:
  assumes "unat dma < 2 ^ 32"
  shows "ptr_from_reg st dma (ucast dma) = st"
  using ucast_low [OF assms] by (simp add: ptr_from_reg_def)

text \<open>The state of driver and card in which both rings are programmed, empty and agreed on.\<close>

definition rings_agree :: "u32 \<Rightarrow> card_dev drv \<Rightarrow> bool" where
  "rings_agree r s \<longleftrightarrow> ring_ok (rx_buf (fcard (dev s))) \<and> ring_ok (tx_buf (fcard (dev s)))
     \<and> db_slots (rx_buf (fcard (dev s))) = 128 \<and> db_slots (tx_buf (fcard (dev s))) = 128
     \<and> pending (rx_buf (fcard (dev s))) = 0 \<and> pending (tx_buf (fcard (dev s))) = 0
     \<and> rx_buf_irq_enabled (fcard (dev s))
     \<and> ring_cursor (rx_range s) (rx_rd s) \<and> ring_cursor (tx_range s) (tx_wr s)
     \<and> poll_wr (card_mmio r) s = rx_rd s
     \<and> ptr_from_reg (tx_buf_start (the_card s)) (tx_buf_start_dma (the_card s)) (fst (ioread32 (card_mmio r) 0x8CC s)) = tx_wr s"

lemma setup_buffers_agree:
  assumes "dma_ok K" and "setup_buffers (card_mmio r) K s = (ret, s')"
  shows "ret = 0 \<and> rings_agree r (drv_of s')"
proof -
  obtain rx rxd where rx: "k_dma_rx K = (rx, rxd)" by (cases "k_dma_rx K")
  obtain tx txd where tx: "k_dma_tx K = (tx, txd)" by (cases "k_dma_tx K")
  have b: "unat rxd + 0x80000 < 2 ^ 32" "unat txd + 0x80000 < 2 ^ 32" "unat rx + 0x80000 < 2 ^ 64" "unat tx + 0x80000 < 2 ^ 64"
    using assms(1) by (simp_all add: dma_ok_def rx tx)
  have e: "unat (rxd + 0x80000) = unat rxd + 0x80000" "unat (txd + 0x80000) = unat txd + 0x80000"
    using b(1,2) by (simp_all add: unat_add_no_wrap)
  have low: "ucast (ucast rxd :: u32) = rxd" "ucast (ucast txd :: u32) = txd"
    "ucast (ucast (rxd + 0x80000) :: u32) = rxd + 0x80000" "ucast (ucast (txd + 0x80000) :: u32) = txd + 0x80000"
    using b(1,2) e by (simp_all add: ucast_low)
  let ?g = "guest_writes True [(0x8A0, rxd), (0x8A4, rxd + 0x80000), (0x8C0, txd), (0x8C4, txd + 0x80000), (0x8A8, rxd)]
    (fcard (dev (drv_of s)))"
  have "\<not> push_bit 32 1 \<le> rxd" "\<not> push_bit 32 1 \<le> txd" using b by (simp_all add: word_le_nat_alt)
  then have ret: "ret = 0" and card: "fcard (dev (drv_of s')) = ?g"
    and ptrs: "rx_range (drv_of s') = (rx, rx + 4096 * 128)" "rx_rd (drv_of s') = rx"
      "tx_range (drv_of s') = (tx, tx + 4096 * 128)" "tx_wr (drv_of s') = tx"
      "rx_buf_start_dma (the_card (drv_of s')) = rxd" "tx_buf_start_dma (the_card (drv_of s')) = txd"
    using assms(2)
    by (auto simp: setup_buffers_def Let_def rx tx wr32_def upd_card_def iowrite32_def card_write_dma low guest_writes_def)
  have rings: "ring_ok (rx_buf ?g) \<and> ring_ok (tx_buf ?g) \<and> db_slots (rx_buf ?g) = 128 \<and> db_slots (tx_buf ?g) = 128
      \<and> pending (rx_buf ?g) = 0 \<and> pending (tx_buf ?g) = 0 \<and> rx_buf_irq_enabled ?g"
    using programmed_rings [of 128 rxd txd True "fcard (dev (drv_of s))"] b by simp
  have "db_write (rx_buf ?g) = rxd" "db_read (tx_buf ?g) = txd"
    using b(1,2) by (simp_all add: guest_writes_def fejkon_bar0_write_def cast32_small)
  then have "poll_wr (card_mmio r) (drv_of s') = rx"
      "ptr_from_reg tx txd (fst (ioread32 (card_mmio r) 0x8CC (drv_of s'))) = tx"
    using b card ptrs ptr_from_start [of rxd rx] ptr_from_start [of txd tx]
    by (simp_all add: poll_wr_def ioread32_def split_beta)
  then show ?thesis
    using ret rings card ptrs slot_ok_buffer [OF b(3)] slot_ok_buffer [OF b(4)] by (simp add: rings_agree_def)
qed

text \<open>
  C8. \<open>setup_buffers\<close> on the emulated card, from any state and for buffers anywhere below the last
  512 KiB of the 32-bit bus space: it succeeds, and driver and card agree on two empty rings of 128
  slots, with the receive interrupt armed.
\<close>

theorem setup_buffers_on_card:
  assumes "dma_ok K"
  shows "\<exists>s'. setup_buffers (card_mmio r) K s = (0, s') \<and> rings_agree r (drv_of s')"
  using setup_buffers_agree [OF assms, of r s] by (metis surj_pair)

section \<open>Probing the card\<close>

lemma rd32_card: "a \<in> {0x0, 0x4, 0x20} \<Longrightarrow> rd32 (card_mmio r) a s = (fst (card_read r (dev (drv_of s)) a), s)"
  by (auto simp: rd32_def ioread32_def)

lemma stress_card: "stress (card_mmio r) n s = (True, s)"
  by (induction n arbitrary: s) (simp_all add: rd32_card)

text \<open>All calls of the kernel succeed.\<close>

definition kernel_ok :: "kernel \<Rightarrow> bool" where
  "kernel_ok K \<longleftrightarrow> k_devm_kzalloc K \<and> 0 \<le> k_pci_enable_device K \<and> 0 \<le> k_pci_enable_pcie_error_reporting K
     \<and> 0 \<le> k_pci_request_region K \<and> 0 \<le> k_pci_set_dma_mask K \<and> 0 \<le> k_pci_set_consistent_dma_mask K
     \<and> (\<forall>n. 0 \<le> k_pci_alloc_irq_vectors K n) \<and> (\<forall>v. 0 \<le> k_request_irq K v) \<and> k_hwmon_register K = 0
     \<and> k_device_create_file K = 0 \<and> (\<forall>i. port_calls_ok K i)"

lemma probe_on_card:
  assumes "kernel_ok K" and "dma_ok K" and "fresh_ports s" and "held s = {#}"
  shows "\<exists>s'. probe (card_mmio r) K bw s = Inr (0, s') \<and> card_bound 2 s' \<and> rings_agree r (drv_of s')"
proof -
  let ?b = "card_mmio r"
  let ?s3 = "acquire Region (acquire Aer (acquire PciEnabled (acquire CardMem s)))"
  let ?w = "(wr32 ?b 0 0x8A8 (wr32 ?b 0 0x8C0 (wr32 ?b 0 0x8A0 ?s3)))\<lparr>bus_master := True, vectors := irq_count 2\<rparr>"
  let ?i = "(acquire (Irq 2) (acquire (Irq 1) (acquire SysfsFile (acquire Hwmon (acquire (Irq 0) (acquire IrqVectors ?w))))))
    \<lparr>drvdata := True\<rparr>"
  have K: "k_devm_kzalloc K" "\<not> k_pci_enable_device K < 0" "\<not> k_pci_enable_pcie_error_reporting K < 0"
    "\<not> k_pci_request_region K < 0" "\<not> k_pci_set_dma_mask K < 0" "\<not> k_pci_set_consistent_dma_mask K < 0"
    "k_hwmon_register K = 0" "k_device_create_file K = 0"
    and irqs: "\<not> k_pci_alloc_irq_vectors K n < 0" "\<not> k_request_irq K v < 0" for n v
    using assms(1) by (simp_all add: kernel_ok_def not_less)
  have ports: "drop_bit 24 (0x22010de5 :: u32) AND 0x0f = 2" by simp
  have tune: "fst (tune_pcie_parameters bw 2) = 0" by (simp add: tune_pcie_parameters_def split_beta Let_def)
  have "probe ?b K bw s = probe_card ?b K bw ?s3"
    using K by (simp add: probe_def Let_def)
  also have "\<dots> = probe_irqs ?b K 2 ((wr32 ?b 0 0x8A8 (wr32 ?b 0 0x8C0 (wr32 ?b 0 0x8A0 ?s3)))\<lparr>bus_master := True\<rparr>)"
    using tune by (simp add: probe_card_def Let_def rd32_card stress_card MAX_PORTS_def)
  also have "\<dots> = probe_net ?b K 2 ?i"
    using K irqs by (simp add: probe_irqs_def Let_def)
  finally have eq: "probe ?b K bw s = probe_net ?b K 2 ?i" .
  have "\<forall>j < 4. port_calls_ok K j" using assms(1) by (simp add: kernel_ok_def)
  moreover have "fresh_ports ?i" using assms(3) by (simp add: fresh_ports_def)
  moreover have "held ?i = card_back + {#CardMem, Aer, Hwmon#}" using assms(4) by (simp add: card_back_def add_mset_commute)
  moreover have "vectors ?i = 2 + 4 * 2" by (simp add: irq_count_def)
  ultimately obtain ret s' t where net: "probe_net ?b K 2 ?i = Inr (ret, s')" "ret = 0 \<longrightarrow> setup_buffers ?b K t = (0, s')"
    "0 \<le> ret \<or> fst (setup_buffers ?b K t) \<noteq> 0"
    "ret = 0 \<and> card_bound 2 s' \<or> ret < 0 \<and> held s' = {#CardMem, Aer, Hwmon, DmaRx, DmaTx#} + netdevs 2"
    using probe_net_result [of K 2 ?i ?b] by auto
  have "fst (setup_buffers ?b K t) = 0" using setup_buffers_agree [OF assms(2), of r t] by (metis surj_pair fst_conv)
  then have "ret = 0" "card_bound 2 s'" "setup_buffers ?b K t = (0, s')" using net by auto
  moreover from this have "rings_agree r (drv_of s')" using setup_buffers_agree [OF assms(2), of r t 0 s'] by simp
  ultimately show ?thesis using eq net(1) by simp
qed

text \<open>
  C5. When the kernel's calls succeed and both DMA buffers lie inside the CPU's address space and,
  on the bus, below the last 512 KiB of the 32-bit address space (\<open>dma_ok\<close>; see C34 for the others),
  \<open>probe\<close> accepts the emulated card in any state: it returns 0 with exactly the card's resources and
  those of two ports held, and with rings on which driver and card agree.
\<close>

theorem probe_emulated_card:
  assumes "kernel_ok K" and "dma_ok K" and "fresh_ports s" and "held s = {#}"
  shows "\<exists>s'. probe (card_mmio r) K bw s = Inr (0, s') \<and> card_bound 2 s' \<and> rings_agree r (drv_of s')"
  by (rule probe_on_card [OF assms])

text \<open>A kernel and a driver that has not been probed yet, on the realized card.\<close>

definition fresh_life :: "card_dev life" where
  "fresh_life = \<lparr>drv_of = \<lparr>the_card = the_card (demo_drv 0 0), dev = \<lparr>fcard = card_st started, events = []\<rparr>,
     ram = (\<lambda>_. 0), napi_scheduled = False, delivered = []\<rparr>,
     i2cs = [None, None, None, None], held = {#}, vectors = 0, bus_master = False, drvdata = False\<rparr>"

lemma demo_dma_ok: "dma_ok demo_kernel"
  by (simp add: dma_ok_def demo_kernel_def)

lemma fresh_life_fresh: "fresh_ports fresh_life" "held fresh_life = {#}"
  by (simp_all add: fresh_ports_def fresh_life_def demo_drv_def)

theorem setup_buffers_on_card_witness:
  "\<exists>s'. setup_buffers (card_mmio 0) demo_kernel fresh_life = (0, s') \<and> rings_agree 0 (drv_of s')"
  using setup_buffers_on_card [OF demo_dma_ok] by blast

lemma demo_kernel_ok: "kernel_ok demo_kernel"
  using demo_calls by (simp add: kernel_ok_def demo_kernel_def)

theorem probe_emulated_card_witness:
  "\<exists>s'. probe (card_mmio 0) demo_kernel (63015, True, True, True) fresh_life = Inr (0, s') \<and> card_bound 2 s'"
  using probe_emulated_card [OF demo_kernel_ok demo_dma_ok fresh_life_fresh] by blast

text \<open>The card has two ports: ten vectors are allocated, of which the last five are not used.\<close>

theorem irq_vectors_used_witness:
  "\<exists>s'. probe (card_mmio 0) demo_kernel (63015, True, True, True) fresh_life = Inr (0, s')
    \<and> vectors s' = 10 \<and> Irq 4 \<in># held s' \<and> Irq 5 \<notin># held s'"
proof -
  obtain s' where s': "probe (card_mmio 0) demo_kernel (63015, True, True, True) fresh_life = Inr (0, s')"
    "card_bound 2 s'"
    using probe_on_card [OF demo_kernel_ok demo_dma_ok fresh_life_fresh] by blast
  have "\<forall>j < 4. port_calls_ok demo_kernel j" using demo_calls by blast
  from irq_vectors_used [OF this fresh_life_fresh s'(1)]
  obtain n where n: "vectors s' = 2 + 4 * n" "\<forall>v. count (held s') (Irq v) = (if v < 3 + n then 1 else 0)" by blast
  have "vectors s' = 10" using s'(2) by (simp add: card_bound_def)
  moreover from this have "n = 2" using n(1) by simp
  then have "count (held s') (Irq 4) = 1" "count (held s') (Irq 5) = 0" using n(2) by simp_all
  then have "Irq 4 \<in># held s'" "Irq 5 \<notin># held s'" by (metis count_eq_zero_iff zero_neq_one, simp add: count_eq_zero_iff)
  ultimately show ?thesis using s'(1) by blast
qed

section \<open>Frames of the other side\<close>

lemma mem_get_append: "mem_get m a (i + j) = mem_get m a i @ mem_get m (a + of_nat i) j"
  by (rule nth_equalityI) (simp_all add: nth_append add.assoc)

text \<open>A packet that the card has written (data at offset 4), read as the driver reads it (data at
  offset 16), and a packet that the driver has written, read at offset 4 as the card reads it.\<close>

lemma put_packet_at_16:
  assumes "12 \<le> length bs" and "length bs \<le> 4080"
  shows "mem_get (put_packet m q md bs) (q + 16) (length bs) = drop 12 bs @ mem_get m (q + 4 + of_nat (length bs)) 12"
proof -
  let ?n = "length bs" and ?M = "mem_put m q (le32 md)"
  have "mem_get (mem_put ?M (q + 4) bs) (q + 4) ?n = bs" using assms by (intro mem_get_put_same) simp
  then have "mem_get (mem_put ?M (q + 4) bs) (q + 4 + of_nat 12) (?n - 12) = drop 12 bs"
    by (metis drop_mem_get)
  then have 1: "mem_get (mem_put ?M (q + 4) bs) (q + 16) (?n - 12) = drop 12 bs" by (simp add: add.assoc)
  have u: "unat (of_nat ?n :: u64) = ?n" "unat (4 + of_nat ?n :: u64) = 4 + ?n"
    using assms(2) by (simp_all add: unat_of_nat_small unat_add_no_wrap)
  have "mem_get (mem_put ?M (q + 4) bs) (q + 4 + of_nat ?n) 12 = mem_get ?M (q + 4 + of_nat ?n) 12"
    using assms(2) u(1) by (intro mem_get_put_after) simp_all
  also have "\<dots> = mem_get m (q + 4 + of_nat ?n) 12"
    using assms(2) u(2) by (intro mem_get_put_after) (simp_all add: add.assoc)
  finally have 2: "mem_get (mem_put ?M (q + 4) bs) (q + 4 + of_nat ?n) 12 = mem_get m (q + 4 + of_nat ?n) 12" .
  have 3: "q + 16 + of_nat (?n - 12) = q + 4 + of_nat ?n" using assms(1) by (simp add: of_nat_diff)
  have "mem_get (mem_put ?M (q + 4) bs) (q + 16) ((?n - 12) + 12) = drop 12 bs @ mem_get m (q + 4 + of_nat ?n) 12"
    unfolding mem_get_append 1 3 2 by (rule refl)
  then show ?thesis using assms(1) by (simp add: put_frame_def)
qed

lemma put_frame_at_4:
  assumes "slot_ok st en q" and "12 \<le> length bs" and "length bs \<le> 4080"
  shows "mem_get (put_frame m q md 16 bs) (q + 4) (length bs) = mem_get m (q + 4) 12 @ take (length bs - 12) bs"
proof -
  let ?n = "length bs" and ?M = "mem_put m q (le32 md)"
  have u: "unat (q + 16) = unat q + 16" "unat (q + 4) = unat q + 4"
    using unat_slot_plus [OF assms(1), of 16] unat_slot_plus [OF assms(1), of 4] by simp_all
  have "mem_get (mem_put ?M (q + 16) bs) (q + 4) 12 = mem_get ?M (q + 4) 12"
    using u assms(3) slot_end [OF slot_room [OF assms(1)]] by (intro mem_get_put_disjoint) simp_all
  also have "\<dots> = mem_get m (q + 4) 12" by (intro mem_get_put_after) simp_all
  finally have 1: "mem_get (mem_put ?M (q + 16) bs) (q + 4) 12 = mem_get m (q + 4) 12" .
  have 2: "mem_get (mem_put ?M (q + 16) bs) (q + 16) (?n - 12) = take (?n - 12) bs"
    using assms(3) by (intro mem_get_put_prefix) simp_all
  show ?thesis
    using mem_get_append [of "mem_put ?M (q + 16) bs" "q + 4" 12 "?n - 12"] 1 2 assms(2)
    by (simp add: put_frame_def add.assoc)
qed

text \<open>
  C29. A frame that the driver puts into a slot, when the card's read pointer reaches it, makes the
  transmit thread write past its packet buffer of 2148 bytes on the stack exactly when the frame is
  longer than the buffer. The driver accepts frames of up to 4080 bytes.
\<close>

theorem tx_thread_overflow_iff_long:
  assumes "db_read (tx_buf c) \<noteq> db_write (tx_buf c)" and "unat pid < 4"
    and "unat len mod 4 = 0" and "unat len \<le> 4080" and "length bs = unat len"
  shows "tx_thread_iter (mem_get (put_frame m (db_read (tx_buf c)) (tx_ctrl1 pid len 4) 16 bs)) c = Inl OutOfBounds
    \<longleftrightarrow> 2148 < unat len"
proof -
  let ?q = "db_read (tx_buf c)" and ?md = "tx_ctrl1 pid len 4"
  have q: "md_quads ?md = len div 4"
    using assms(2,4) unfolding tx_ctrl1_md by (simp add: md_fields_small del: md_fields)
  have len: "unat (tx_length ?md) = unat len"
    using q assms(3) unat_quads_4 [of ?md] by (simp add: tx_fields_md) presburger
  have "mem_get (put_frame m ?q ?md 16 bs) ?q 4 = mem_get (mem_put m ?q (le32 ?md)) ?q 4"
    unfolding put_frame_def using assms(4,5) by (intro mem_get_put_after) simp_all
  then have "get32 (put_frame m ?q ?md 16 bs) ?q = ?md" using get32_mem_get get32_put_le32 by metis
  then show ?thesis
    using assms(1) len by (simp add: tx_thread_iter_def Let_def word_of_bytes_get32 split_beta)
qed

theorem tx_thread_overflow_iff_long_witness:
  "tx_thread_iter (mem_get (put_frame (\<lambda>_. 0) 0x200000 (tx_ctrl1 1 2152 4) 16 (replicate 2152 0x42))) demo_card
    = Inl OutOfBounds"
proof -
  have rd: "db_read (tx_buf demo_card) = 0x200000" "db_write (tx_buf demo_card) = 0x201000"
    by (simp_all add: demo_card_def)
  have "db_read (tx_buf demo_card) \<noteq> db_write (tx_buf demo_card)" by (simp add: rd)
  from tx_thread_overflow_iff_long [OF this, of 1 2152 "replicate 2152 0x42" "\<lambda>_. 0"]
  show ?thesis by (simp add: rd)
qed

section \<open>The transmit read pointer\<close>

text \<open>The value that the driver computes from a register that reads as 0 is not one slot behind any
  slot of the buffer: relative to the start of the buffer it is the negated bus address as an \<open>int\<close>.\<close>

lemma ptr_from_zero_outside:
  assumes "slot_ok st en p" and "unat dma + (unat en - unat st) < 2 ^ 32"
  shows "p + 4096 \<noteq> ptr_from_reg st dma 0"
proof
  assume eq: "p + 4096 = ptr_from_reg st dma 0"
  let ?x = "ucast (- dma) :: u32"
  have "unat (p + 4096) = unat p + 4096" and p: "unat st \<le> unat p" "unat p + 4096 \<le> unat en"
    using slot_room [OF assms(1)] slot_end [OF slot_room [OF assms(1)]] assms(1)
    by (simp_all add: unat_add_no_wrap slot_ok_def)
  then have "unat (p + 4096 - st) = unat p + 4096 - unat st" by (simp add: unat_sub_no_wrap)
  moreover have "p + 4096 - st = scast ?x" unfolding eq by (simp add: ptr_from_reg_def)
  ultimately have diff: "unat (scast ?x :: u64) = unat p + 4096 - unat st" by metis
  show False
  proof (cases "dma = 0")
    case True
    then show ?thesis using diff p by simp
  next
    case False
    then have pos: "0 < unat dma" by (simp add: word_neq_0_conv [symmetric] unat_gt_0)
    have "unat (- dma) = 2 ^ 64 - unat dma" using pos unat_sub_if_size [of 0 dma] by (simp add: word_size)
    then have x: "unat ?x = 2 ^ 32 - unat dma"
    proof -
      have "unat (- dma) = (2 ^ 32 - unat dma) + (2 ^ 32 - 1) * 2 ^ 32"
        using \<open>unat (- dma) = _\<close> assms(2) by simp
      then have "unat (- dma) mod 2 ^ 32 = (2 ^ 32 - unat dma) mod 2 ^ 32" by (metis mod_mult_self1)
      also have "\<dots> = 2 ^ 32 - unat dma" using pos by (intro mod_less) simp
      finally show ?thesis by (simp add: unsigned_ucast_eq take_bit_eq_mod)
    qed
    show ?thesis
    proof (cases "unat ?x < 2 ^ 31")
      case True
      then have "unat (scast ?x :: u64) = 2 ^ 32 - unat dma" using scast_small x by metis
      then show ?thesis using diff p assms(2) by linarith
    next
      case False
      then have "(scast ?x :: u64) = word_of_int (int (unat ?x) - 2 ^ 32)" using sint_u32 [of ?x] by (simp add: scast_eq)
      also have "int (unat ?x) - 2 ^ 32 = - int (unat dma)" using x assms(2) by (simp add: of_nat_diff)
      also have "word_of_int (- int (unat dma)) = - dma" by simp
      finally have "unat (scast ?x :: u64) = 2 ^ 64 - unat dma" using \<open>unat (- dma) = _\<close> by simp
      then show ?thesis using diff p assms(2) unsigned_less [of en, where ?'a = nat] by simp
    qed
  qed
qed

text \<open>
  C19. The driver refreshes its copy of the card's transmit read pointer from 0x8C8, but the emulated
  card answers at 0x8CC; 0x8C8 is an unknown register that reads as 0. For a transmit buffer that ends
  below 4 GiB on the bus: the first time the ring looks full, the copy becomes an address that is not
  one slot ahead of any slot of the buffer, so the packet is accepted and from then on the ring is
  never found full.
\<close>

theorem tx_full_never_again_on_card:
  assumes "tx_wr s + 4096 = tx_buf_read_cached (the_card s)" and "ring_cursor (tx_range s) (tx_wr s)"
    and "unat (tx_buf_start_dma (the_card s)) + (unat (tx_buf_end (the_card s)) - unat (tx_buf_start (the_card s))) < 2 ^ 32"
  shows "\<exists>s'. tx_full (card_mmio r) s = (False, s') \<and> events (dev s') = events (dev s) @ [LogRdAddr 0x8C8]
    \<and> tx_range s' = tx_range s
    \<and> (\<forall>p. ring_cursor (tx_range s') p \<longrightarrow> p + 4096 \<noteq> tx_buf_read_cached (the_card s'))"
proof -
  have rd: "card_read r (dev s) 0x8C8 = (0, (dev s)\<lparr>events := events (dev s) @ [LogRdAddr 0x8C8]\<rparr>)"
    by (simp add: card_read_def fejkon_bar0_read_def)
  have ne: "p + 4096 \<noteq> ptr_from_reg (tx_buf_start (the_card s)) (tx_buf_start_dma (the_card s)) 0"
    if "ring_cursor (tx_range s) p" for p
    using ptr_from_zero_outside [OF that] assms(3) by simp
  then show ?thesis
    using assms(1) rd ne ne [OF assms(2)] by (simp add: tx_full_def ioread32_def Let_def)
qed

theorem tx_full_never_again_on_card_witness:
  "\<exists>s'. tx_full (card_mmio 0) \<lparr>the_card = the_card (demo_drv 0x1000 0x2000), dev = \<lparr>fcard = zeroed_card, events = []\<rparr>,
      ram = (\<lambda>_. 0), napi_scheduled = False, delivered = []\<rparr> = (False, s') \<and> events (dev s') = [LogRdAddr 0x8C8]"
  using tx_full_never_again_on_card [of "\<lparr>the_card = the_card (demo_drv 0x1000 0x2000), dev = \<lparr>fcard = zeroed_card, events = []\<rparr>,
      ram = (\<lambda>_. 0), napi_scheduled = False, delivered = []\<rparr>" 0]
  by (auto simp: slot_ok_def)

end
