(* ===== verification/PacketPath.thy ===== *)
theory PacketPath
  imports System
begin

text \<open>
  The path of a packet through the driver and the emulated card, with the host between them: the
  bus addresses of the DMA buffers are translated to CPU addresses, the card's DMA writes reach the
  host's memory, its interrupts reach the driver's handlers. \<open>net_tx\<close>, the iterations of the card's
  threads and \<open>poll\<close> are composed, and what arrives is computed from what was sent.
\<close>

section \<open>The host between driver and card\<close>

text \<open>\<open>T\<close> translates bus addresses to CPU addresses. What \<open>dma_alloc_coherent\<close> promises of a buffer
  \<open>r\<close> with bus address \<open>d\<close>: the buffer is contiguous on the bus. The buffers are smaller than 2 GiB
  and lie below 4 GiB on the bus.\<close>

definition dma_maps :: "(u64 \<Rightarrow> u64) \<Rightarrow> u64 \<times> u64 \<Rightarrow> u64 \<Rightarrow> bool" where
  "dma_maps T r d \<longleftrightarrow> unat (snd r) - unat (fst r) < 2 ^ 31 \<and> unat d + (unat (snd r) - unat (fst r)) < 2 ^ 32
     \<and> (\<forall>k < unat (snd r) - unat (fst r). T (d + of_nat k) = fst r + of_nat k)"

text \<open>The bus address of a pointer into a buffer.\<close>

definition bus :: "u64 \<times> u64 \<Rightarrow> u64 \<Rightarrow> u64 \<Rightarrow> u64" where
  "bus r d p = d + (p - fst r)"

text \<open>\<open>pci_dma_read\<close> and \<open>pci_dma_write\<close>, byte by byte.\<close>

definition dma_get :: "(u64 \<Rightarrow> u64) \<Rightarrow> mem \<Rightarrow> u64 \<Rightarrow> nat \<Rightarrow> u8 list" where
  "dma_get T m = mem_get (\<lambda>a. m (T a))"

fun dma_put :: "(u64 \<Rightarrow> u64) \<Rightarrow> u64 \<Rightarrow> u8 list \<Rightarrow> mem \<Rightarrow> mem" where
  "dma_put T a [] m = m"
| "dma_put T a (b # bs) m = dma_put T (a + 1) bs (m(T a := b))"

text \<open>What an event of the card does to the host: the vectors 0 to 2 are bound to the handlers of the
  driver (those of the I2C cores to the I2C driver, which is not on this path).\<close>

fun host_ev :: "(u64 \<Rightarrow> u64) \<Rightarrow> card_ev \<Rightarrow> 'd drv \<Rightarrow> 'd drv" where
  "host_ev T (DmaWrite a bs) s = s\<lparr>ram := dma_put T a bs (ram s)\<rparr>"
| "host_ev T (MsiNotify v) s =
    (if v = 0 then card_irq s else if v = 1 then rx_irq s else if v = 2 then rx_dropped_irq s else s)"
| "host_ev T _ s = s"

text \<open>An iteration of a thread of the card, with its effects on the host.\<close>

definition card_did :: "(u64 \<Rightarrow> u64) \<Rightarrow> FejkonState \<times> card_ev list \<Rightarrow> card_dev drv \<Rightarrow> card_dev drv" where
  "card_did T ce s = fold (host_ev T) (snd ce) (s\<lparr>dev := (dev s)\<lparr>fcard := fst ce\<rparr>\<rparr>)"

definition run_rx_thread :: "(u64 \<Rightarrow> u64) \<Rightarrow> card_dev drv \<Rightarrow> card_dev drv" where
  "run_rx_thread T s = card_did T (rx_thread_iter (fcard (dev s))) s"

definition run_irq_thread :: "(u64 \<Rightarrow> u64) \<Rightarrow> card_dev drv \<Rightarrow> card_dev drv" where
  "run_irq_thread T s = card_did T (rx_irq_thread_iter (fcard (dev s))) s"

definition run_tx_thread :: "(u64 \<Rightarrow> u64) \<Rightarrow> card_dev drv \<Rightarrow> fault + card_dev drv" where
  "run_tx_thread T s =
    (case tx_thread_iter (dma_get T (ram s)) (fcard (dev s)) of
       Inl e \<Rightarrow> Inl e
     | Inr ce \<Rightarrow> Inr (card_did T ce s))"

text \<open>The stack transmits on the interface of port \<open>i\<close>.\<close>

definition stack_tx :: "'d mmio \<Rightarrow> bool \<Rightarrow> sk_buff \<Rightarrow> nat \<Rightarrow> 'd drv \<Rightarrow> fault + 'd drv" where
  "stack_tx b xmit_more skb i s =
    (case port (the_card s) ! i of
       None \<Rightarrow> Inl NullDeref
     | Some p \<Rightarrow>
        (case net_tx b xmit_more skb p s of
           Inl e \<Rightarrow> Inl e
         | Inr (p, s) \<Rightarrow> Inr (s\<lparr>the_card := (the_card s)\<lparr>port := (port (the_card s))[i := Some p]\<rparr>\<rparr>)))"

section \<open>Addresses\<close>

lemma slot_offset:
  assumes "ring_cursor r p"
  defines "off \<equiv> unat p - unat (fst r)"
  shows "p - fst r = of_nat off" "p = fst r + of_nat off" "off + 4096 \<le> unat (snd r) - unat (fst r)"
    "unat (bus r d p) = (unat d + off) mod 2 ^ 64"
proof -
  have le: "unat (fst r) \<le> unat p" "unat p + 4096 \<le> unat (snd r)"
    using slot_room [OF assms(1)] assms(1) by (simp_all add: slot_ok_def)
  have "unat (p - fst r) = off" unfolding off_def by (rule unat_sub_no_wrap [OF le(1)])
  then show off: "p - fst r = of_nat off" using unsigned_less [of "p - fst r", where ?'a = nat]
    by (simp add: word_unat_eq_iff unat_of_nat_small)
  then show "p = fst r + of_nat off" by (metis add.commute diff_add_cancel)
  show "off + 4096 \<le> unat (snd r) - unat (fst r)" using le by (simp add: off_def)
  show "unat (bus r d p) = (unat d + off) mod 2 ^ 64"
    using off \<open>unat (p - fst r) = off\<close> by (simp add: bus_def unat_word_ariths)
qed

lemma bus_get:
  assumes "ring_cursor r p" and "dma_maps T r d" and "k + n \<le> 4096"
  shows "dma_get T m (bus r d p + of_nat k) n = mem_get m (p + of_nat k) n"
proof (rule nth_equalityI)
  fix i assume "i < length (dma_get T m (bus r d p + of_nat k) n)"
  then have i: "i < n" by (simp add: dma_get_def)
  let ?o = "unat p - unat (fst r)"
  have "?o + k + i < unat (snd r) - unat (fst r)"
    using slot_offset(3) [OF assms(1)] assms(3) i by linarith
  then have "T (d + of_nat (?o + k + i)) = fst r + of_nat (?o + k + i)"
    using assms(2) unfolding dma_maps_def by blast
  then have "T (bus r d p + of_nat k + of_nat i) = p + of_nat k + of_nat i"
    unfolding bus_def slot_offset(1) [OF assms(1)] using slot_offset(2) [OF assms(1)]
    by (simp add: add.assoc)
  then show "dma_get T m (bus r d p + of_nat k) n ! i = mem_get m (p + of_nat k) n ! i"
    using i by (simp add: dma_get_def)
qed (simp add: dma_get_def)

lemma mem_put_Cons:
  assumes "length (b # bs) \<le> 2 ^ 64"
  shows "mem_put m a (b # bs) = mem_put (m(a := b)) (a + 1) bs"
proof
  fix x
  show "mem_put m a (b # bs) x = mem_put (m(a := b)) (a + 1) bs x"
  proof (cases "x = a")
    case True
    have "unat (- 1 :: u64) = 2 ^ 64 - 1" using unat_sub_if_size [of 0 "1 :: u64"] by (simp add: word_size)
    then show ?thesis using True assms by (simp add: mem_put_def)
  next
    case False
    then have "x - a \<noteq> 0" by simp
    then obtain i where i: "unat (x - a) = Suc i" by (metis unat_eq_zero not0_implies_Suc)
    have "unat (x - a - 1) = unat (x - a) - unat (1 :: u64)" by (rule unat_sub_no_wrap) (simp add: i)
    then have "unat (x - (a + 1)) = i" by (simp add: i diff_diff_eq)
    then show ?thesis unfolding mem_put_def i using False by simp
  qed
qed

lemma dma_put_mapped:
  assumes "\<forall>k < length bs. T (a + of_nat k) = c + of_nat k" and "length bs \<le> 2 ^ 64"
  shows "dma_put T a bs m = mem_put m c bs"
  using assms
proof (induction bs arbitrary: a c m)
  case (Cons b bs)
  have "T (a + 1 + of_nat k) = c + 1 + of_nat k" if "k < length bs" for k
    using Cons.prems(1) [rule_format, of "Suc k"] that by (simp add: add.assoc)
  moreover have "T a = c" using Cons.prems(1) [rule_format, of 0] by simp
  ultimately show ?case using Cons mem_put_Cons [of b bs m c] by simp
qed simp

lemma bus_put:
  assumes "ring_cursor r p" and "dma_maps T r d" and "k + length bs \<le> 4096"
  shows "dma_put T (bus r d p + of_nat k) bs m = mem_put m (p + of_nat k) bs"
proof (rule dma_put_mapped)
  show "\<forall>j < length bs. T (bus r d p + of_nat k + of_nat j) = p + of_nat k + of_nat j"
  proof (intro allI impI)
    fix j assume "j < length bs"
    let ?o = "unat p - unat (fst r)"
    have "?o + k + j < unat (snd r) - unat (fst r)"
      using slot_offset(3) [OF assms(1)] assms(3) \<open>j < length bs\<close> by linarith
    then have "T (d + of_nat (?o + k + j)) = fst r + of_nat (?o + k + j)"
      using assms(2) unfolding dma_maps_def by blast
    then show "T (bus r d p + of_nat k + of_nat j) = p + of_nat k + of_nat j"
      unfolding bus_def slot_offset(1) [OF assms(1)] using slot_offset(2) [OF assms(1)]
      by (simp add: add.assoc)
  qed
qed (use assms(3) in simp)

text \<open>Moving a cursor on and its bus address: the driver's and the card's moves agree.\<close>

lemma bus_ok:
  assumes "ring_cursor r p" and "dma_maps T r d"
  shows "slot_ok d (d + (snd r - fst r)) (bus r d p)" "unat (bus r d p) < 2 ^ 32" "unat (d + (snd r - fst r)) < 2 ^ 32"
proof -
  let ?o = "unat p - unat (fst r)" and ?n = "unat (snd r) - unat (fst r)"
  have n: "unat d + ?n < 2 ^ 32" using assms(2) by (simp add: dma_maps_def)
  have le: "unat (fst r) \<le> unat p" "unat p < unat (snd r)" using assms(1) by (simp_all add: slot_ok_def)
  have "unat (snd r - fst r) = ?n" using le by (intro unat_sub_no_wrap) linarith
  then have e: "unat (d + (snd r - fst r)) = unat d + ?n" using n by (subst unat_add_no_wrap) simp_all
  have o4: "?o + 4096 \<le> ?n" by (rule slot_offset(3) [OF assms(1)])
  have b: "unat (bus r d p) = unat d + ?o" unfolding slot_offset(4) [OF assms(1)] using n o4 by simp
  have m: "?o mod 4096 = 0" "(unat (snd r) - unat p) mod 4096 = 0" using assms(1) by (simp_all add: slot_ok_def)
  have d1: "unat d + ?n - (unat d + ?o) = unat (snd r) - unat p" using le by linarith
  have "unat d \<le> unat d + ?o" "unat d + ?o < unat d + ?n" using o4 by linarith+
  then show "slot_ok d (d + (snd r - fst r)) (bus r d p)"
    unfolding slot_ok_def b e add_diff_cancel_left' d1 using m by blast
  show "unat (bus r d p) < 2 ^ 32" "unat (d + (snd r - fst r)) < 2 ^ 32" using b e n o4 by linarith+
qed

lemma bus_next:
  assumes "ring_cursor r p" and "dma_maps T r d" and "db_start b = d" and "db_end b = d + (snd r - fst r)"
  shows "frame_incr b (bus r d p) = bus r d (slot_next (fst r) (snd r) p)"
proof -
  have "db_ok b (bus r d p)" using bus_ok [OF assms(1,2)] assms(3,4) by (simp add: db_ok_def)
  then have "frame_incr b (bus r d p) = slot_next d (d + (snd r - fst r)) (bus r d p)"
    using frame_incr_slot_next assms(3,4) by metis
  also have "\<dots> = bus r d (slot_next (fst r) (snd r) p)"
    by (auto simp: slot_next_def bus_def Let_def algebra_simps)
  finally show ?thesis .
qed

lemma bus_inj: "bus r d p = bus r d q \<longleftrightarrow> p = q"
  by (simp add: bus_def)

lemma bus_reg:
  assumes "ring_cursor r p" and "dma_maps T r d"
  shows "cast32 (ucast (reg_from_ptr (fst r) d p)) = bus r d p" "ptr_from_reg (fst r) d (ucast (bus r d p)) = p"
proof -
  have reg: "reg_from_ptr (fst r) d p = ucast (bus r d p)" by (simp add: reg_from_ptr_def bus_def)
  show "cast32 (ucast (reg_from_ptr (fst r) d p)) = bus r d p"
    unfolding reg cast32_def using ucast_low [OF bus_ok(2) [OF assms]] by simp
  have "unat (snd r) - unat (fst r) < 2 ^ 31" "unat d + (unat (snd r) - unat (fst r)) < 2 ^ 32"
    using assms(2) by (simp_all add: dma_maps_def)
  then show "ptr_from_reg (fst r) d (ucast (bus r d p)) = p"
    using ptr_reg_inverse [OF assms(1), of d] by (simp add: reg)
qed

lemma slot_next_other:
  assumes "ring_cursor r p" and "2 \<le> slot_count (fst r) (snd r)"
  shows "slot_next (fst r) (snd r) p \<noteq> p"
  using slot_idx_next [OF assms(1)] slot_pos(3) [OF assms(1)] assms(2) by (auto split: if_splits)

section \<open>The idle path\<close>

text \<open>The card's view of a ring: programmed with the buffer \<open>r\<close> at \<open>d\<close>, the write pointer at the
  bus address of \<open>w\<close>, the read pointer at that of \<open>p\<close>.\<close>

definition ring_at :: "u64 \<times> u64 \<Rightarrow> u64 \<Rightarrow> u64 \<Rightarrow> u64 \<Rightarrow> FejkonDmaBuf" where
  "ring_at r d w p = \<lparr>db_start = d, db_end = d + (snd r - fst r), db_write = bus r d w, db_read = bus r d p\<rparr>"

text \<open>Both rings have at least two slots, are empty, and driver and card agree on them; the receive
  interrupt is armed.\<close>

definition path_idle :: "(u64 \<Rightarrow> u64) \<Rightarrow> card_dev drv \<Rightarrow> bool" where
  "path_idle T s \<longleftrightarrow> dma_maps T (rx_range s) (rx_buf_start_dma (the_card s))
     \<and> dma_maps T (tx_range s) (tx_buf_start_dma (the_card s))
     \<and> ring_cursor (rx_range s) (rx_rd s) \<and> ring_cursor (tx_range s) (tx_wr s)
     \<and> 2 \<le> slot_count (fst (rx_range s)) (snd (rx_range s)) \<and> 2 \<le> slot_count (fst (tx_range s)) (snd (tx_range s))
     \<and> rx_buf (fcard (dev s)) = ring_at (rx_range s) (rx_buf_start_dma (the_card s)) (rx_rd s) (rx_rd s)
     \<and> tx_buf (fcard (dev s)) = ring_at (tx_range s) (tx_buf_start_dma (the_card s)) (tx_wr s) (tx_wr s)
     \<and> rx_buf_irq_enabled (fcard (dev s))"

section \<open>The card receives\<close>

lemma rx_pkt_idle:
  assumes "dma_maps T r d" and "ring_cursor r p" and "2 \<le> slot_count (fst r) (snd r)" and "rx_buf c = ring_at r d p p"
  shows "fejkon_rx_pkt c pid pkt len = (c\<lparr>rx_buf := ring_at r d (slot_next (fst r) (snd r) p) p\<rparr>,
    [DmaWrite (bus r d p) (le32 (rx_metadata pid len)), DmaWrite (bus r d p + 4) (take (unat len) pkt)])"
proof -
  have "frame_incr (ring_at r d p p) (bus r d p) = bus r d (slot_next (fst r) (snd r) p)"
    by (rule bus_next [OF assms(2,1)]) (simp_all add: ring_at_def)
  moreover have "bus r d (slot_next (fst r) (snd r) p) \<noteq> bus r d p"
    using slot_next_other [OF assms(2,3)] by (simp add: bus_inj)
  ultimately show ?thesis
    using assms(4) by (simp add: fejkon_rx_pkt_def Let_def) (simp add: ring_at_def)
qed

lemma host_rx_pkt:
  assumes "dma_maps T r d" and "ring_cursor r p" and "length pkt = unat len" and "unat len \<le> 4092"
  shows "fold (host_ev T) [DmaWrite (bus r d p) (le32 md), DmaWrite (bus r d p + 4) (take (unat len) pkt)] s
    = s\<lparr>ram := put_packet (ram s) p md pkt\<rparr>"
  using bus_put [OF assms(2,1), of 0 "le32 md" "ram s"] bus_put [OF assms(2,1), of 4 pkt "mem_put (ram s) p (le32 md)"] assms(3,4)
  by (simp add: put_frame_def)

lemma card_did_rx:
  assumes "path_idle T s" and "fejkon_rx_pkt (fcard (dev s)) pid pkt len = ce" and "length pkt = unat len" and "unat len \<le> 4080"
  shows "card_did T ce s = s\<lparr>dev := (dev s)\<lparr>fcard := (fcard (dev s))\<lparr>rx_buf := ring_at (rx_range s)
      (rx_buf_start_dma (the_card s)) (slot_next (fst (rx_range s)) (snd (rx_range s)) (rx_rd s)) (rx_rd s)\<rparr>\<rparr>,
    ram := put_packet (ram s) (rx_rd s) (rx_metadata pid len) pkt\<rparr>"
proof -
  let ?R = "rx_range s" and ?d = "rx_buf_start_dma (the_card s)"
  have I: "dma_maps T ?R ?d" "ring_cursor ?R (rx_rd s)" "2 \<le> slot_count (fst ?R) (snd ?R)"
    "rx_buf (fcard (dev s)) = ring_at ?R ?d (rx_rd s) (rx_rd s)"
    using assms(1) by (simp_all add: path_idle_def)
  have le: "unat len \<le> 4092" using assms(4) by simp
  show ?thesis
    unfolding card_did_def assms(2) [symmetric] rx_pkt_idle [OF I] fst_conv snd_conv host_rx_pkt [OF I(1,2) assms(3) le] by simp
qed

text \<open>With a packet in the ring and the interrupt armed, the interrupt thread raises vector 1.\<close>

lemma irq_raised:
  assumes "rx_buf (fcard (dev s)) = ring_at R d q p" and "q \<noteq> p" and "rx_buf_irq_enabled (fcard (dev s))"
  shows "run_irq_thread T s
    = s\<lparr>dev := (dev s)\<lparr>fcard := (fcard (dev s))\<lparr>rx_buf_irq_enabled := False\<rparr>\<rparr>, napi_scheduled := True\<rparr>"
  using assms by (simp add: run_irq_thread_def card_did_def rx_irq_thread_iter_def ring_at_def bus_inj rx_irq_def)

text \<open>One packet in the receive ring: the interrupt thread raises vector 1, and \<open>poll\<close> delivers what
  it finds at offset 16, acknowledges, and leaves the receive ring idle.\<close>

lemma irq_and_poll:
  fixes s :: "card_dev drv" and m :: mem
  defines "R \<equiv> rx_range s" and "d \<equiv> rx_buf_start_dma (the_card s)" and "c \<equiv> fcard (dev s)"
  defines "q \<equiv> slot_next (fst R) (snd R) (rx_rd s)"
  assumes maps: "dma_maps T R d" and cur: "ring_cursor R (rx_rd s)" and two: "2 \<le> slot_count (fst R) (snd R)"
    and ring: "rx_buf c = ring_at R d q (rx_rd s)" and armed: "rx_buf_irq_enabled c"
    and ram: "ram s = put_packet m (rx_rd s) (rx_metadata (port_id p) len) pkt"
    and len: "length pkt = unat len" "36 \<le> unat len" "unat len \<le> 4080" "unat len mod 4 = 0"
    and prt: "port (the_card s) ! unat (port_id p) = Some p" "unat (port_id p) < 4" "oper_up (net p)"
    and "alloc 0" and "1 < budget"
  shows "napi_scheduled (run_irq_thread T s)"
    and "poll (card_mmio r) alloc budget (run_irq_thread T s) = Inr (1,
      s\<lparr>the_card := (the_card s)\<lparr>port := (port (the_card s))[unat (port_id p) := Some (p\<lparr>net := count_rx (ucast len) (net p)\<rparr>)],
          rx_buf_read := q\<rparr>,
        dev := (dev s)\<lparr>fcard := c\<lparr>rx_buf := ring_at R d q q, rx_buf_irq_enabled := True\<rparr>\<rparr>,
        napi_scheduled := False,
        delivered := delivered s @ [(port_id p, drop 12 pkt @ mem_get m (rx_rd s + 4 + of_nat (unat len)) 12)]\<rparr>)"
proof -
  let ?md = "rx_metadata (port_id p) len"
  let ?t = "s\<lparr>dev := (dev s)\<lparr>fcard := c\<lparr>rx_buf_irq_enabled := False\<rparr>\<rparr>, napi_scheduled := True\<rparr>"
  have ne: "q \<noteq> rx_rd s" unfolding q_def by (rule slot_next_other [OF cur two])
  have irq: "run_irq_thread T s = ?t"
    using irq_raised [OF ring [unfolded c_def] ne armed [unfolded c_def]] by (simp add: c_def)
  then show "napi_scheduled (run_irq_thread T s)" by simp
  have f: "md_port ?md = port_id p" "md_quads ?md = len div 4" "md_off ?md = 4"
    using rx_metadata_fields [of "port_id p" len] prt(2) len(3) by simp_all
  have q4: "unat (md_quads ?md) * 4 = unat len" unfolding f using len(4) by simp presburger
  have get: "get32 (ram s) (rx_rd s) = ?md"
    unfolding ram by (rule put_frame_same(1) [OF cur]) (use len in simp_all)
  have pay: "mem_get (ram s) (rx_rd s + 16) (unat len) = drop 12 pkt @ mem_get m (rx_rd s + 4 + of_nat (unat len)) 12"
    using put_packet_at_16 [of pkt m "rx_rd s" ?md] len unfolding ram by simp
  have rl: "unat (rx_len ?md) = unat len" using rx_fields_md(2) [of ?md] q4 by simp
  have rl': "rx_len ?md = ucast len"
    using rl len(3) by (simp add: word_unat_eq_iff unat_ucast_small)
  have ro: "rx_offset ?md = 16" using rx_fields_md(4) [of ?md] f(3) by simp
  have b: "buf_bounds (rx_buf_start (the_card s)) (rx_buf_end (the_card s)) (rx_rd s) 4"
    using meta_bounds [of s] cur unfolding R_def by simp
  have "unat (rx_rd s + 16) = unat (rx_rd s) + 16" using unat_slot_plus [OF cur, of 16] by simp
  then have b': "buf_bounds (rx_buf_start (the_card s)) (rx_buf_end (the_card s)) (rx_rd s + 16) (unat len)"
    using slot_room [OF cur] cur len(3) unfolding R_def by (simp add: buf_bounds_def slot_ok_def)
  let ?u = "?t\<lparr>the_card := (the_card s)\<lparr>port := (port (the_card s))[unat (port_id p) := Some (p\<lparr>net := count_rx (ucast len) (net p)\<rparr>)]\<rparr>,
     delivered := delivered s @ [(port_id p, drop 12 pkt @ mem_get m (rx_rd s + 4 + of_nat (unat len)) 12)]\<rparr>"
  have frame: "rx_frame (alloc 0) ?t = Inr (Handled, ?u)"
    using get b b' prt(1,3) pay rl ro len(2) \<open>alloc 0\<close> f(1)
    by (simp add: rx_frame_def Let_def rx_fields_md(1) rl' set_net_def word_less_nat_alt)
  have wr: "ptr_from_reg (fst R) d (ucast (bus R d q)) = q"
    unfolding q_def by (rule bus_reg(2) [OF slot_ok_next [OF cur] maps])
  have "2 \<le> nat budget" using \<open>1 < budget\<close> by linarith
  then obtain l where l: "nat budget = Suc (Suc l)" by (metis add_2_eq_Suc le_Suc_ex)
  have ack: "cast32 (ucast (reg_from_ptr (fst R) d q)) = bus R d q"
    unfolding q_def by (rule bus_reg(1) [OF slot_ok_next [OF cur] maps])
  have adv: "rx_advance ?u = ?u\<lparr>the_card := (the_card ?u)\<lparr>rx_buf_read := q\<rparr>\<rparr>"
    by (simp add: rx_advance_def q_def R_def Let_def)
  let ?v = "?u\<lparr>the_card := (the_card ?u)\<lparr>rx_buf_read := q\<rparr>\<rparr>"
  have loop: "poll_loop alloc q (nat budget) 0 ?t = Inr (Handled, 1, ?v)"
    unfolding l poll_loop.simps frame sum.case prod.case rx_result.case adv using ne by simp
  have rd: "ioread32 (card_mmio r) 0x8AC ?t = (ucast (bus R d q), ?t)"
    using ring by (simp add: ioread32_def ring_at_def)
  have st: "rx_buf_start (the_card ?t) = fst R" "rx_buf_start_dma (the_card ?t) = d"
    "rx_buf_start (the_card ?v) = fst R" "rx_buf_start_dma (the_card ?v) = d" "rx_buf_read (the_card ?v) = q"
    by (simp_all add: R_def d_def)
  have "poll (card_mmio r) alloc budget ?t
      = Inr (1, (iowrite32 (card_mmio r) (reg_from_ptr (fst R) d q) 0x8A8 ?v)\<lparr>napi_scheduled := False\<rparr>)"
    unfolding poll_def rd Let_def prod.case st wr loop using \<open>1 < budget\<close> by (simp add: R_def d_def)
  moreover have "card_write (dev ?v) 0x8A8 (reg_from_ptr (fst R) d q)
      = (dev s)\<lparr>fcard := c\<lparr>rx_buf := ring_at R d q q, rx_buf_irq_enabled := True\<rparr>\<rparr>"
    using ring ack by (simp add: card_write_dma fejkon_bar0_write_def ring_at_def)
  ultimately show "poll (card_mmio r) alloc budget (run_irq_thread T s) = Inr (1,
      s\<lparr>the_card := (the_card s)\<lparr>port := (port (the_card s))[unat (port_id p) := Some (p\<lparr>net := count_rx (ucast len) (net p)\<rparr>)],
          rx_buf_read := q\<rparr>,
        dev := (dev s)\<lparr>fcard := c\<lparr>rx_buf := ring_at R d q q, rx_buf_irq_enabled := True\<rparr>\<rparr>,
        napi_scheduled := False,
        delivered := delivered s @ [(port_id p, drop 12 pkt @ mem_get m (rx_rd s + 4 + of_nat (unat len)) 12)]\<rparr>)"
    unfolding irq by (simp add: iowrite32_def)
qed

section \<open>The test packet\<close>

text \<open>An idle path into whose receive ring the card has put a packet for a port that is up: the
  interrupt is raised, one packet is delivered, and the path is idle again.\<close>

lemma deliver_one:
  fixes s :: "card_dev drv"
  assumes idle: "path_idle T s" and fr: "fejkon_rx_pkt (fcard (dev s)) (of_nat i) pkt len = (c', evs)"
    and len: "length pkt = unat len" "36 \<le> unat len" "unat len \<le> 4080" "unat len mod 4 = 0"
    and prt: "port (the_card s) ! i = Some p" "i < 4" "port_id p = of_nat i" "oper_up (net p)"
    and "alloc 0" and "1 < budget"
  shows "\<exists>t. napi_scheduled (run_irq_thread T (card_did T (c', evs) s))
    \<and> poll (card_mmio r) alloc budget (run_irq_thread T (card_did T (c', evs) s)) = Inr (1, t)
    \<and> delivered t = delivered s @ [(of_nat i, drop 12 pkt @ mem_get (ram s) (rx_rd s + 4 + of_nat (unat len)) 12)]
    \<and> port (the_card t) = (port (the_card s))[i := Some (p\<lparr>net := count_rx (ucast len) (net p)\<rparr>)]
    \<and> \<not> napi_scheduled t \<and> path_idle T t"
proof -
  let ?R = "rx_range s" and ?d = "rx_buf_start_dma (the_card s)"
  let ?q = "slot_next (fst ?R) (snd ?R) (rx_rd s)"
  have I: "dma_maps T ?R ?d" "ring_cursor ?R (rx_rd s)" "2 \<le> slot_count (fst ?R) (snd ?R)"
    "rx_buf (fcard (dev s)) = ring_at ?R ?d (rx_rd s) (rx_rd s)" "rx_buf_irq_enabled (fcard (dev s))"
    using idle by (simp_all add: path_idle_def)
  have u: "unat (of_nat i :: u32) = i" using prt(2) by (simp add: unat_of_nat_small)
  have c': "c' = (fcard (dev s))\<lparr>rx_buf := ring_at ?R ?d ?q (rx_rd s)\<rparr>"
    using fr rx_pkt_idle [OF I(1-4), of "of_nat i" pkt len] by simp
  let ?s = "s\<lparr>dev := (dev s)\<lparr>fcard := c'\<rparr>, ram := put_packet (ram s) (rx_rd s) (rx_metadata (of_nat i) len) pkt\<rparr>"
  have did: "card_did T (c', evs) s = ?s"
    using card_did_rx [OF idle fr len(1,3)] by (simp add: c')
  note ip = irq_and_poll [where s = ?s and T = T and p = p and len = len and pkt = pkt and m = "ram s" and alloc = alloc
      and budget = budget]
  have "napi_scheduled (run_irq_thread T ?s)"
    by (rule ip(1)) (use I c' len prt u \<open>alloc 0\<close> \<open>1 < budget\<close> in simp_all)
  let ?t = "?s\<lparr>the_card := (the_card s)\<lparr>port := (port (the_card s))[i := Some (p\<lparr>net := count_rx (ucast len) (net p)\<rparr>)],
      rx_buf_read := ?q\<rparr>,
    dev := (dev s)\<lparr>fcard := c'\<lparr>rx_buf := ring_at ?R ?d ?q ?q, rx_buf_irq_enabled := True\<rparr>\<rparr>,
    napi_scheduled := False,
    delivered := delivered s @ [(of_nat i, drop 12 pkt @ mem_get (ram s) (rx_rd s + 4 + of_nat (unat len)) 12)]\<rparr>"
  have "poll (card_mmio r) alloc budget (run_irq_thread T ?s) = Inr (1, ?t)"
    by (rule ip(2) [THEN trans]) (use I c' len prt u \<open>alloc 0\<close> \<open>1 < budget\<close> in simp_all)
  moreover have "path_idle T ?t"
    using idle c' slot_ok_next [OF I(2)] by (simp add: path_idle_def)
  ultimately show ?thesis
    unfolding did using \<open>napi_scheduled (run_irq_thread T ?s)\<close> by (intro exI [of _ ?t] conjI) simp_all
qed

section \<open>Transmission\<close>

lemma tx_full_on_card:
  assumes "ring_cursor (tx_range s) (tx_wr s)" and "dma_maps T (tx_range s) (tx_buf_start_dma (the_card s))"
  shows "\<not> fst (tx_full (card_mmio r) s)" "fcard (dev (snd (tx_full (card_mmio r) s))) = fcard (dev s)"
proof -
  have rd: "card_read r (dev s) 0x8C8 = (0, (dev s)\<lparr>events := events (dev s) @ [LogRdAddr 0x8C8]\<rparr>)"
    by (simp add: card_read_def fejkon_bar0_read_def)
  have "tx_wr s + 4096 \<noteq> ptr_from_reg (tx_buf_start (the_card s)) (tx_buf_start_dma (the_card s)) 0"
    using ptr_from_zero_outside [OF assms(1)] assms(2) by (simp add: dma_maps_def)
  then show "\<not> fst (tx_full (card_mmio r) s)" "fcard (dev (snd (tx_full (card_mmio r) s))) = fcard (dev s)"
    using rd by (auto simp: tx_full_def ioread32_def Let_def)
qed

lemma tx_ctrl1_fields:
  assumes "unat pid < 4" and "unat len mod 4 = 0" and "unat len \<le> 4080"
  shows "tx_length (tx_ctrl1 pid len 4) = len" "tx_port (tx_ctrl1 pid len 4) = pid" "tx_offset (tx_ctrl1 pid len 4) = 4"
proof -
  let ?md = "tx_ctrl1 pid len 4"
  have md: "md_port ?md = pid" "md_off ?md = 4" "md_quads ?md = len div 4"
    using assms(1,3) unfolding tx_ctrl1_md by (simp_all add: md_fields_small del: md_fields)
  show "tx_length ?md = len" "tx_port ?md = pid" "tx_offset ?md = 4"
    using md assms(2) unat_quads_4 [of ?md]
    by (simp_all add: tx_fields_md word_unat_eq_iff) (metis mult.commute mult_div_mod_eq add.right_neutral)
qed

text \<open>\<open>net_tx\<close> on an idle path, up to the doorbell.\<close>

lemma stack_tx_idle:
  assumes idle: "path_idle T s" and skb: "skb_ok skb" "unat (skb_len skb) \<le> 4080"
    and prt: "port (the_card s) ! i = Some p"
  defines "q \<equiv> slot_next (fst (tx_range s)) (snd (tx_range s)) (tx_wr s)"
  shows "\<exists>s1. stack_tx (card_mmio r) False skb i s = Inr s1
    \<and> ram s1 = put_frame (ram s) (tx_wr s) (tx_ctrl1 (port_id p) (skb_len skb) 4) 16 (skb_data skb)
    \<and> tx_wr s1 = q \<and> tx_range s1 = tx_range s \<and> tx_buf_start_dma (the_card s1) = tx_buf_start_dma (the_card s)
    \<and> rx_range s1 = rx_range s \<and> rx_rd s1 = rx_rd s \<and> rx_buf_start_dma (the_card s1) = rx_buf_start_dma (the_card s)
    \<and> port (the_card s1) = (port (the_card s))[i := Some (count_tx skb p)] \<and> delivered s1 = delivered s
    \<and> fcard (dev s1) = (fcard (dev s))\<lparr>tx_buf := ring_at (tx_range s) (tx_buf_start_dma (the_card s)) q (tx_wr s)\<rparr>"
proof -
  let ?R = "tx_range s" and ?d = "tx_buf_start_dma (the_card s)"
  have I: "dma_maps T ?R ?d" "ring_cursor ?R (tx_wr s)"
    "tx_buf (fcard (dev s)) = ring_at ?R ?d (tx_wr s) (tx_wr s)"
    using idle by (simp_all add: path_idle_def)
  note full = tx_full_on_card [OF I(2,1), of r]
  obtain s' where s': "net_tx (card_mmio r) False skb p s = Inr (count_tx skb p, s')"
    "ram s' = put_frame (ram s) (tx_wr s) (tx_ctrl1 (port_id p) (skb_len skb) 4) 16 (skb_data skb)"
    "tx_wr s' = q" "tx_range s' = ?R" "tx_buf_start_dma (the_card s') = ?d"
    "dev s' = card_write (dev (snd (tx_full (card_mmio r) s))) 0x8CC (reg_from_ptr (fst ?R) ?d q)"
    "the_card s' = (the_card (snd (tx_full (card_mmio r) s)))\<lparr>tx_buf_write := q\<rparr>" "delivered s' = delivered s"
    using net_tx_accepts [OF skb(1) I(2) skb(2) full(1), of False p] unfolding q_def by auto
  have "cast32 (ucast (reg_from_ptr (fst ?R) ?d q)) = bus ?R ?d q"
    unfolding q_def by (rule bus_reg(1) [OF slot_ok_next [OF I(2)] I(1)])
  then have "fcard (dev s') = (fcard (dev s))\<lparr>tx_buf := ring_at ?R ?d q (tx_wr s)\<rparr>"
    unfolding s'(6) using full(2) I(3) by (simp add: card_write_def fejkon_bar0_write_def ring_at_def)
  then show ?thesis
    using s' prt by (simp add: stack_tx_def)
qed

text \<open>One iteration of the transmit thread with that packet pending.\<close>

lemma tx_thread_takes:
  assumes maps: "dma_maps T R d" "dma_maps T S e" and cur: "ring_cursor R w" "ring_cursor S p"
    and two: "2 \<le> slot_count (fst R) (snd R)" "2 \<le> slot_count (fst S) (snd S)"
    and ring: "rx_buf (fcard (dev s)) = ring_at S e p p"
      "tx_buf (fcard (dev s)) = ring_at R d (slot_next (fst R) (snd R) w) w"
    and ram: "ram s = put_frame m w (tx_ctrl1 (of_nat i) len 4) 16 bs"
    and len: "length bs = unat len" "unat len \<le> 2148" "unat len mod 4 = 0" "12 \<le> unat len" and i: "i < 4"
  defines "pkt \<equiv> mem_get m (w + 4) 12 @ take (unat len - 12) bs"
  defines "t \<equiv> s\<lparr>dev := (dev s)\<lparr>fcard := (fcard (dev s))\<lparr>tx_buf := ring_at R d (slot_next (fst R) (snd R) w)
    (slot_next (fst R) (snd R) w)\<rparr>\<rparr>\<rparr>"
  shows "run_tx_thread T s = Inr (card_did T (fejkon_rx_pkt (fcard (dev t)) (of_nat i) pkt len) t)"
proof -
  let ?c = "fcard (dev s)" and ?md = "tx_ctrl1 (of_nat i) len 4" and ?q = "slot_next (fst R) (snd R) w"
  have u: "unat (of_nat i :: u32) < 4" using i by (simp add: unat_of_nat_small)
  note f = tx_ctrl1_fields [OF u len(3)]
  have "get32 (ram s) w = ?md"
    unfolding ram by (rule put_frame_same(1) [OF cur(1)]) (use len in simp_all)
  then have md: "word_of_bytes (dma_get T (ram s) (bus R d w) 4) = ?md"
    using bus_get [OF cur(1) maps(1), of 0 4 "ram s"] by (simp add: word_of_bytes_get32)
  have "dma_get T (ram s) (bus R d w + 4) (unat len) = mem_get (ram s) (w + 4) (unat len)"
    using bus_get [OF cur(1) maps(1), of 4 "unat len" "ram s"] len(2) by simp
  also have "\<dots> = pkt"
    unfolding ram pkt_def using put_frame_at_4 [OF cur(1), of bs m ?md] len by simp
  finally have pkt: "dma_get T (ram s) (bus R d w + 4) (unat len) = pkt" .
  have inc: "frame_incr (ring_at R d ?q w) (bus R d w) = bus R d ?q"
    by (rule bus_next [OF cur(1) maps(1)]) (simp_all add: ring_at_def)
  have ne: "bus R d w \<noteq> bus R d ?q" using slot_next_other [OF cur(1) two(1)] by (simp add: bus_inj)
  note rx = rx_pkt_idle [OF maps(2) cur(2) two(2)]
  have "tx_thread_iter (dma_get T (ram s)) ?c = Inr (fejkon_rx_pkt (fcard (dev t)) (of_nat i) pkt len)"
    using ring ne md pkt len f inc rx [of ?c "of_nat i" pkt len] rx [of "fcard (dev t)" "of_nat i" pkt len]
    by (simp add: tx_thread_iter_def Let_def t_def) (simp add: ring_at_def)
  then show ?thesis
    by (simp add: run_tx_thread_def card_did_def t_def)
qed

section \<open>What arrives\<close>

text \<open>
  C25. A packet that the driver sends on the emulated card comes back damaged. From an idle path with
  the port up, a packet of 36 to 2148 bytes (a multiple of four) is accepted by \<open>net_tx\<close>; one
  iteration of the transmit thread, through DMA, puts it into the receive ring; one iteration of the
  interrupt thread schedules \<open>poll\<close>, which, when its buffer can be allocated, delivers exactly one
  packet on the same port and leaves the path idle. But the driver places the data at offset 16 and
  stores 4, in units of four bytes, while the card takes the 4 for bytes, on both ways: what arrives
  are all but the last twelve bytes of the packet, followed by twelve bytes of old memory from
  behind the card's packet.
\<close>

theorem loopback_loses_tail:
  assumes "path_idle T s" and "skb_ok skb" and "36 \<le> unat (skb_len skb)" and "unat (skb_len skb) \<le> 2148"
    and "unat (skb_len skb) mod 4 = 0"
    and "port (the_card s) ! i = Some p" and "i < length (port (the_card s))" and "i < 4"
    and "port_id p = of_nat i" and "oper_up (net p)" and "alloc 0" and "1 < budget"
  shows "\<exists>s1 s2 s3. stack_tx (card_mmio r) False skb i s = Inr s1 \<and> run_tx_thread T s1 = Inr s2
    \<and> napi_scheduled (run_irq_thread T s2) \<and> poll (card_mmio r) alloc budget (run_irq_thread T s2) = Inr (1, s3)
    \<and> delivered s3 = delivered s @ [(of_nat i, take (unat (skb_len skb) - 12) (skb_data skb)
        @ mem_get (ram s1) (rx_rd s + 4 + of_nat (unat (skb_len skb))) 12)]
    \<and> port (the_card s3) ! i = Some (p\<lparr>net := count_rx (ucast (skb_len skb)) (net (count_tx skb p))\<rparr>)
    \<and> \<not> napi_scheduled s3 \<and> path_idle T s3"
proof -
  let ?R = "tx_range s" and ?d = "tx_buf_start_dma (the_card s)" and ?len = "skb_len skb"
  let ?q = "slot_next (fst ?R) (snd ?R) (tx_wr s)"
  let ?pkt = "mem_get (ram s) (tx_wr s + 4) 12 @ take (unat ?len - 12) (skb_data skb)"
  have I: "dma_maps T ?R ?d" "dma_maps T (rx_range s) (rx_buf_start_dma (the_card s))"
    "ring_cursor ?R (tx_wr s)" "ring_cursor (rx_range s) (rx_rd s)"
    "2 \<le> slot_count (fst ?R) (snd ?R)" "2 \<le> slot_count (fst (rx_range s)) (snd (rx_range s))"
    "rx_buf (fcard (dev s)) = ring_at (rx_range s) (rx_buf_start_dma (the_card s)) (rx_rd s) (rx_rd s)"
    using assms(1) by (simp_all add: path_idle_def)
  have len: "length (skb_data skb) = unat ?len" "unat ?len \<le> 4080" "12 \<le> unat ?len"
    using assms(2-4) by (simp_all add: skb_ok_def)
  obtain s1 where s1: "stack_tx (card_mmio r) False skb i s = Inr s1"
    "ram s1 = put_frame (ram s) (tx_wr s) (tx_ctrl1 (of_nat i) ?len 4) 16 (skb_data skb)"
    "tx_wr s1 = ?q" "tx_range s1 = ?R" "tx_buf_start_dma (the_card s1) = ?d"
    "rx_range s1 = rx_range s" "rx_rd s1 = rx_rd s" "rx_buf_start_dma (the_card s1) = rx_buf_start_dma (the_card s)"
    "port (the_card s1) = (port (the_card s))[i := Some (count_tx skb p)]" "delivered s1 = delivered s"
    "fcard (dev s1) = (fcard (dev s))\<lparr>tx_buf := ring_at ?R ?d ?q (tx_wr s)\<rparr>"
    using stack_tx_idle [OF assms(1,2) len(2) assms(6), of r] assms(9) by auto
  let ?t = "s1\<lparr>dev := (dev s1)\<lparr>fcard := (fcard (dev s1))\<lparr>tx_buf := ring_at ?R ?d ?q ?q\<rparr>\<rparr>\<rparr>"
  have idle: "path_idle T ?t"
    using assms(1) s1(3-8,11) slot_ok_next [OF I(3)] by (simp add: path_idle_def)
  have take1: "run_tx_thread T s1 = Inr (card_did T (fejkon_rx_pkt (fcard (dev ?t)) (of_nat i) ?pkt ?len) ?t)"
    by (rule tx_thread_takes [OF I(1,2,3,4,5,6) _ _ s1(2) len(1) assms(4,5) len(3) assms(8)]) (use s1 I in simp_all)
  obtain c' evs where rx: "fejkon_rx_pkt (fcard (dev ?t)) (of_nat i) ?pkt ?len = (c', evs)" by (metis surj_pair)
  have "length ?pkt = unat ?len" "port (the_card ?t) ! i = Some (count_tx skb p)"
    "port_id (count_tx skb p) = of_nat i" "oper_up (net (count_tx skb p))"
    using len s1(9) assms(7,9,10) by (simp_all add: count_tx_def)
  from deliver_one [where alloc = alloc and r = r, OF idle rx this(1) assms(3) len(2) assms(5) this(2) assms(8) this(3,4) assms(11,12)]
  obtain s3 where "napi_scheduled (run_irq_thread T (card_did T (c', evs) ?t))"
    "poll (card_mmio r) alloc budget (run_irq_thread T (card_did T (c', evs) ?t)) = Inr (1, s3)"
    "delivered s3 = delivered s @ [(of_nat i, take (unat ?len - 12) (skb_data skb)
        @ mem_get (ram s1) (rx_rd s + 4 + of_nat (unat ?len)) 12)]"
    "port (the_card s3) ! i = Some (p\<lparr>net := count_rx (ucast ?len) (net (count_tx skb p))\<rparr>)"
    "\<not> napi_scheduled s3" "path_idle T s3"
    using s1(7,9,10) assms(7) by (auto simp: count_tx_def)
  then show ?thesis using s1(1) take1 rx by auto
qed

lemma length_test_pkt: "length test_pkt = 72"
  by (simp add: test_pkt_def)

lemma run_rx_thread_idle:
  assumes "path_idle T s"
  shows "run_rx_thread T s = s\<lparr>dev := (dev s)\<lparr>fcard := (fcard (dev s))\<lparr>rx_buf := ring_at (rx_range s)
      (rx_buf_start_dma (the_card s)) (slot_next (fst (rx_range s)) (snd (rx_range s)) (rx_rd s)) (rx_rd s)\<rparr>\<rparr>,
    ram := put_packet (ram s) (rx_rd s) (rx_metadata 0 72) test_pkt\<rparr>"
proof -
  have "rx_buf (fcard (dev s)) = ring_at (rx_range s) (rx_buf_start_dma (the_card s)) (rx_rd s) (rx_rd s)"
    "ring_cursor (rx_range s) (rx_rd s)"
    using assms by (simp_all add: path_idle_def)
  then have "run_rx_thread T s = card_did T (fejkon_rx_pkt (fcard (dev s)) 0 test_pkt 72) s"
    by (auto simp: run_rx_thread_def rx_thread_iter_def ring_at_def slot_ok_def)
  then show ?thesis using card_did_rx [where pid = 0 and pkt = test_pkt and len = 72, OF assms refl] by (simp add: length_test_pkt)
qed

text \<open>
  C38. The packets that the emulated card makes up itself arrive damaged too. From an idle path with
  port 0 up, one iteration of the receive thread and one of the interrupt thread schedule \<open>poll\<close>,
  which delivers one packet on port 0 and leaves the path idle: the test packet of 72 bytes without
  its first twelve, among them the start of frame, followed by twelve bytes of old memory.
\<close>

theorem test_packet_loses_head:
  assumes "path_idle T s" and "port (the_card s) ! 0 = Some p" and "port_id p = 0" and "oper_up (net p)"
    and "alloc 0" and "1 < budget"
  shows "\<exists>s1. napi_scheduled (run_irq_thread T (run_rx_thread T s))
    \<and> poll (card_mmio r) alloc budget (run_irq_thread T (run_rx_thread T s)) = Inr (1, s1)
    \<and> delivered s1 = delivered s @ [(0, replicate 56 0 @ [0xBC, 0x95, 0x75, 0x75] @ mem_get (ram s) (rx_rd s + 76) 12)]
    \<and> \<not> napi_scheduled s1 \<and> path_idle T s1"
proof -
  obtain c' evs where rx: "fejkon_rx_pkt (fcard (dev s)) (of_nat 0) test_pkt 72 = (c', evs)" by (metis surj_pair)
  have "rx_buf (fcard (dev s)) = ring_at (rx_range s) (rx_buf_start_dma (the_card s)) (rx_rd s) (rx_rd s)"
    "ring_cursor (rx_range s) (rx_rd s)"
    using assms(1) by (simp_all add: path_idle_def)
  then have run: "run_rx_thread T s = card_did T (c', evs) s"
    using rx by (auto simp: run_rx_thread_def rx_thread_iter_def ring_at_def slot_ok_def)
  have "drop 12 test_pkt = replicate 56 0 @ [0xBC, 0x95, 0x75, 0x75]" by (simp add: test_pkt_def)
  then show ?thesis
    using deliver_one [where alloc = alloc and r = r, OF assms(1) rx _ _ _ _ assms(2) _ _ assms(4-6)] assms(3) length_test_pkt
    unfolding run by (auto simp: add.assoc)
qed

text \<open>
  C39. The stall after a failed allocation, on the card. From an idle path with port 0 up, the card puts
  its test packet into the ring and raises the receive interrupt; when the buffer cannot be
  allocated, \<open>poll\<close> returns 0, the packet stays in the ring, and the NAPI instance stays scheduled.
  From then on, in every run of the card in which the guest does not write its read pointer to
  0x8A8, which between probing and removal only \<open>poll\<close> does, the receive interrupt is never raised again, no
  matter how many packets arrive.
\<close>

theorem alloc_failure_silences_card:
  assumes "path_idle T s" and "port (the_card s) ! 0 = Some p" and "oper_up (net p)"
    and "\<not> alloc 0" and "0 < budget"
  shows "\<exists>t. poll (card_mmio r) alloc budget (run_irq_thread T (run_rx_thread T s)) = Inr (0, t)
    \<and> napi_scheduled t \<and> rx_pending (poll_wr (card_mmio r) (run_irq_thread T (run_rx_thread T s))) t = [rx_rd s]
    \<and> (\<forall>x acts evs y. card_st x = fcard (dev t) \<and> card_runs x acts evs y \<and> rearms acts = 0
         \<longrightarrow> msi_count 1 evs = 0)"
proof -
  let ?R = "rx_range s" and ?d = "rx_buf_start_dma (the_card s)" and ?md = "rx_metadata 0 72"
  let ?q = "slot_next (fst ?R) (snd ?R) (rx_rd s)" and ?m = "put_packet (ram s) (rx_rd s) ?md test_pkt"
  let ?c = "(fcard (dev s))\<lparr>rx_buf := ring_at ?R ?d ?q (rx_rd s), rx_buf_irq_enabled := False\<rparr>"
  let ?t = "s\<lparr>dev := (dev s)\<lparr>fcard := ?c\<rparr>, ram := ?m, napi_scheduled := True\<rparr>"
  have I: "dma_maps T ?R ?d" "ring_cursor ?R (rx_rd s)" "2 \<le> slot_count (fst ?R) (snd ?R)"
    "rx_buf (fcard (dev s)) = ring_at ?R ?d (rx_rd s) (rx_rd s)" "rx_buf_irq_enabled (fcard (dev s))"
    using assms(1) by (simp_all add: path_idle_def)
  have ne: "?q \<noteq> rx_rd s" by (rule slot_next_other [OF I(2,3)])
  have t: "run_irq_thread T (run_rx_thread T s) = ?t"
    unfolding run_rx_thread_idle [OF assms(1)]
    by (subst irq_raised [OF _ ne]) (use I(5) in simp_all)
  have "poll_wr (card_mmio r) ?t = ptr_from_reg (fst ?R) ?d (ucast (bus ?R ?d ?q))"
    by (simp add: poll_wr_def ioread32_def ring_at_def)
  then have w: "poll_wr (card_mmio r) ?t = ?q" using bus_reg(2) [OF slot_ok_next [OF I(2)] I(1)] by simp
  have pend: "rx_pending ?q ?t = [rx_rd s]"
    using pending_slots_deq [OF I(2) slot_ok_next [OF I(2)] ne [symmetric]] pending_slots_empty [OF slot_ok_next [OF I(2)]] by simp
  have get: "get32 ?m (rx_rd s) = ?md"
    by (rule put_frame_same(1) [OF I(2)]) (simp_all add: length_test_pkt)
  have f: "md_port ?md = 0" "md_quads ?md = 18" "md_off ?md = 4" using rx_metadata_fields [of 0 72] by simp_all
  then have fr: "frame_fits ?m (rx_rd s)" "fst (frame_at ?m (rx_rd s)) = 0" "length (snd (frame_at ?m (rx_rd s))) = 72"
    by (simp_all add: frame_fits_def frame_at_def get Let_def)
  have pre: "rx_pre ?q ?t"
    using I(2) slot_ok_next [OF I(2)] fr assms(2) unfolding rx_pre_def pend by (simp add: has_port_def)
  have "\<exists>u. poll (card_mmio r) alloc budget ?t = Inr (int 0, u) \<and> napi_scheduled u = napi_scheduled ?t
      \<and> dev u = dev (snd (ioread32 (card_mmio r) 0x8AC ?t))
      \<and> rx_pending ?q u = drop 0 [rx_rd s]"
    by (rule poll_alloc_fail [where b = "card_mmio r" and s = ?t and k = 0, unfolded w pend])
      (use pre fr assms(2-5) in \<open>simp_all add: port_up_def\<close>)
  then obtain u where u: "poll (card_mmio r) alloc budget ?t = Inr (0, u)" "napi_scheduled u" "dev u = dev ?t"
    "rx_pending ?q u = [rx_rd s]"
    by (auto simp: ioread32_def)
  have silent: "\<forall>x acts evs y. card_st x = fcard (dev u) \<and> card_runs x acts evs y \<and> rearms acts = 0 \<longrightarrow> msi_count 1 evs = 0"
  proof (intro allI impI)
    fix x acts evs y
    assume "card_st x = fcard (dev u) \<and> card_runs x acts evs y \<and> rearms acts = 0"
    then show "msi_count 1 evs = 0" using runs_rx_irq [of x acts evs y] u(3) by simp
  qed
  show ?thesis unfolding t w using u(1,2,4) silent by blast
qed

section \<open>The path after \<open>setup_buffers\<close>\<close>

text \<open>\<open>setup_buffers\<close> on the emulated card leaves an idle path.\<close>

lemma setup_buffers_path_idle:
  assumes "dma_ok K" and "setup_buffers (card_mmio r) K s = (ret, s')"
    and rx: "k_dma_rx K = (rx, rxd)" and tx: "k_dma_tx K = (tx, txd)"
    and maps: "dma_maps T (rx, rx + 0x80000) rxd" "dma_maps T (tx, tx + 0x80000) txd"
  shows "path_idle T (drv_of s')"
proof -
  have b: "unat rxd + 0x80000 < 2 ^ 32" "unat txd + 0x80000 < 2 ^ 32" "unat rx + 0x80000 < 2 ^ 64" "unat tx + 0x80000 < 2 ^ 64"
    using assms(1) by (simp_all add: dma_ok_def rx tx)
  then have e: "unat (rxd + 0x80000) = unat rxd + 0x80000" "unat (txd + 0x80000) = unat txd + 0x80000"
    by (simp_all add: unat_add_no_wrap)
  have low: "ucast (ucast rxd :: u32) = rxd" "ucast (ucast txd :: u32) = txd"
    "ucast (ucast (rxd + 0x80000) :: u32) = rxd + 0x80000" "ucast (ucast (txd + 0x80000) :: u32) = txd + 0x80000"
    using b(1,2) e by (simp_all add: ucast_low)
  have "\<not> push_bit 32 1 \<le> rxd" "\<not> push_bit 32 1 \<le> txd" using b by (simp_all add: word_le_nat_alt)
  then show ?thesis
    using assms(2) maps slot_ok_buffer [OF b(3)] slot_ok_buffer [OF b(4)]
    by (auto simp: setup_buffers_def Let_def rx tx wr32_def upd_card_def iowrite32_def card_write_dma low
        fejkon_bar0_write_def cast32_def path_idle_def ring_at_def bus_def slot_count_def)
qed

section \<open>Concrete instances\<close>

text \<open>A bound card with two ports that are up and idle rings of four slots, in a memory of 0xEE bytes;
  the CPU addresses lie 0xffff888000000000 above the bus addresses.\<close>

definition demo_path :: "card_dev drv" where
  "demo_path = \<lparr>the_card = (the_card (demo_drv 0 0))\<lparr>port := [Some (demo_port 0), Some (demo_port 1), None, None]\<rparr>,
     dev = \<lparr>fcard = zeroed_card\<lparr>
         rx_buf := \<lparr>db_start = 0x100000, db_end = 0x104000, db_write = 0x100000, db_read = 0x100000\<rparr>,
         tx_buf := \<lparr>db_start = 0x200000, db_end = 0x204000, db_write = 0x200000, db_read = 0x200000\<rparr>,
         rx_buf_irq_enabled := True\<rparr>, events = []\<rparr>,
     ram = (\<lambda>_. 0xEE), napi_scheduled = False, delivered = []\<rparr>"

definition demo_host :: "u64 \<Rightarrow> u64" where
  "demo_host a = a + 0xffff888000000000"

lemma demo_path_idle: "path_idle demo_host demo_path"
proof -
  have "dma_maps demo_host (0xffff888000100000, 0xffff888000104000) 0x100000"
    "dma_maps demo_host (0xffff888000200000, 0xffff888000204000) 0x200000"
    by (simp_all add: dma_maps_def demo_host_def)
  then show ?thesis
    by (simp add: path_idle_def demo_path_def demo_drv_def slot_ok_def slot_count_def ring_at_def bus_def)
qed

lemma demo_path_ports: "port (the_card demo_path) = [Some (demo_port 0), Some (demo_port 1), None, None]"
  "delivered demo_path = []"
  by (simp_all add: demo_path_def)

theorem loopback_loses_tail_witness:
  "\<exists>s1 s2 s3 old. stack_tx (card_mmio 0) False (demo_skb 36) 1 demo_path = Inr s1 \<and> run_tx_thread demo_host s1 = Inr s2
    \<and> poll (card_mmio 0) (\<lambda>_. True) 64 (run_irq_thread demo_host s2) = Inr (1, s3)
    \<and> length old = 12 \<and> delivered s3 = [(1, replicate 24 0x42 @ old)]"
proof -
  have "skb_ok (demo_skb 36)" "unat (skb_len (demo_skb 36)) = 36" using demo_skb_ok [of 36] by simp_all
  moreover have "take 24 (skb_data (demo_skb 36)) = replicate 24 0x42" by (simp add: demo_skb_def)
  ultimately show ?thesis
    using loopback_loses_tail [OF demo_path_idle, of "demo_skb 36" 1 "demo_port 1" "\<lambda>_. True" 64 0] demo_path_ports
    by (auto simp: demo_port_def demo_net_def)
qed

theorem test_packet_loses_head_witness:
  "\<exists>s1 old. poll (card_mmio 0) (\<lambda>_. True) 64 (run_irq_thread demo_host (run_rx_thread demo_host demo_path)) = Inr (1, s1)
    \<and> length old = 12 \<and> delivered s1 = [(0, replicate 56 0 @ [0xBC, 0x95, 0x75, 0x75] @ old)]"
  using test_packet_loses_head [OF demo_path_idle, of "demo_port 0" "\<lambda>_. True" 64 0] demo_path_ports
  by (auto simp: demo_port_def demo_net_def)

theorem alloc_failure_silences_card_witness:
  "\<exists>t. poll (card_mmio 0) (\<lambda>_. False) 64 (run_irq_thread demo_host (run_rx_thread demo_host demo_path)) = Inr (0, t)
    \<and> napi_scheduled t"
  using alloc_failure_silences_card [OF demo_path_idle, of "demo_port 0" "\<lambda>_. False" 64 0] demo_path_ports
  by (auto simp: demo_port_def demo_net_def)

end
