(* ===== verification/Spec2Isabelle.thy ===== *)
theory Spec2Isabelle
  imports PacketPath
begin

text \<open>
  Fejkon: the Linux driver of a Fibre Channel card and the card's emulation in QEMU

  The repository holds an FPGA design (SystemVerilog), its Linux driver and an emulation of the card
  as a QEMU device, both in C. This development models the C code: \<open>src/driver/src\<close> (the driver) and
  \<open>src/driver/qemu-device\<close> (the emulated card), and proves what each part promises and what holds,
  or fails to hold, when the two run together.

  Parts and interaction. The driver reaches the card through the registers in BAR 0 (\<open>ioread32\<close>,
  \<open>iowrite32\<close>, \<open>readl\<close>, \<open>writel\<close>); the card reaches the host through DMA and message signalled
  interrupts. Packets pass through two rings of 4096-byte slots in host memory, one per direction,
  each with a producer's and a consumer's pointer; every slot starts with a metadata word (port,
  length in words, offset) followed by the data. Each of two SFP ports has an I2C master in a window
  of BAR 0, behind which the emulation puts an EEPROM of 256 bytes. Every register access of the
  driver is modelled on a parameter \<open>'d mmio\<close> (\<open>Prelude\<close>), a device of any state type with a read
  and a write operation, so that the driver's theorems hold for any hardware; the theories
  \<open>I2cSystem\<close>, \<open>System\<close> and \<open>PacketPath\<close> instantiate it with the models of the emulation.

  Theories, with the code they model:
  Prelude: machine integers, the faults (null dereference, access out of bounds, \<open>BUG\<close>,
  \<open>hw_error\<close>), errno values, byte memory and little-endian words, register devices.
  Ring: the contract of a ring buffer's pointer (locale \<open>ring\<close>: one operation that advances, laws on
  its position), and what follows for any such ring: the occupied slots, enqueue, dequeue, full.
  It is interpreted as \<open>buf\<close> in Slots, on the driver's pointer arithmetic, and as \<open>dma\<close> in QemuRing,
  on \<open>dma_incr\<close> of the card.
  Slots: a ring of 4096-byte slots between two addresses, and frames in host memory.
  Registers: \<open>fejkon.h\<close>, the register map and the clock.
  PacketMeta: the fields of the metadata word.
  QemuI2c: \<open>i2c.h\<close> and \<open>i2c.c\<close> of the emulation, the I2C core (\<open>avalon_i2c_read\<close>,
  \<open>avalon_i2c_write\<close>) with its EEPROM; the interrupt callback and the log are returned as events.
  QemuCard: \<open>fejkon.c\<close> of the emulation: the register file (\<open>fejkon_bar0_read\<close>, \<open>fejkon_bar0_write\<close>),
  DMA (\<open>fejkon_rx_pkt\<close>), one iteration of each thread, and \<open>pci_fejkon_realize\<close>. What the card does to
  the host (DMA writes, interrupts) and what it logs are returned as events, in order.
  QemuRing: the receive ring as a bounded FIFO on the host's memory.
  QemuThreads: the card as a step relation: guest accesses, thread iterations, and removal
  (\<open>pci_fejkon_uninit\<close>), with invariants over all runs.
  DrvI2c, DrvI2cErrors: \<open>i2c.c\<close> of the driver: register access, FIFO service, both halves of the
  interrupt handler, the transfer of a list of messages; memory safety and the error paths.
  I2cSystem: the I2C driver on the emulated core, refined by an abstract EEPROM. The locale
  \<open>i2c_host\<close> states what the kernel and the interrupt controller do for the driver;
  its interpretation \<open>emulated\<close> is a host that serves interrupts until none is left.
  DrvNet: \<open>struct fejkon_card\<close>, \<open>struct fejkon_port\<close>, \<open>net_tx\<close>, \<open>poll\<close> and the packet interrupts of
  \<open>board.c\<close>; DrvTx and DrvRx hold their properties, DrvExamples concrete states.
  DrvPort: the link poller, \<open>net_open\<close>, \<open>net_stop\<close>, ethtool, hwmon and the sysfs file of \<open>board.c\<close>.
  DrvProbe: \<open>probe\<close>, \<open>remove\<close> and their parts, with a ledger of what is held from the kernel (a
  multiset; giving back what is not held is a fault); DrvLife holds the properties.
  The ledger names an interrupt handler by its vector, as \<open>probe\<close>, \<open>probe_port\<close> and
  \<open>fejkon_i2c_probe\<close> compute it.
  System: the driver on the emulated card: link state, the I2C windows, probing, the rings.
  PacketPath: driver, host and card composed. The translation of bus addresses to CPU addresses is a
  parameter, of which only the contiguity of the two buffers is assumed (\<open>dma_maps\<close>, what
  \<open>dma_alloc_coherent\<close> promises); DMA writes of the card reach the host's memory byte by byte, its
  interrupts the handlers. On an idle path, one packet is followed from \<open>net_tx\<close> through the
  threads of the card to \<open>poll\<close>, and the path is idle again; \<open>setup_buffers\<close> leaves it idle.

  What the lemmas show. Both rings are FIFOs while their preconditions hold; the I2C path refines an
  EEPROM, is memory safe on arbitrary hardware and reports lost arbitration and missing
  acknowledges; interrupts are moderated; probing either binds the card with rings on which driver
  and card agree or gives back what it took, up to what the driver never gives back, and
  uses exactly the interrupt vectors it should. The
  development also proves the failures that the code has: the missing wrap in the test for a full
  ring, the doorbell that a batch can lose, the stall after a failed allocation (for ever, on the emulated
  card), the unchecked port
  numbers, lengths and offsets, the receive overflow that is reported as success, the race on the
  transmit path of the I2C driver, the leaks of \<open>probe_port\<close>, the double removal after an error, the
  end address that wraps at 4 GiB, the removal of the emulated card that never returns, and the
  disagreement of driver and emulation on the offset of the data (packets arrive shifted by twelve
  bytes, on both ways of the packet path) and on the register of the transmit read pointer.

  Bounds and fuel. The loop of \<open>poll\<close> recurses on what is left of the budget, the stress test of
  \<open>probe\<close> on its 0x10000 rounds, and the FIFO loops on the number of bytes they compute first: each is
  exactly the bound of the code, and no fuel is added. The loop that drains the receive FIFO may not end
  and is a \<open>partial_function\<close> (None: it does not return), as is the host's serving of interrupts; that
  both return on the emulated core is part of the refinement theorem. Integers have the width of the
  code: \<open>int\<close> conversions of 64-bit sizes, 32-bit register values and 16-bit lengths are written out,
  and the fill level of the emulated FIFO, which nothing bounds, is a 32-bit \<open>int\<close> that wraps around.

  Concurrency. Critical sections under a spin lock or the RTNL lock are single operations. The
  threads of the emulated card run one loop iteration as a step, and guest accesses come in between, in any order;
  the accesses within one iteration are not interleaved. In the I2C driver, the interrupt handler
  runs while the caller waits for completion; that it can also run earlier, in the middle of
  \<open>altr_i2c_fill_tx_fifo\<close>, is the subject of \<open>tx_race_overruns_buffer\<close>.

  Not modelled: the FPGA; \<open>setup_pcie_speeds\<close> and the registration of types and tables (configuration
  of QEMU and of the kernel); log messages of the driver; the kernel's own data structures behind
  the calls, whose results are arguments of the model (record \<open>kernel\<close>, \<open>i2c_env\<close>); failures of
  \<open>device_create\<close> and \<open>pci_iomap\<close>, which the code does not check. The random values that the emulation returns
  in some registers are an argument.
\<close>

end
